theory Spec2Isabelle
  imports Complex_Main
begin

section \<open>Tensors of the detection models\<close>

text \<open>
  The models work on float32 tensors. A finite tensor entry is a real number, and a
  \<open>tfloat\<close> is an entry that may have left the finite numbers: \<open>None\<close> stands for an
  infinity or \<open>nan\<close>.

  The two box decoders of the heads are modelled with the rounding of float32 after every
  operation (see the section on floating-point numbers). The matchers and \<open>box_iou\<close> are
  modelled on the real numbers, without rounding; the one place where they leave the
  finite numbers, the division \<open>inter / union\<close> of \<open>box_iou\<close> at \<open>union = 0\<close>, is kept
  explicit as the value \<open>None\<close>.

  A tensor of shape \<open>[N, 4]\<close> is a list of \<open>N\<close> rows, a row \<open>(x1, y1, x2, y2)\<close> being a
  4-tuple; a tensor of shape \<open>[M, 2]\<close> is a list of pairs; a tensor of shape \<open>[N, M]\<close> is
  a list of \<open>N\<close> rows of length \<open>M\<close>.
\<close>

type_synonym box = "real \<times> real \<times> real \<times> real"
type_synonym point = "real \<times> real"
type_synonym tfloat = "real option"
type_synonym tbox = "tfloat \<times> tfloat \<times> tfloat \<times> tfloat"

section \<open>Floating-point numbers\<close>

text \<open>
  Rounding to the nearest integer, a tie going to the even one: the rounding of the IEEE 754
  arithmetic that torch and Python compute with.
\<close>

definition round_half_even :: "real \<Rightarrow> int" where
  "round_half_even y =
     (let f = \<lfloor>y\<rfloor>
      in if y - of_int f < 1 / 2 then f
         else if 1 / 2 < y - of_int f then f + 1
         else if even f then f else f + 1)"

text \<open>
  A binary format of precision \<open>p\<close> (bits of the significand, the hidden one counted) and
  least exponent \<open>emin\<close>. The exponent of \<open>x \<noteq> 0\<close> is that of the power of two at or below
  \<open>\<bar>x\<bar>\<close>, and \<open>emin\<close> for the subnormal numbers; the numbers of the format around \<open>x\<close>
  are the multiples of \<open>2 ^ (exponent - (p - 1))\<close>, and \<open>float_round\<close> is the nearest of
  them. The exponent is not bounded above here: \<open>float32\<close> below turns a result beyond the
  largest number of the format into \<open>None\<close>.
\<close>

definition float_exponent :: "int \<Rightarrow> real \<Rightarrow> int" where
  "float_exponent emin x = max emin \<lfloor>log 2 \<bar>x\<bar>\<rfloor>"

definition float_round :: "int \<Rightarrow> int \<Rightarrow> real \<Rightarrow> real" where
  "float_round p emin x =
     (if x = 0 then 0
      else let ulp = 2 powi (float_exponent emin x - (p - 1))
           in of_int (round_half_even (x / ulp)) * ulp)"

text \<open>binary32 (\<open>torch.float32\<close>) and binary64 (the \<open>float\<close> of Python).\<close>

definition float32_round :: "real \<Rightarrow> real" where
  "float32_round x = float_round 24 (- 126) x"

definition float64_round :: "real \<Rightarrow> real" where
  "float64_round x = float_round 53 (- 1022) x"

text \<open>
  The float32 result of an operation whose exact result is \<open>x\<close>: the rounded number, or an
  infinity (\<open>None\<close>) where the rounded number is \<open>2 ^ 128\<close> or beyond.
\<close>

definition float32 :: "real \<Rightarrow> tfloat" where
  "float32 x = (let r = float32_round x in if \<bar>r\<bar> < 2 ^ 128 then Some r else None)"

text \<open>
  An arithmetic operation of torch on two float32 entries. An operand that is not finite
  gives a result that is not finite (\<open>inf + x\<close>, \<open>inf - inf\<close>, \<open>inf * 0\<close> and \<open>0.5 * inf\<close> are
  infinities or \<open>nan\<close>).
\<close>

definition float32_op :: "(real \<Rightarrow> real \<Rightarrow> real) \<Rightarrow> tfloat \<Rightarrow> tfloat \<Rightarrow> tfloat" where
  "float32_op f a b =
     (case a of None \<Rightarrow> None | Some x \<Rightarrow> (case b of None \<Rightarrow> None | Some y \<Rightarrow> float32 (f x y)))"

definition torch_add :: "tfloat \<Rightarrow> tfloat \<Rightarrow> tfloat" where
  "torch_add a b = float32_op (+) a b"

definition torch_sub :: "tfloat \<Rightarrow> tfloat \<Rightarrow> tfloat" where
  "torch_sub a b = float32_op (-) a b"

definition torch_mul :: "tfloat \<Rightarrow> tfloat \<Rightarrow> tfloat" where
  "torch_mul a b = float32_op (*) a b"

text \<open>
  \<open>Tensor.exp()\<close> on a finite float32 entry, taken as the exponential rounded to the nearest
  float32 number.
\<close>

definition torch_exp :: "real \<Rightarrow> tfloat" where
  "torch_exp x = float32 (exp x)"

text \<open>
  \<open>torch.clamp(t, max=c)\<close> on a finite entry of a float32 tensor \<open>t\<close>, for a Python float
  \<open>c\<close>: the scalar is converted to float32 and the entry is the smaller of the two.
\<close>

definition torch_clamp_max :: "real \<Rightarrow> real \<Rightarrow> real" where
  "torch_clamp_max x c = min x (float32_round c)"

text \<open>\<open>math.log\<close> of Python, taken as the logarithm rounded to the nearest binary64 number.\<close>

definition math_log :: "real \<Rightarrow> real" where
  "math_log x = float64_round (ln x)"

section \<open>models/head/fcos\_head.py\<close>

text \<open>
  \<open>FCOSHead.decode_boxes(pred_deltas, anchors)\<close> for \<open>pred_deltas\<close> of shape \<open>[M, 4]\<close>
  (rows \<open>(l, t, r, b)\<close>) and \<open>anchors\<close> of shape \<open>[M, 2]\<close>, both of finite float32 entries:
  \<open>pred_x1y1 = anchors - pred_deltas[..., :2]\<close>, \<open>pred_x2y2 = anchors + pred_deltas[..., 2:]\<close>,
  and the two are concatenated along the last axis.
\<close>

definition FCOSHead_decode_boxes :: "box list \<Rightarrow> point list \<Rightarrow> tbox list" where
  "FCOSHead_decode_boxes pred_deltas anchors =
     (let pred_x1y1 = map2 (\<lambda>(ax, ay) (l, t, r, b).
                              (torch_sub (Some ax) (Some l), torch_sub (Some ay) (Some t)))
                        anchors pred_deltas;
          pred_x2y2 = map2 (\<lambda>(ax, ay) (l, t, r, b).
                              (torch_add (Some ax) (Some r), torch_add (Some ay) (Some b)))
                        anchors pred_deltas;
          pred_box = map2 (\<lambda>(x1, y1) (x2, y2). (x1, y1, x2, y2)) pred_x1y1 pred_x2y2
      in pred_box)"

section \<open>models/modules/head/retinanet\_head.py\<close>

text \<open>
  \<open>self.DEFAULT_SCALE_CLAMP = math.log(1000.0 / 16)\<close>, a Python float: the quotient and the
  logarithm are binary64 numbers.
\<close>

definition DEFAULT_SCALE_CLAMP :: real where
  "DEFAULT_SCALE_CLAMP = math_log (float64_round (1000 / 16))"

text \<open>
  \<open>RetinaNetHead.decode_boxes(anchor_boxes, pred_reg)\<close> for \<open>anchor_boxes\<close> of shape
  \<open>[M, 4]\<close> (rows \<open>(x, y, w, h)\<close>) and \<open>pred_reg\<close> of shape \<open>[M, 4]\<close> (rows
  \<open>(dx, dy, dw, dh)\<close>), both of finite float32 entries.
\<close>

definition RetinaNetHead_decode_boxes :: "box list \<Rightarrow> box list \<Rightarrow> tbox list" where
  "RetinaNetHead_decode_boxes anchor_boxes pred_reg =
     (let pred_ctr_offset = map2 (\<lambda>(dx, dy, dw, dh) (ax, ay, aw, ah).
                                    (torch_mul (Some dx) (Some aw), torch_mul (Some dy) (Some ah)))
                              pred_reg anchor_boxes;
          pred_ctr_xy = map2 (\<lambda>(ax, ay, aw, ah) (ox, oy).
                                (torch_add (Some ax) ox, torch_add (Some ay) oy))
                          anchor_boxes pred_ctr_offset;
          pred_dwdh = map (\<lambda>(dx, dy, dw, dh). (dw, dh)) pred_reg;
          pred_dwdh = map (\<lambda>(dw, dh). (torch_clamp_max dw DEFAULT_SCALE_CLAMP,
                                          torch_clamp_max dh DEFAULT_SCALE_CLAMP))
                        pred_dwdh;
          pred_wh = map2 (\<lambda>(ax, ay, aw, ah) (dw, dh).
                            (torch_mul (Some aw) (torch_exp dw), torch_mul (Some ah) (torch_exp dh)))
                      anchor_boxes pred_dwdh;
          pred_x1y1 = map2 (\<lambda>(cx, cy) (w, h).
                              (torch_sub cx (torch_mul (Some 0.5) w),
                               torch_sub cy (torch_mul (Some 0.5) h)))
                        pred_ctr_xy pred_wh;
          pred_x2y2 = map2 (\<lambda>(cx, cy) (w, h).
                              (torch_add cx (torch_mul (Some 0.5) w),
                               torch_add cy (torch_mul (Some 0.5) h)))
                        pred_ctr_xy pred_wh;
          pred_box = map2 (\<lambda>(x1, y1) (x2, y2). (x1, y1, x2, y2)) pred_x1y1 pred_x2y2
      in pred_box)"

section \<open>models/detectors/yolofv2/matcher.py\<close>

subsection \<open>box\_iou\<close>

text \<open>\<open>torchvision.ops.boxes.box_area\<close>: \<open>(x2 - x1) * (y2 - y1)\<close> for every row.\<close>

definition box_area :: "box list \<Rightarrow> real list" where
  "box_area boxes = map (\<lambda>(x1, y1, x2, y2). (x2 - x1) * (y2 - y1)) boxes"

text \<open>
  Float division of torch: a finite quotient where the divisor is not zero, and no finite
  number (\<open>nan\<close> for \<open>0 / 0\<close>, an infinity otherwise) where it is zero.
\<close>

definition tdiv :: "real \<Rightarrow> real \<Rightarrow> tfloat" where
  "tdiv a b = (if b = 0 then None else Some (a / b))"

text \<open>
  \<open>box_iou(boxes1, boxes2)\<close>, with \<open>boxes1\<close> of shape \<open>[N, 4]\<close> and \<open>boxes2\<close> of shape
  \<open>[M, 4]\<close>. \<open>lt\<close>, \<open>rb\<close> and \<open>wh\<close> have shape \<open>[N, M, 2]\<close>; \<open>clamp(min=0)\<close> is \<open>max _ 0\<close>.
  \<open>inter\<close> is a local of the source; it is also exposed as \<open>box_inter\<close>.
\<close>

definition box_lt :: "box list \<Rightarrow> box list \<Rightarrow> point list list" where
  "box_lt boxes1 boxes2 =
     map (\<lambda>(x1, y1, x2, y2). map (\<lambda>(x1', y1', x2', y2'). (max x1 x1', max y1 y1')) boxes2) boxes1"

definition box_rb :: "box list \<Rightarrow> box list \<Rightarrow> point list list" where
  "box_rb boxes1 boxes2 =
     map (\<lambda>(x1, y1, x2, y2). map (\<lambda>(x1', y1', x2', y2'). (min x2 x2', min y2 y2')) boxes2) boxes1"

definition box_inter :: "box list \<Rightarrow> box list \<Rightarrow> real list list" where
  "box_inter boxes1 boxes2 =
     (let lt = box_lt boxes1 boxes2;
          rb = box_rb boxes1 boxes2;
          wh = map2 (map2 (\<lambda>(rx, ry) (lx, ly). (max (rx - lx) 0, max (ry - ly) 0))) rb lt
      in map (map (\<lambda>(w, h). w * h)) wh)"

definition box_iou :: "box list \<Rightarrow> box list \<Rightarrow> tfloat list list \<times> real list list" where
  "box_iou boxes1 boxes2 =
     (let area1 = box_area boxes1;
          area2 = box_area boxes2;
          inter = box_inter boxes1 boxes2;
          union = map2 (\<lambda>a1 inter_row. map2 (\<lambda>a2 i. a1 + a2 - i) area2 inter_row) area1 inter;
          iou = map2 (map2 tdiv) inter union
      in (iou, union))"

subsection \<open>find\_inside\_points\<close>

text \<open>
  \<open>find_inside_points(gt_bboxes, anchors)\<close> of \<open>SimOTAMatcher\<close>, with \<open>gt_bboxes\<close> of shape
  \<open>[N, 4]\<close> and \<open>anchors\<close> of shape \<open>[M, 2]\<close>: both are expanded to \<open>[N, M, _]\<close>, the four
  offsets \<open>cat([lt, rb])\<close> are computed and their minimum is compared with \<open>0\<close>.
\<close>

definition SimOTAMatcher_find_inside_points :: "box list \<Rightarrow> point list \<Rightarrow> bool list list" where
  "SimOTAMatcher_find_inside_points gt_bboxes anchors =
     (let num_anchors = length anchors;
          num_gt = length gt_bboxes;
          anchors_expand = replicate num_gt anchors;
          gt_bboxes_expand = map (\<lambda>b. replicate num_anchors b) gt_bboxes;
          lt = map2 (map2 (\<lambda>(ax, ay) (x1, y1, x2, y2). (ax - x1, ay - y1)))
                 anchors_expand gt_bboxes_expand;
          rb = map2 (map2 (\<lambda>(x1, y1, x2, y2) (ax, ay). (x2 - ax, y2 - ay)))
                 gt_bboxes_expand anchors_expand;
          bbox_deltas = map2 (map2 (\<lambda>(l, t) (r, b). [l, t, r, b])) lt rb;
          is_in_gts = map (map (\<lambda>d. Min (set d) > 0)) bbox_deltas
      in is_in_gts)"

text \<open>The method of \<open>HungarianMatcher\<close> with the same name has the same body.\<close>

definition HungarianMatcher_find_inside_points :: "box list \<Rightarrow> point list \<Rightarrow> bool list list" where
  "HungarianMatcher_find_inside_points gt_bboxes anchors =
     (let num_anchors = length anchors;
          num_gt = length gt_bboxes;
          anchors_expand = replicate num_gt anchors;
          gt_bboxes_expand = map (\<lambda>b. replicate num_anchors b) gt_bboxes;
          lt = map2 (map2 (\<lambda>(ax, ay) (x1, y1, x2, y2). (ax - x1, ay - y1)))
                 anchors_expand gt_bboxes_expand;
          rb = map2 (map2 (\<lambda>(x1, y1, x2, y2) (ax, ay). (x2 - ax, y2 - ay)))
                 gt_bboxes_expand anchors_expand;
          bbox_deltas = map2 (map2 (\<lambda>(l, t) (r, b). [l, t, r, b])) lt rb;
          is_in_gts = map (map (\<lambda>d. Min (set d) > 0)) bbox_deltas
      in is_in_gts)"

text \<open>
  \<open>valid_mask = is_in_gt.sum(dim=0) > 0\<close>, as both matchers compute it: the sum over the
  \<open>N\<close> rows of a \<open>[N, M]\<close> boolean tensor, of shape \<open>[M]\<close>. The number of columns \<open>M\<close> is
  passed with the tensor, since a tensor of shape \<open>[0, M]\<close> is an empty list of rows.
\<close>

definition sum_dim0 :: "nat \<Rightarrow> 'a::monoid_add list list \<Rightarrow> 'a list" where
  "sum_dim0 m rows = map (\<lambda>j. sum_list (map (\<lambda>row. row ! j) rows)) [0..<m]"

definition valid_mask_of :: "nat \<Rightarrow> bool list list \<Rightarrow> bool list" where
  "valid_mask_of m is_in_gt = map (\<lambda>s. s > 0) (sum_dim0 m (map (map of_bool) is_in_gt) :: nat list)"

subsection \<open>Errors and indexing\<close>

text \<open>
  Exceptions of Python, torch and scipy are values. \<open>NonFinite\<close> is no exception of the
  code: it marks a run in which a \<open>nan\<close> reaches an operation whose result on \<open>nan\<close> this
  model does not follow (sorting, \<open>topk\<close>, the cast \<open>.int()\<close>).
\<close>

datatype error = IndexError | ValueError | RuntimeError | UnboundLocalError | TypeError | NonFinite

text \<open>An index of Python into a sequence of length \<open>n\<close>: negative indices count from the end.\<close>

definition py_index :: "nat \<Rightarrow> int \<Rightarrow> nat option" where
  "py_index n i =
     (if 0 \<le> i \<and> i < int n then Some (nat i)
      else if - int n \<le> i \<and> i < 0 then Some (nat (i + int n))
      else None)"

text \<open>\<open>t.size(1)\<close> of a tensor of shape \<open>[N, M]\<close> with \<open>N \<ge> 1\<close>.\<close>

definition size1 :: "'a list list \<Rightarrow> nat" where
  "size1 rows = (case rows of [] \<Rightarrow> 0 | r # _ \<Rightarrow> length r)"

definition column :: "'a list list \<Rightarrow> nat \<Rightarrow> 'a list" where
  "column rows j = map (\<lambda>row. row ! j) rows"

text \<open>
  \<open>torch.min(t, dim)\<close> and \<open>argmax\<close> return, among equal extremal values, the index of the
  first one.
\<close>

fun first_index :: "('a \<Rightarrow> bool) \<Rightarrow> 'a list \<Rightarrow> nat" where
  "first_index P [] = 0"
| "first_index P (x # xs) = (if P x then 0 else Suc (first_index P xs))"

definition argmin :: "real list \<Rightarrow> nat" where
  "argmin xs = first_index (\<lambda>x. x = Min (set xs)) xs"

definition argmax :: "nat list \<Rightarrow> nat" where
  "argmax xs = first_index (\<lambda>x. x = Max (set xs)) xs"

text \<open>\<open>t[mask]\<close> for a boolean mask over the entries of \<open>t\<close>.\<close>

definition masked_select :: "'a list \<Rightarrow> bool list \<Rightarrow> 'a list" where
  "masked_select xs msk = map fst (filter snd (zip xs msk))"

text \<open>\<open>row[ids] = v\<close> for a list of indices \<open>ids\<close> into \<open>row\<close>.\<close>

definition index_fill :: "'a list \<Rightarrow> nat list \<Rightarrow> 'a \<Rightarrow> 'a list" where
  "index_fill row ids v = fold (\<lambda>j r. r[j := v]) ids row"

subsection \<open>SimOTAMatcher.dynamic\_k\_matching\<close>

text \<open>
  \<open>torch.topk(row, k)\<close> returns the \<open>k\<close> largest values of a row in descending order;
  \<open>.int()\<close> truncates towards zero.
\<close>

definition topk_values :: "real list \<Rightarrow> nat \<Rightarrow> real list" where
  "topk_values xs k = take k (rev (sort xs))"

definition to_int :: "real \<Rightarrow> int" where
  "to_int x = (if 0 \<le> x then \<lfloor>x\<rfloor> else \<lceil>x\<rceil>)"

text \<open>
  \<open>torch.sort(cost_matrix, dim=1)\<close> sorts every row and returns the indices; torch does
  not fix the order of equal values. The sort of one row is the parameter \<open>tsort\<close> of the
  model, required by \<open>is_argsort\<close> to return the indices of the row ordered by value;
  \<open>stable_argsort\<close> is one such function.
\<close>

definition is_argsort :: "(real list \<Rightarrow> nat list) \<Rightarrow> bool" where
  "is_argsort tsort \<longleftrightarrow>
     (\<forall>xs. distinct (tsort xs) \<and> set (tsort xs) = {..<length xs}
           \<and> sorted (map (\<lambda>i. xs ! i) (tsort xs)))"

definition stable_argsort :: "real list \<Rightarrow> nat list" where
  "stable_argsort xs = sort_key (\<lambda>i. xs ! i) [0..<length xs]"

text \<open>
  The body of the loop \<open>for gt_idx in range(num_gt)\<close>:
  \<open>topk_ids = sorted_indices[gt_idx, :dynamic_ks[gt_idx]]\<close> and
  \<open>matching_matrix[gt_idx, :][topk_ids] = 1\<close>.
\<close>

definition assign_topk :: "nat list list \<Rightarrow> int list \<Rightarrow> nat \<Rightarrow> nat list list \<Rightarrow> nat list list" where
  "assign_topk sorted_indices dynamic_ks gt_idx matching_matrix =
     (let topk_ids = take (nat (dynamic_ks ! gt_idx)) (sorted_indices ! gt_idx)
      in matching_matrix[gt_idx := index_fill (matching_matrix ! gt_idx) topk_ids 1])"

definition dynamic_ks_of :: "nat \<Rightarrow> real list list \<Rightarrow> int list" where
  "dynamic_ks_of topk_candidate pairwise_ious =
     (let candidate_topk = min topk_candidate (size1 pairwise_ious);
          topk_ious = map (\<lambda>row. topk_values row candidate_topk) pairwise_ious
      in map (\<lambda>row. max (to_int (sum_list row)) 1) topk_ious)"

text \<open>The matching matrix after the loop, before multiple assignments are resolved.\<close>

definition initial_matching ::
  "(real list \<Rightarrow> nat list) \<Rightarrow> nat \<Rightarrow> real list list \<Rightarrow> real list list \<Rightarrow> nat \<Rightarrow> nat list list" where
  "initial_matching tsort topk_candidate cost_matrix pairwise_ious num_gt =
     (let matching_matrix = map (map (\<lambda>_. 0)) cost_matrix;
          dynamic_ks = dynamic_ks_of topk_candidate pairwise_ious;
          sorted_indices = map tsort cost_matrix
      in fold (assign_topk sorted_indices dynamic_ks) [0..<num_gt] matching_matrix)"

text \<open>
  The block \<open>if prior_match_gt_mask.sum() > 0\<close>: for the columns of the mask,
  \<open>cost_argmin\<close> is the row of the least cost, the columns are multiplied by \<open>0\<close>, and
  the entry \<open>[cost_argmin, column]\<close> of each is set to \<open>1\<close>.
\<close>

definition resolve_multiple :: "real list list \<Rightarrow> nat list list \<Rightarrow> nat list list" where
  "resolve_multiple cost_matrix matching_matrix =
     (let m = size1 cost_matrix;
          prior_match_gt_mask = map (\<lambda>s. s > 1) (sum_dim0 m matching_matrix)
      in if length (filter id prior_match_gt_mask) > 0 then
           let cols = filter (\<lambda>j. prior_match_gt_mask ! j) [0..<m];
               cost_argmin = map (\<lambda>j. argmin (column cost_matrix j)) cols;
               matching_matrix =
                 map (\<lambda>row. map2 (\<lambda>p v. if p then v * 0 else v) prior_match_gt_mask row)
                   matching_matrix
           in fold (\<lambda>(i, j) mm. mm[i := (mm ! i)[j := 1]]) (zip cost_argmin cols) matching_matrix
         else matching_matrix)"

definition dynamic_k_matching ::
  "(real list \<Rightarrow> nat list) \<Rightarrow> nat \<Rightarrow> real list list \<Rightarrow> real list list \<Rightarrow> nat
     \<Rightarrow> error + (real list \<times> nat list \<times> bool list)" where
  "dynamic_k_matching tsort topk_candidate cost_matrix pairwise_ious num_gt =
     (if num_gt > length cost_matrix \<or> num_gt > length pairwise_ious then Inl IndexError
      else if num_gt = 0 then Inl UnboundLocalError
      else
        let m = size1 cost_matrix;
            matching_matrix =
              initial_matching tsort topk_candidate cost_matrix pairwise_ious num_gt;
            matching_matrix = resolve_multiple cost_matrix matching_matrix;
            fg_mask_inboxes = map (\<lambda>s. s > 0) (sum_dim0 m matching_matrix);
            matched_pred_ious =
              masked_select
                (sum_dim0 m (map2 (map2 (\<lambda>a v. real a * v)) matching_matrix pairwise_ious))
                fg_mask_inboxes;
            matched_gt_inds =
              map (\<lambda>j. argmax (column matching_matrix j))
                (filter (\<lambda>j. fg_mask_inboxes ! j) [0..<m])
        in Inr (matched_pred_ious, matched_gt_inds, fg_mask_inboxes))"

subsection \<open>The matching cost of both matchers\<close>

text \<open>
  Operations on \<open>tfloat\<close> entries: a \<open>nan\<close> operand gives \<open>nan\<close>.
  \<open>F.binary_cross_entropy_with_logits(x, z, reduction="none")\<close> is
  \<open>(1 - z) * x + log(1 + exp(-x))\<close>.
\<close>

definition tlift2 :: "(real \<Rightarrow> real \<Rightarrow> real) \<Rightarrow> tfloat \<Rightarrow> tfloat \<Rightarrow> tfloat" where
  "tlift2 f a b =
     (case a of None \<Rightarrow> None | Some x \<Rightarrow> (case b of None \<Rightarrow> None | Some y \<Rightarrow> Some (f x y)))"

text \<open>\<open>torch.log\<close>: a finite number on the positive numbers only.\<close>

definition tlog :: "real \<Rightarrow> tfloat" where
  "tlog x = (if 0 < x then Some (ln x) else None)"

definition sigmoid :: "real \<Rightarrow> real" where
  "sigmoid x = 1 / (1 + exp (- x))"

definition binary_cross_entropy_with_logits :: "real \<Rightarrow> real \<Rightarrow> real" where
  "binary_cross_entropy_with_logits x z = (1 - z) * x + ln (1 + exp (- x))"

text \<open>
  \<open>pred_cls.permute(1, 0)[gt_labels.long(), :]\<close> for \<open>pred_cls\<close> of shape \<open>[M, C]\<close>: row
  \<open>i\<close> holds, for every anchor, its score of the class \<open>gt_labels[i]\<close>. A label outside
  \<open>[-C, C)\<close> raises \<open>IndexError\<close>.
\<close>

definition pairwise_pred_scores_of :: "real list list \<Rightarrow> int list \<Rightarrow> error + real list list" where
  "pairwise_pred_scores_of pred_cls gt_labels =
     (if \<forall>row \<in> set pred_cls. \<forall>l \<in> set gt_labels. py_index (length row) l \<noteq> None
      then Inr (map (\<lambda>l. map (\<lambda>row. row ! the (py_index (length row) l)) pred_cls) gt_labels)
      else Inl IndexError)"

text \<open>
  The lines from \<open>pair_wise_reg_loss\<close> to the \<open>torch.where\<close> that pads the columns
  outside \<open>valid_mask\<close>; the two \<open>__call__\<close> methods have the same text here.
\<close>

definition matching_cost ::
  "bool list \<Rightarrow> real list list \<Rightarrow> tfloat list list \<Rightarrow> nat \<Rightarrow> tfloat list list" where
  "matching_cost valid_mask pairwise_pred_scores pair_wise_ious num_gt =
     (let pair_wise_reg_loss =
            map (map (\<lambda>iou. Option.bind iou (\<lambda>v. map_option uminus (tlog (v + 1 / 10 ^ 8)))))
              pair_wise_ious;
          scale_factor =
            map2 (map2 (\<lambda>iou s. map_option (\<lambda>v. \<bar>v - sigmoid s\<bar> ^ 2) iou))
              pair_wise_ious pairwise_pred_scores;
          pair_wise_cls_loss =
            map2 (map2 (tlift2 (*)))
              (map2 (map2 (\<lambda>s iou. map_option (binary_cross_entropy_with_logits s) iou))
                 pairwise_pred_scores pair_wise_ious)
              scale_factor;
          cost_matrix =
            map2 (map2 (tlift2 (\<lambda>c r. c + 3 * r))) pair_wise_cls_loss pair_wise_reg_loss;
          max_pad_value = map (map (\<lambda>_. Some (1 * 10 ^ 9))) cost_matrix;
          cost_matrix =
            map2 (\<lambda>vrow (crow, prow). map2 (\<lambda>v (c, p). if v then c else p) vrow (zip crow prow))
              (replicate num_gt valid_mask) (zip cost_matrix max_pad_value)
      in cost_matrix)"

text \<open>A tensor without \<open>nan\<close>, as a tensor of reals.\<close>

definition finite_matrix :: "tfloat list list \<Rightarrow> real list list option" where
  "finite_matrix t = those (map those t)"

subsection \<open>SimOTAMatcher.\_\_call\_\_\<close>

text \<open>\<open>gt_bboxes.max()\<close>: the largest entry; torch raises on a tensor without entries.\<close>

definition boxes_max :: "box list \<Rightarrow> real option" where
  "boxes_max boxes =
     (case concat (map (\<lambda>(x1, y1, x2, y2). [x1, y1, x2, y2]) boxes) of
        [] \<Rightarrow> None
      | v # vs \<Rightarrow> Some (fold max vs v))"

text \<open>\<open>t[msk] = vals\<close>: the entries of \<open>t\<close> under the mask take the values in order.\<close>

fun masked_put :: "'a list \<Rightarrow> bool list \<Rightarrow> 'a list \<Rightarrow> 'a list" where
  "masked_put [] ms vs = []"
| "masked_put (x # xs) [] vs = x # xs"
| "masked_put (x # xs) (True # ms) [] = x # xs"
| "masked_put (x # xs) (True # ms) (v # vs) = v # masked_put xs ms vs"
| "masked_put (x # xs) (False # ms) vs = x # masked_put xs ms vs"

text \<open>
  The arguments: \<open>anchors\<close> \<open>[M, 2]\<close>, \<open>pred_cls\<close> \<open>[M, C]\<close> with \<open>C \<ge> 1\<close>, \<open>pred_box\<close>
  \<open>[M, 4]\<close>, \<open>gt_labels\<close> \<open>[N]\<close>, \<open>gt_bboxes\<close> \<open>[N, 4]\<close>; \<open>pred_cls[..., 0].shape\<close> is
  \<open>[M]\<close>. The fields \<open>num_classes\<close> and \<open>topk_candidate\<close> of the matcher are arguments.
\<close>

definition SimOTAMatcher_call ::
  "(real list \<Rightarrow> nat list) \<Rightarrow> int \<Rightarrow> nat \<Rightarrow> point list \<Rightarrow> real list list \<Rightarrow> box list \<Rightarrow> int list
     \<Rightarrow> box list \<Rightarrow> error + (int list \<times> box list \<times> real list)" where
  "SimOTAMatcher_call tsort num_classes topk_candidate anchors pred_cls pred_box gt_labels gt_bboxes =
     (let num_gt = length gt_labels
      in if num_gt \<noteq> 0 \<and> boxes_max gt_bboxes = None then Inl RuntimeError
         else if num_gt = 0 \<or> boxes_max gt_bboxes = Some 0 then
           let cls_targets = replicate (length pred_cls) num_classes;
               box_targets = replicate (length pred_box) (0, 0, 0, 0);
               iou_targets = replicate (length pred_cls) 0
           in Inr (cls_targets, box_targets, iou_targets)
         else
           let is_in_gt = SimOTAMatcher_find_inside_points gt_bboxes anchors;
               valid_mask = valid_mask_of (length anchors) is_in_gt;
               pair_wise_ious = fst (box_iou gt_bboxes pred_box)
           in case pairwise_pred_scores_of pred_cls gt_labels of
                Inl e \<Rightarrow> Inl e
              | Inr pairwise_pred_scores \<Rightarrow>
                 (let cost_matrix =
                       matching_cost valid_mask pairwise_pred_scores pair_wise_ious num_gt
                 in case (finite_matrix cost_matrix, finite_matrix pair_wise_ious) of
                      (Some cost_matrix, Some pair_wise_ious) \<Rightarrow>
                        (case dynamic_k_matching tsort topk_candidate cost_matrix pair_wise_ious
                                num_gt of
                           Inl e \<Rightarrow> Inl e
                         | Inr (matched_pred_ious, matched_gt_inds, fg_mask_inboxes) \<Rightarrow>
                            let cls_targets = replicate (length pred_cls) num_classes;
                                cls_targets =
                                  masked_put cls_targets fg_mask_inboxes
                                    (map (\<lambda>i. gt_labels ! i) matched_gt_inds);
                                box_targets = replicate (length pred_box) (0, 0, 0, 0);
                                box_targets =
                                  masked_put box_targets fg_mask_inboxes
                                    (map (\<lambda>i. gt_bboxes ! i) matched_gt_inds);
                                iou_targets = replicate (length pred_cls) 0;
                                iou_targets =
                                  masked_put iou_targets fg_mask_inboxes matched_pred_ious
                            in Inr (cls_targets, box_targets, iou_targets))
                    | _ \<Rightarrow> Inl NonFinite))"

subsection \<open>HungarianMatcher.\_\_call\_\_\<close>

text \<open>
  \<open>t[ids] = vals\<close> for a list of indices: as many values as indices (or one value, which
  is broadcast), every index inside \<open>t\<close>.
\<close>

definition index_put :: "'a list \<Rightarrow> nat list \<Rightarrow> 'a list \<Rightarrow> error + 'a list" where
  "index_put t ids vals =
     (if \<exists>i \<in> set ids. length t \<le> i then Inl IndexError
      else if length vals = length ids then
        Inr (fold (\<lambda>(i, v) r. r[i := v]) (zip ids vals) t)
      else if length vals = 1 then Inr (fold (\<lambda>i r. r[i := hd vals]) ids t)
      else Inl RuntimeError)"

text \<open>
  \<open>scipy.optimize.linear_sum_assignment\<close> is the parameter \<open>lsa\<close>: it raises
  \<open>ValueError\<close> on a cost matrix with a \<open>nan\<close> and returns the row indices and the column
  indices of an assignment otherwise. \<open>min_cost_assignment\<close> is what scipy documents of
  the result for a matrix of \<open>n\<close> rows and \<open>m \<ge> n\<close> columns: the rows are \<open>0, ..., n - 1\<close>
  in order, the columns are distinct, and no other assignment of all rows to distinct
  columns costs less.
\<close>

definition assignment_cost :: "real list list \<Rightarrow> nat list \<Rightarrow> nat list \<Rightarrow> real" where
  "assignment_cost cost rows cols = sum_list (map2 (\<lambda>i j. cost ! i ! j) rows cols)"

definition min_cost_assignment :: "real list list \<Rightarrow> nat \<Rightarrow> nat list \<times> nat list \<Rightarrow> bool" where
  "min_cost_assignment cost m ind \<longleftrightarrow>
     fst ind = [0..<length cost] \<and> length (snd ind) = length cost \<and> distinct (snd ind)
     \<and> (\<forall>j \<in> set (snd ind). j < m)
     \<and> (\<forall>cols. length cols = length cost \<and> distinct cols \<and> (\<forall>j \<in> set cols. j < m)
           \<longrightarrow> assignment_cost cost (fst ind) (snd ind) \<le> assignment_cost cost (fst ind) cols)"

definition HungarianMatcher_call ::
  "(real list list \<Rightarrow> nat list \<times> nat list) \<Rightarrow> int \<Rightarrow> point list \<Rightarrow> real list list \<Rightarrow> box list
     \<Rightarrow> int list \<Rightarrow> box list \<Rightarrow> error + (int list \<times> box list \<times> tfloat list)" where
  "HungarianMatcher_call lsa num_classes anchors pred_cls pred_box gt_labels gt_bboxes =
     (let num_gts = length gt_labels;
          num_anchors = length anchors;
          is_in_gt = HungarianMatcher_find_inside_points gt_bboxes anchors;
          valid_mask = valid_mask_of num_anchors is_in_gt;
          pair_wise_ious = fst (box_iou gt_bboxes pred_box)
      in case pairwise_pred_scores_of pred_cls gt_labels of
           Inl e \<Rightarrow> Inl e
         | Inr pairwise_pred_scores \<Rightarrow>
            (let cost_matrix = matching_cost valid_mask pairwise_pred_scores pair_wise_ious num_gts
            in case finite_matrix cost_matrix of
                 None \<Rightarrow> Inl ValueError
               | Some cost_matrix \<Rightarrow>
                  (let indices = lsa cost_matrix;
                      gt_indices = fst indices;
                      pred_indices = snd indices;
                      cls_target = replicate (length pred_cls) num_classes;
                      box_target = replicate (length pred_box) (0, 0, 0, 0);
                      iou_target = replicate (length pred_box) (Some 0)
                  in if \<exists>j \<in> set pred_indices. num_anchors \<le> j then Inl IndexError
                     else if \<exists>(g, p) \<in> set (zip gt_indices pred_indices).
                               length pair_wise_ious \<le> g \<or> length (pair_wise_ious ! g) \<le> p
                       then Inl IndexError
                     else
                       (case index_put cls_target pred_indices gt_labels of
                         Inl e \<Rightarrow> Inl e
                       | Inr cls_target \<Rightarrow>
                          (case index_put box_target pred_indices gt_bboxes of
                             Inl e \<Rightarrow> Inl e
                           | Inr box_target \<Rightarrow>
                              (case index_put iou_target pred_indices
                                      (map2 (\<lambda>g p. pair_wise_ious ! g ! p)
                                         gt_indices pred_indices) of
                                 Inl e \<Rightarrow> Inl e
                               | Inr iou_target \<Rightarrow> Inr (cls_target, box_target, iou_target)))))))"

section \<open>models/neck/fpn.py\<close>







section \<open>models/transformer/transformer.py\<close>

text \<open>
  In this file a tensor is represented by its shape, the list of its dimensions: which
  exception a method raises and what shape it returns depend on the shapes of its
  arguments only, never on their entries. A method is a function from shapes to a shape
  or an error.
\<close>

type_synonym shape = "nat list"

definition ebind :: "error + 'a \<Rightarrow> ('a \<Rightarrow> error + 'b) \<Rightarrow> error + 'b" where
  "ebind r f = (case r of Inl e \<Rightarrow> Inl e | Inr v \<Rightarrow> f v)"

subsection \<open>Shapes of the tensor operations\<close>

text \<open>\<open>t[..., k, None]\<close>: the entry \<open>k\<close> of the last axis, kept as an axis of size \<open>1\<close>.\<close>

definition index_last_keep :: "shape \<Rightarrow> nat \<Rightarrow> error + shape" where
  "index_last_keep t k =
     (if t = [] then Inl IndexError
      else if k < last t then Inr (butlast t @ [1])
      else Inl IndexError)"

text \<open>
  Broadcasting of two shapes, aligned at the last axis: two sizes agree when they are
  equal or one of them is \<open>1\<close>.
\<close>

fun broadcast_rev :: "shape \<Rightarrow> shape \<Rightarrow> error + shape" where
  "broadcast_rev [] ys = Inr ys"
| "broadcast_rev (x # xs) [] = Inr (x # xs)"
| "broadcast_rev (x # xs) (y # ys) =
     (if x = y \<or> y = 1 then ebind (broadcast_rev xs ys) (\<lambda>r. Inr (x # r))
      else if x = 1 then ebind (broadcast_rev xs ys) (\<lambda>r. Inr (y # r))
      else Inl RuntimeError)"

definition broadcast :: "shape \<Rightarrow> shape \<Rightarrow> error + shape" where
  "broadcast a b = ebind (broadcast_rev (rev a) (rev b)) (\<lambda>r. Inr (rev r))"

text \<open>\<open>t[..., start::2]\<close> along the axis \<open>axis\<close>, for \<open>start\<close> \<open>0\<close> or \<open>1\<close>.\<close>

definition slice_step2 :: "shape \<Rightarrow> nat \<Rightarrow> nat \<Rightarrow> error + shape" where
  "slice_step2 t axis start =
     (if axis < length t then Inr (t[axis := (t ! axis - start + 1) div 2])
      else Inl IndexError)"

text \<open>\<open>t[a:]\<close> and \<open>t[:b]\<close> along the first axis.\<close>

definition slice_from :: "shape \<Rightarrow> nat \<Rightarrow> error + shape" where
  "slice_from t a = (case t of [] \<Rightarrow> Inl IndexError | n # rest \<Rightarrow> Inr ((n - a) # rest))"

definition slice_to :: "shape \<Rightarrow> nat \<Rightarrow> error + shape" where
  "slice_to t b = (case t of [] \<Rightarrow> Inl IndexError | n # rest \<Rightarrow> Inr (min b n # rest))"

text \<open>\<open>t[:, -1:, :]\<close> for \<open>axis = 1\<close> and \<open>t[:, :, -1:]\<close> for \<open>axis = 2\<close>, on three axes.\<close>

definition slice_last_entry :: "shape \<Rightarrow> nat \<Rightarrow> error + shape" where
  "slice_last_entry t axis =
     (if length t < 3 then Inl IndexError else Inr (t[axis := min 1 (t ! axis)]))"

text \<open>\<open>torch.stack((a, b), dim=axis)\<close>, with \<open>axis\<close> counted from the front.\<close>

definition stack_pair :: "shape \<Rightarrow> shape \<Rightarrow> nat \<Rightarrow> error + shape" where
  "stack_pair a b axis =
     (if a \<noteq> b then Inl RuntimeError
      else if length a < axis then Inl IndexError
      else Inr (take axis a @ [2] @ drop axis a))"

text \<open>\<open>torch.stack(ts)\<close> of a list of tensors, along a new first axis.\<close>

definition stack_list :: "shape list \<Rightarrow> error + shape" where
  "stack_list ts =
     (case ts of
        [] \<Rightarrow> Inl RuntimeError
      | t # rest \<Rightarrow> if \<forall>u \<in> set rest. u = t then Inr (length ts # t) else Inl RuntimeError)"

text \<open>\<open>t.flatten(start_dim)\<close>, with \<open>start_dim\<close> counted from the front.\<close>

definition flatten_from :: "shape \<Rightarrow> nat \<Rightarrow> error + shape" where
  "flatten_from t start_dim =
     (if start_dim < length t then Inr (take start_dim t @ [prod_list (drop start_dim t)])
      else Inl IndexError)"

text \<open>\<open>torch.cat(ts, dim=-1)\<close>: the same sizes on every axis but the last.\<close>

definition cat_last :: "shape list \<Rightarrow> error + shape" where
  "cat_last ts =
     (case ts of
        [] \<Rightarrow> Inl RuntimeError
      | t # rest \<Rightarrow>
          if \<forall>u \<in> set ts. u \<noteq> [] \<and> butlast u = butlast t
          then Inr (butlast t @ [sum_list (map last ts)])
          else Inl RuntimeError)"

text \<open>\<open>t[:, :, k]\<close>: the entry \<open>k\<close> of the axis \<open>2\<close>.\<close>

definition select_axis2 :: "shape \<Rightarrow> nat \<Rightarrow> error + shape" where
  "select_axis2 t k =
     (if length t < 3 then Inl IndexError
      else if k < t ! 2 then Inr (take 2 t @ drop 3 t)
      else Inl IndexError)"

text \<open>\<open>t[:, :, None]\<close> and \<open>t[:, None, :]\<close>: a new axis of size \<open>1\<close> at the position \<open>axis\<close>.\<close>

definition unsqueeze_at :: "shape \<Rightarrow> nat \<Rightarrow> error + shape" where
  "unsqueeze_at t axis =
     (if length t < axis then Inl IndexError else Inr (take axis t @ [1] @ drop axis t))"

text \<open>\<open>t.permute(dims)\<close>: as many \<open>dims\<close> as axes.\<close>

definition permute :: "shape \<Rightarrow> nat list \<Rightarrow> error + shape" where
  "permute t dims =
     (if length dims = length t then Inr (map (\<lambda>d. t ! d) dims) else Inl RuntimeError)"

text \<open>\<open>t.cumsum(dim)\<close>.\<close>

definition cumsum :: "shape \<Rightarrow> nat \<Rightarrow> error + shape" where
  "cumsum t axis = (if axis < length t then Inr t else Inl IndexError)"

subsection \<open>pos2posembed\<close>

text \<open>
  \<open>torch.stack((t[..., 0::2].sin(), t[..., 1::2].cos()), dim=-1).flatten(-2)\<close>, and the same
  with \<open>t[:, :, 0::2]\<close>, \<open>dim=3\<close> and \<open>flatten(2)\<close>.
\<close>

definition sin_cos_last :: "shape \<Rightarrow> error + shape" where
  "sin_cos_last t =
     ebind (slice_step2 t (length t - 1) 0) (\<lambda>s.
     ebind (slice_step2 t (length t - 1) 1) (\<lambda>c.
     ebind (stack_pair s c (length s)) (\<lambda>st.
     flatten_from st (length st - 2))))"

definition sin_cos_axis2 :: "shape \<Rightarrow> error + shape" where
  "sin_cos_axis2 t =
     ebind (slice_step2 t 2 0) (\<lambda>s.
     ebind (slice_step2 t 2 1) (\<lambda>c.
     ebind (stack_pair s c 3) (\<lambda>st.
     flatten_from st 2)))"

text \<open>
  \<open>pos2posembed(pos, temperature)\<close> of \<open>PlainDETRTransformer\<close> (lines 112 to 137; lines
  502 to 527 of \<open>BackupPlainDETRTransformer\<close> are the same text). \<open>dim_t\<close> has the shape
  \<open>[num_pos_feats]\<close>; \<open>pos * scale\<close> has the shape of \<open>pos\<close>.
\<close>

definition pos2posembed :: "nat \<Rightarrow> shape \<Rightarrow> error + shape" where
  "pos2posembed d_model' pos =
     (let num_pos_feats = d_model' div 2;
          dim_t = [num_pos_feats]
      in ebind (index_last_keep pos 0) (\<lambda>t.
         ebind (broadcast t dim_t) (\<lambda>pos_x.
         ebind (index_last_keep pos 1) (\<lambda>t.
         ebind (broadcast t dim_t) (\<lambda>pos_y.
         ebind (sin_cos_last pos_x) (\<lambda>pos_x.
         ebind (sin_cos_last pos_y) (\<lambda>pos_y.
           if last pos = 2 then cat_last [pos_y, pos_x]
           else if last pos = 4 then
             ebind (select_axis2 pos 2) (\<lambda>w_embed.
             ebind (unsqueeze_at w_embed 2) (\<lambda>t.
             ebind (broadcast t dim_t) (\<lambda>pos_w.
             ebind (sin_cos_axis2 pos_w) (\<lambda>pos_w.
             ebind (select_axis2 pos 3) (\<lambda>h_embed.
             ebind (unsqueeze_at h_embed 2) (\<lambda>t.
             ebind (broadcast t dim_t) (\<lambda>pos_h.
             ebind (sin_cos_axis2 pos_h) (\<lambda>pos_h.
               cat_last [pos_y, pos_x, pos_w, pos_h]))))))))
           else Inl ValueError)))))))"

subsection \<open>The modules and their helper methods\<close>

text \<open>
  The fields of \<open>PlainDETRTransformer\<close>; \<open>BackupPlainDETRTransformer\<close> has the same
  ones, set by the same \<open>__init__\<close>. The layers whose classes are not in this file
  (\<open>PlainDETRTransformerEncoderLayer\<close>, \<open>PlainDETRTransformerDecoderLayer\<close>, \<open>MLP\<close>) and
  the modules of torch (\<open>nn.Sequential\<close>, \<open>nn.Linear\<close>) are fields of the record: a
  layer is a function from the shapes of its arguments to the shape of its result or an
  error. \<open>upsample_layer\<close>, \<open>encoder_layers\<close> and \<open>decoder_layers\<close> may be \<open>None\<close>.
  \<open>F_interpolate\<close> is \<open>nn.functional.interpolate(t, size=size)\<close>. The weights of
  \<open>query_embed\<close> and \<open>refpoint_embed\<close> have the shapes \<open>[num_queries, d_model]\<close> and
  \<open>[num_queries, 4]\<close>.
\<close>

record PlainDETRTransformer =
  is_train :: bool
  d_model :: nat
  num_queries_one2one :: nat
  num_queries_one2many :: nat
  return_intermediate :: bool
  F_interpolate :: "shape \<Rightarrow> shape \<Rightarrow> error + shape"
  upsample_layer :: "(shape \<Rightarrow> error + shape) option"
  encoder_layers :: "(shape \<Rightarrow> shape \<Rightarrow> shape \<Rightarrow> error + shape) list option"
  decoder_layers ::
    "(shape \<Rightarrow> shape \<Rightarrow> shape option \<Rightarrow> shape \<Rightarrow> shape \<Rightarrow> shape \<Rightarrow> error + shape) list option"
  ref_point_head :: "shape \<Rightarrow> error + shape"
  class_embed :: "(shape \<Rightarrow> error + shape) list"
  bbox_embed :: "(shape \<Rightarrow> error + shape) list"

text \<open>
  \<open>self.num_queries = num_queries_one2one + num_queries_one2many if is_train else
  num_queries_one2one\<close>.
\<close>

definition num_queries :: "PlainDETRTransformer \<Rightarrow> nat" where
  "num_queries self =
     (if is_train self then num_queries_one2one self + num_queries_one2many self
      else num_queries_one2one self)"

text \<open>\<open>t[0]\<close> and \<open>t[-1]\<close>: an entry of the first axis.\<close>

definition index_first :: "shape \<Rightarrow> error + shape" where
  "index_first t =
     (case t of [] \<Rightarrow> Inl IndexError | n # rest \<Rightarrow> if n = 0 then Inl IndexError else Inr rest)"

text \<open>\<open>t.repeat(reps)\<close> with as many repetitions as axes.\<close>

definition repeat :: "shape \<Rightarrow> nat list \<Rightarrow> error + shape" where
  "repeat t reps =
     (if length reps = length t then Inr (map2 (*) t reps) else Inl RuntimeError)"

text \<open>
  \<open>resize_mask(src, mask)\<close>: \<open>bs, c, h, w = src.shape\<close> needs four axes; the mask is
  \<open>interpolate(mask[None].float(), size=[h, w]).bool()[0]\<close>, or zeros of shape
  \<open>[bs, h, w]\<close> without a mask.
\<close>

definition resize_mask ::
  "PlainDETRTransformer \<Rightarrow> shape \<Rightarrow> shape option \<Rightarrow> error + shape" where
  "resize_mask self src msk =
     (case src of
        [bs, c, h, w] \<Rightarrow>
          (case msk of
             Some m \<Rightarrow> ebind (F_interpolate self (1 # m) [h, w]) index_first
           | None \<Rightarrow> Inr [bs, h, w])
      | _ \<Rightarrow> Inl ValueError)"

text \<open>
  \<open>get_posembed(mask)\<close>: the two cumulative sums, each divided by its last row or
  column, stacked to \<open>[B, H, W, 2]\<close>, embedded, and permuted to \<open>[B, C, H, W]\<close>.
\<close>

definition get_posembed :: "PlainDETRTransformer \<Rightarrow> shape \<Rightarrow> error + shape" where
  "get_posembed self msk =
     (let not_mask = msk
      in ebind (cumsum not_mask 1) (\<lambda>y_embed.
         ebind (cumsum not_mask 2) (\<lambda>x_embed.
         ebind (slice_last_entry y_embed 1) (\<lambda>y_last.
         ebind (broadcast y_embed y_last) (\<lambda>y_embed.
         ebind (slice_last_entry x_embed 2) (\<lambda>x_last.
         ebind (broadcast x_embed x_last) (\<lambda>x_embed.
         ebind (stack_pair x_embed y_embed (length x_embed)) (\<lambda>pos.
         ebind (pos2posembed (d_model self) pos) (\<lambda>pos_embed.
         permute pos_embed [0, 3, 1, 2])))))))))"

text \<open>\<open>inverse_sigmoid(x)\<close> and \<open>sigmoid\<close> keep the shape.\<close>

definition inverse_sigmoid :: "shape \<Rightarrow> shape" where
  "inverse_sigmoid x = x"

text \<open>
  \<open>set_aux_loss(outputs_class, outputs_coord)\<close>: one dictionary
  \<open>{'pred_logits': a, 'pred_boxes': b}\<close>, here the pair \<open>(a, b)\<close>, for every pair of
  \<open>zip(outputs_class[:-1], outputs_coord[:-1])\<close>.
\<close>

definition set_aux_loss :: "shape \<Rightarrow> shape \<Rightarrow> error + (shape \<times> shape) list" where
  "set_aux_loss outputs_class outputs_coord =
     (case outputs_class of
        [] \<Rightarrow> Inl IndexError
      | la # a \<Rightarrow>
         (case outputs_coord of
            [] \<Rightarrow> Inl IndexError
          | lb # b \<Rightarrow> Inr (replicate (min (la - 1) (lb - 1)) (a, b))))"

subsection \<open>forward\_pre\_upsample\<close>

text \<open>A value of the dictionary that \<open>forward_pre_upsample\<close> returns.\<close>

datatype out_value = Tensor shape | AuxOutputs "(shape \<times> shape) list"

text \<open>
  The body of the loop over \<open>enumerate(self.decoder_layers)\<close>; its state is
  \<open>(output, ref_point, outputs, ref_points)\<close>.
\<close>

definition decoder_step ::
  "PlainDETRTransformer \<Rightarrow> shape \<Rightarrow> shape option \<Rightarrow> shape \<Rightarrow> shape
     \<Rightarrow> nat \<times> (shape \<Rightarrow> shape \<Rightarrow> shape option \<Rightarrow> shape \<Rightarrow> shape \<Rightarrow> shape \<Rightarrow> error + shape)
     \<Rightarrow> error + (shape \<times> shape \<times> shape list \<times> shape list)
     \<Rightarrow> error + (shape \<times> shape \<times> shape list \<times> shape list)" where
  "decoder_step self src self_attn_mask msk pos_embed layer state =
     (case layer of (layer_id, decoder_layer) \<Rightarrow>
      ebind state (\<lambda>(output, ref_point, outputs, ref_points).
        ebind (pos2posembed (d_model self) ref_point) (\<lambda>query_sine_embed.
        ebind (ref_point_head self query_sine_embed) (\<lambda>query_pos.
        ebind (decoder_layer output src self_attn_mask msk pos_embed query_pos) (\<lambda>output.
        if length (bbox_embed self) \<le> layer_id then Inl IndexError
        else
          ebind ((bbox_embed self ! layer_id) output) (\<lambda>tmp.
          ebind (broadcast tmp (inverse_sigmoid ref_point)) (\<lambda>new_ref_point.
            let ref_point = new_ref_point
            in Inr (output, ref_point, outputs @ [output], ref_points @ [ref_point]))))))))"

text \<open>
  The body of the loop over \<open>enumerate(zip(ref_points[:-1], outputs))\<close>; its state is the
  four lists of outputs. \<open>one2many_start\<close> is the index at which the slice of the
  one-to-many queries starts. \<open>tmp += ...\<close> adds in place: the sum has the shape of
  \<open>tmp\<close>.
\<close>

definition head_step ::
  "PlainDETRTransformer \<Rightarrow> bool \<Rightarrow> nat \<Rightarrow> nat \<times> shape \<times> shape
     \<Rightarrow> error + (shape list \<times> shape list \<times> shape list \<times> shape list)
     \<Rightarrow> error + (shape list \<times> shape list \<times> shape list \<times> shape list)" where
  "head_step self use_one2many one2many_start item state =
     (case item of (lid, ref_sig, output) \<Rightarrow>
      ebind state (\<lambda>(output_classes_one2one, output_coords_one2one,
                     output_classes_one2many, output_coords_one2many).
        if length (class_embed self) \<le> lid then Inl IndexError
        else
          ebind ((class_embed self ! lid) output) (\<lambda>output_class.
          if length (bbox_embed self) \<le> lid then Inl IndexError
          else
            ebind ((bbox_embed self ! lid) output) (\<lambda>tmp.
            ebind (broadcast tmp (inverse_sigmoid ref_sig)) (\<lambda>t.
            if t \<noteq> tmp then Inl RuntimeError
            else
              let output_coord = tmp
              in ebind (slice_to output_class (num_queries_one2one self)) (\<lambda>class_one2one.
                 ebind (slice_to output_coord (num_queries_one2one self)) (\<lambda>coord_one2one.
                 if use_one2many then
                   ebind (slice_from output_class one2many_start) (\<lambda>class_one2many.
                   ebind (slice_from output_coord one2many_start) (\<lambda>coord_one2many.
                     Inr (output_classes_one2one @ [class_one2one],
                          output_coords_one2one @ [coord_one2one],
                          output_classes_one2many @ [class_one2many],
                          output_coords_one2many @ [coord_one2many])))
                 else
                   Inr (output_classes_one2one @ [class_one2one],
                        output_coords_one2one @ [coord_one2one],
                        output_classes_one2many, output_coords_one2many))))))))"

text \<open>
  \<open>torch.stack(ts).permute(0, 2, 1, 3)\<close>: \<open>[L, Nq, B, Nc]\<close> to \<open>[L, B, Nq, Nc]\<close>.
\<close>

definition stack_permute :: "shape list \<Rightarrow> error + shape" where
  "stack_permute ts = ebind (stack_list ts) (\<lambda>t. permute t [0, 2, 1, 3])"

text \<open>
  The part \<open>Re-organize outputs\<close>: the dictionary, from the stacked outputs of all
  layers; \<open>one2many\<close> holds the stacked one-to-many outputs under \<open>use_one2many\<close>.
\<close>

definition organize_outputs ::
  "PlainDETRTransformer \<Rightarrow> shape \<Rightarrow> shape \<Rightarrow> (shape \<times> shape) option
     \<Rightarrow> error + (string \<rightharpoonup> out_value)" where
  "organize_outputs self output_classes_one2one output_coords_one2one one2many =
     ebind (index_first output_classes_one2one) (\<lambda>pred_logits.
     ebind (index_first output_coords_one2one) (\<lambda>pred_boxes.
     let outputs = [''pred_logits'' \<mapsto> Tensor pred_logits, ''pred_boxes'' \<mapsto> Tensor pred_boxes]
     in ebind (if return_intermediate self then
                 ebind (set_aux_loss output_classes_one2one output_coords_one2one) (\<lambda>aux.
                   Inr (outputs(''aux_outputs'' \<mapsto> AuxOutputs aux)))
               else Inr outputs) (\<lambda>outputs.
        case one2many of
          None \<Rightarrow> Inr outputs
        | Some (output_classes_one2many, output_coords_one2many) \<Rightarrow>
            ebind (index_first output_classes_one2many) (\<lambda>pred_logits_one2many.
            ebind (index_first output_coords_one2many) (\<lambda>pred_boxes_one2many.
            let outputs = outputs(''pred_logits_one2many'' \<mapsto> Tensor pred_logits_one2many,
                                  ''pred_boxes_one2many'' \<mapsto> Tensor pred_boxes_one2many)
            in if return_intermediate self then
                 ebind (set_aux_loss output_classes_one2many output_coords_one2many) (\<lambda>aux.
                   Inr (outputs(''aux_outputs_one2many'' \<mapsto> AuxOutputs aux)))
               else Inr outputs)))))"

text \<open>
  \<open>forward_pre_upsample(src, src_mask)\<close>. The methods of the two classes (lines 182 to
  288 and 572 to 681) are the same text but for the two slices of the one-to-many
  outputs: \<open>output_class[self.num_queries_one2many:]\<close> and
  \<open>output_coord[self.num_queries_one2many:]\<close> in \<open>PlainDETRTransformer\<close>,
  \<open>output_class[self.num_queries_one2one:]\<close> and \<open>output_coord[self.num_queries_one2one:]\<close>
  in \<open>BackupPlainDETRTransformer\<close>. The common text takes the start of the slice as
  \<open>one2many_start\<close>.
\<close>

definition forward_pre_upsample_from ::
  "nat \<Rightarrow> PlainDETRTransformer \<Rightarrow> shape \<Rightarrow> shape option \<Rightarrow> error + (string \<rightharpoonup> out_value)" where
  "forward_pre_upsample_from one2many_start self src src_mask =
     ebind (case upsample_layer self of Some layer \<Rightarrow> layer src | None \<Rightarrow> Inr src) (\<lambda>src.
     case src of
       [bs, c, h, w] \<Rightarrow>
         ebind (resize_mask self src src_mask) (\<lambda>msk.
         ebind (get_posembed self msk) (\<lambda>pos_embed.
         ebind (ebind (flatten_from src 2) (\<lambda>t. permute t [2, 0, 1])) (\<lambda>src.
         ebind (ebind (flatten_from pos_embed 2) (\<lambda>t. permute t [2, 0, 1])) (\<lambda>pos_embed.
         ebind (flatten_from msk 1) (\<lambda>msk.
         ebind (fold (\<lambda>encoder_layer state.
                        ebind state (\<lambda>src. encoder_layer src msk pos_embed))
                  (case encoder_layers self of Some layers \<Rightarrow> layers | None \<Rightarrow> [])
                  (Inr src)) (\<lambda>src.
         let tgt = [num_queries self, d_model self];
             query_embed = [num_queries self, 4]
         in ebind (ebind (unsqueeze_at tgt 1) (\<lambda>t. repeat t [1, bs, 1])) (\<lambda>tgt.
            ebind (ebind (unsqueeze_at query_embed 1) (\<lambda>t. repeat t [1, bs, 1])) (\<lambda>query_embed.
            let ref_point = query_embed;
                ref_points = [ref_point];
                use_one2many = (num_queries_one2many self > 0 \<and> is_train self);
                self_attn_mask =
                  (if use_one2many then Some [num_queries self, num_queries self] else None);
                output = tgt
            in case decoder_layers self of
                 None \<Rightarrow> Inl TypeError
               | Some layers \<Rightarrow>
                  ebind (fold (decoder_step self src self_attn_mask msk pos_embed)
                           (enumerate 0 layers) (Inr (output, ref_point, [], ref_points)))
                    (\<lambda>(output, ref_point, outputs, ref_points).
                  ebind (fold (head_step self use_one2many one2many_start)
                           (enumerate 0 (zip (butlast ref_points) outputs))
                           (Inr ([], [], [], [])))
                    (\<lambda>(output_classes_one2one, output_coords_one2one,
                       output_classes_one2many, output_coords_one2many).
                  ebind (stack_permute output_classes_one2one) (\<lambda>output_classes_one2one.
                  ebind (stack_permute output_coords_one2one) (\<lambda>output_coords_one2one.
                  ebind (if use_one2many then
                           ebind (stack_permute output_classes_one2many) (\<lambda>classes.
                           ebind (stack_permute output_coords_one2many) (\<lambda>coords.
                             Inr (Some (classes, coords))))
                         else Inr None) (\<lambda>one2many.
                    organize_outputs self output_classes_one2one output_coords_one2one
                      one2many)))))))))))))
     | _ \<Rightarrow> Inl ValueError)"

definition PlainDETRTransformer_forward_pre_upsample ::
  "PlainDETRTransformer \<Rightarrow> shape \<Rightarrow> shape option \<Rightarrow> error + (string \<rightharpoonup> out_value)" where
  "PlainDETRTransformer_forward_pre_upsample self src src_mask =
     forward_pre_upsample_from (num_queries_one2many self) self src src_mask"

definition BackupPlainDETRTransformer_forward_pre_upsample ::
  "PlainDETRTransformer \<Rightarrow> shape \<Rightarrow> shape option \<Rightarrow> error + (string \<rightharpoonup> out_value)" where
  "BackupPlainDETRTransformer_forward_pre_upsample self src src_mask =
     forward_pre_upsample_from (num_queries_one2one self) self src src_mask"

subsection \<open>The constructor\<close>

text \<open>
  \<open>nn.Linear(in_features, out_features)\<close> maps the last axis of size \<open>in_features\<close> to
  one of size \<open>out_features\<close>.
\<close>

definition Linear :: "nat \<Rightarrow> nat \<Rightarrow> shape \<Rightarrow> error + shape" where
  "Linear in_features out_features t =
     (if t \<noteq> [] \<and> last t = in_features then Inr (butlast t @ [out_features])
      else Inl RuntimeError)"

text \<open>
  \<open>__init__\<close>, the same text in both classes. The classes of the encoder layer, the
  decoder layer and \<open>MLP(input_dim, hidden_dim, output_dim, num_layers)\<close> are not in this
  file: they are the parameters \<open>encoder_layer\<close>, \<open>decoder_layer\<close> and \<open>mlp\<close>, and so are
  \<open>interpolate\<close> and the \<open>nn.Sequential\<close> of the upsampling, \<open>upsample_seq\<close>. The
  arguments that only configure these layers (numbers of heads, ratios, dropout,
  activations, \<open>norm_before\<close>) are left to them.
\<close>

definition PlainDETRTransformer_init ::
  "(shape \<Rightarrow> shape \<Rightarrow> shape \<Rightarrow> error + shape)
     \<Rightarrow> (shape \<Rightarrow> shape \<Rightarrow> shape option \<Rightarrow> shape \<Rightarrow> shape \<Rightarrow> shape \<Rightarrow> error + shape)
     \<Rightarrow> (nat \<Rightarrow> nat \<Rightarrow> nat \<Rightarrow> nat \<Rightarrow> shape \<Rightarrow> error + shape)
     \<Rightarrow> (shape \<Rightarrow> shape \<Rightarrow> error + shape) \<Rightarrow> (shape \<Rightarrow> error + shape)
     \<Rightarrow> bool \<Rightarrow> nat \<Rightarrow> nat \<Rightarrow> bool \<Rightarrow> nat \<Rightarrow> nat \<Rightarrow> nat \<Rightarrow> nat \<Rightarrow> bool
     \<Rightarrow> PlainDETRTransformer" where
  "PlainDETRTransformer_init encoder_layer decoder_layer mlp interpolate upsample_seq
     is_train' d_model' num_encoder upsample num_decoder num_classes
     num_queries_one2one' num_queries_one2many' return_intermediate' =
     \<lparr> is_train = is_train',
       d_model = d_model',
       num_queries_one2one = num_queries_one2one',
       num_queries_one2many = num_queries_one2many',
       return_intermediate = return_intermediate',
       F_interpolate = interpolate,
       upsample_layer = (if upsample then Some upsample_seq else None),
       encoder_layers =
         (if num_encoder > 0 then Some (replicate num_encoder encoder_layer) else None),
       decoder_layers =
         (if num_decoder > 0 then Some (replicate num_decoder decoder_layer) else None),
       ref_point_head = mlp (2 * d_model') d_model' d_model' 2,
       class_embed = replicate num_decoder (Linear d_model' num_classes),
       bbox_embed = replicate num_decoder (mlp d_model' d_model' 4 3) \<rparr>"

section \<open>Rounding to a floating-point format\<close>

subsection \<open>Rounding to the nearest integer\<close>

lemma round_half_even_cases:
  "round_half_even y = \<lfloor>y\<rfloor> \<and> y - of_int \<lfloor>y\<rfloor> \<le> 1 / 2
   \<or> round_half_even y = \<lfloor>y\<rfloor> + 1 \<and> 1 / 2 \<le> y - of_int \<lfloor>y\<rfloor>"
  by (auto simp add: round_half_even_def Let_def)

lemma round_half_even_error: "\<bar>of_int (round_half_even y) - y\<bar> \<le> 1 / 2"
  using round_half_even_cases [of y] by (auto; linarith)

lemma round_half_even_of_int [simp]: "round_half_even (of_int n) = n"
  by (simp add: round_half_even_def)

lemma round_half_even_zero [simp]: "round_half_even 0 = 0"
  using round_half_even_of_int [of 0] by simp

lemma round_half_even_numeral [simp]: "round_half_even (numeral k) = numeral k"
  using round_half_even_of_int [of "numeral k"] by simp

lemma round_half_even_power2 [simp]: "round_half_even (2 ^ n) = 2 ^ n"
  using round_half_even_of_int [of "2 ^ n"] by simp

lemma round_half_even_mono:
  assumes "x \<le> y" shows "round_half_even x \<le> round_half_even y"
proof -
  have fg: "\<lfloor>x\<rfloor> \<le> \<lfloor>y\<rfloor>" using assms by (rule floor_mono)
  show ?thesis
  proof (cases "\<lfloor>x\<rfloor> = \<lfloor>y\<rfloor>")
    case True
    then show ?thesis using assms
      by (auto simp add: round_half_even_def Let_def)
  next
    case False
    then have "\<lfloor>x\<rfloor> + 1 \<le> \<lfloor>y\<rfloor>" using fg by simp
    then show ?thesis
      using round_half_even_cases [of x] round_half_even_cases [of y] by auto
  qed
qed

lemma round_half_even_minus: "round_half_even (- y) = - round_half_even y"
proof (cases "y = of_int \<lfloor>y\<rfloor>")
  case True
  then obtain n :: int where "y = of_int n" ..
  then have "- y = of_int (- n)" by simp
  then show ?thesis using \<open>y = of_int n\<close> by (simp only: round_half_even_of_int)
next
  case False
  then have lt: "of_int \<lfloor>y\<rfloor> < y" by (metis floor_less_iff less_le of_int_floor_le order_refl)
  have "\<lfloor>- y\<rfloor> = - \<lceil>y\<rceil>" by (simp add: ceiling_def)
  moreover have "\<lceil>y\<rceil> = \<lfloor>y\<rfloor> + 1" using False lt by (simp add: ceiling_altdef)
  ultimately have f: "\<lfloor>- y\<rfloor> = - \<lfloor>y\<rfloor> - 1" by simp
  show ?thesis
    unfolding round_half_even_def Let_def f
    by (auto simp add: algebra_simps)
qed

subsection \<open>The exponent of a number\<close>

lemma floor_log2_bounds:
  assumes "x \<noteq> 0"
  shows "2 powi \<lfloor>log 2 \<bar>x\<bar>\<rfloor> \<le> \<bar>x\<bar>" and "\<bar>x\<bar> < 2 powi (\<lfloor>log 2 \<bar>x\<bar>\<rfloor> + 1)"
proof -
  have "0 < \<bar>x\<bar>" using assms by simp
  then have "2 powr real_of_int \<lfloor>log 2 \<bar>x\<bar>\<rfloor> \<le> \<bar>x\<bar>
      \<and> \<bar>x\<bar> < 2 powr real_of_int (\<lfloor>log 2 \<bar>x\<bar>\<rfloor> + 1)"
    using floor_log_eq_powr_iff [of "\<bar>x\<bar>" 2 "\<lfloor>log 2 \<bar>x\<bar>\<rfloor>"] by simp
  then show "2 powi \<lfloor>log 2 \<bar>x\<bar>\<rfloor> \<le> \<bar>x\<bar>" and "\<bar>x\<bar> < 2 powi (\<lfloor>log 2 \<bar>x\<bar>\<rfloor> + 1)"
    by (simp_all only: powr_real_of_int' [of 2, simplified])
qed

lemma floor_log2_eq:
  assumes "2 powi e \<le> \<bar>x\<bar>" and "\<bar>x\<bar> < 2 powi (e + 1)"
  shows "\<lfloor>log 2 \<bar>x\<bar>\<rfloor> = e"
proof -
  have "(0::real) < 2 powi e" by (simp add: zero_less_power_int)
  then have "0 < \<bar>x\<bar>" using assms(1) by linarith
  moreover have "2 powr real_of_int e \<le> \<bar>x\<bar>" "\<bar>x\<bar> < 2 powr real_of_int (e + 1)"
    using assms by (simp_all only: powr_real_of_int' [of 2, simplified])
  ultimately show ?thesis
    using floor_log_eq_powr_iff [of "\<bar>x\<bar>" 2 e] by simp
qed

lemma float_exponent_ge: "emin \<le> float_exponent emin x"
  by (simp add: float_exponent_def)

lemma float_exponent_upper:
  assumes "x \<noteq> 0" shows "\<bar>x\<bar> < 2 powi (float_exponent emin x + 1)"
proof -
  have "\<bar>x\<bar> < 2 powi (\<lfloor>log 2 \<bar>x\<bar>\<rfloor> + 1)" using assms by (rule floor_log2_bounds)
  also have "\<dots> \<le> 2 powi (float_exponent emin x + 1)"
    by (rule power_int_increasing) (simp_all add: float_exponent_def)
  finally show ?thesis .
qed

lemma float_exponent_lower:
  assumes "x \<noteq> 0" and "emin < float_exponent emin x"
  shows "2 powi float_exponent emin x \<le> \<bar>x\<bar>"
proof -
  have "float_exponent emin x = \<lfloor>log 2 \<bar>x\<bar>\<rfloor>"
    using assms(2) by (simp add: float_exponent_def max_def split: if_splits)
  then show ?thesis using floor_log2_bounds(1) [OF assms(1)] by simp
qed

lemma float_exponent_eq:
  assumes "emin \<le> e" and "2 powi e \<le> \<bar>x\<bar>" and "\<bar>x\<bar> < 2 powi (e + 1)"
  shows "float_exponent emin x = e"
  using assms(1) floor_log2_eq [OF assms(2,3)] by (simp add: float_exponent_def)

lemma float_exponent_subnormal:
  assumes "x \<noteq> 0" and "\<bar>x\<bar> < 2 powi emin"
  shows "float_exponent emin x = emin"
proof (rule ccontr)
  assume "float_exponent emin x \<noteq> emin"
  then have lt: "emin < float_exponent emin x" using float_exponent_ge [of emin x] by simp
  have "(2::real) powi emin \<le> 2 powi float_exponent emin x"
    by (rule power_int_increasing) (use lt in simp_all)
  also have "\<dots> \<le> \<bar>x\<bar>" using assms(1) lt by (rule float_exponent_lower)
  finally show False using assms(2) by simp
qed

lemma float_exponent_minus [simp]: "float_exponent emin (- x) = float_exponent emin x"
  by (simp add: float_exponent_def)

lemma float_exponent_mono:
  assumes "x \<noteq> 0" and "\<bar>x\<bar> \<le> \<bar>y\<bar>"
  shows "float_exponent emin x \<le> float_exponent emin y"
proof -
  have "0 < \<bar>x\<bar>" using assms(1) by simp
  then have "log 2 \<bar>x\<bar> \<le> log 2 \<bar>y\<bar>" using assms(2) by simp
  then have "\<lfloor>log 2 \<bar>x\<bar>\<rfloor> \<le> \<lfloor>log 2 \<bar>y\<bar>\<rfloor>" by (rule floor_mono)
  then show ?thesis by (simp add: float_exponent_def max_def)
qed

lemma float_round_zero [simp]: "float_round p emin 0 = 0"
  by (simp add: float_round_def)

lemma float_round_minus: "float_round p emin (- x) = - float_round p emin x"
  by (simp add: float_round_def Let_def round_half_even_minus)

lemma float_round_eval:
  assumes "x \<noteq> 0" and "float_exponent emin x = e"
  shows "float_round p emin x =
    of_int (round_half_even (x / 2 powi (e - (p - 1)))) * 2 powi (e - (p - 1))"
  using assms by (simp add: float_round_def Let_def)

lemma float_round_nonneg:
  assumes "0 \<le> x" shows "0 \<le> float_round p emin x"
proof (cases "x = 0")
  case True then show ?thesis by simp
next
  case False
  let ?u = "(2::real) powi (float_exponent emin x - (p - 1))"
  have u: "0 < ?u" by (simp add: zero_less_power_int)
  have "0 \<le> x / ?u" using assms u by simp
  then have "round_half_even (of_int 0) \<le> round_half_even (x / ?u)"
    by (intro round_half_even_mono) simp
  then have "0 \<le> round_half_even (x / ?u)" by simp
  then show ?thesis using u False by (simp add: float_round_def Let_def)
qed

lemma float_round_error:
  assumes "x \<noteq> 0"
  shows "\<bar>float_round p emin x - x\<bar> \<le> 2 powi (float_exponent emin x - p)"
proof -
  let ?u = "(2::real) powi (float_exponent emin x - (p - 1))"
  have u: "0 < ?u" by (simp add: zero_less_power_int)
  have h: "?u / 2 = 2 powi (float_exponent emin x - p)"
    by (simp add: power_int_diff)
  have "float_round p emin x - x = (of_int (round_half_even (x / ?u)) - x / ?u) * ?u"
    using assms u by (simp add: float_round_def Let_def algebra_simps)
  then have "\<bar>float_round p emin x - x\<bar> = \<bar>of_int (round_half_even (x / ?u)) - x / ?u\<bar> * ?u"
    using u by (simp add: abs_mult)
  also have "\<dots> \<le> 1 / 2 * ?u"
    using round_half_even_error [of "x / ?u"] u by (intro mult_right_mono) simp_all
  finally show ?thesis using h by simp
qed

lemma float_round_mono_pos:
  assumes p: "1 \<le> p" and "0 < x" and "x \<le> y"
  shows "float_round p emin x \<le> float_round p emin y"
proof -
  let ?ex = "float_exponent emin x" and ?ey = "float_exponent emin y"
  let ?ux = "(2::real) powi (?ex - (p - 1))" and ?uy = "(2::real) powi (?ey - (p - 1))"
  have x0: "x \<noteq> 0" and y0: "y \<noteq> 0" and ypos: "0 < y" using assms by auto
  have ux: "0 < ?ux" and uy: "0 < ?uy" by (simp_all add: zero_less_power_int)
  have fx: "float_round p emin x = of_int (round_half_even (x / ?ux)) * ?ux"
    using x0 by (simp add: float_round_def Let_def)
  have fy: "float_round p emin y = of_int (round_half_even (y / ?uy)) * ?uy"
    using y0 by (simp add: float_round_def Let_def)
  have le: "?ex \<le> ?ey" using assms by (intro float_exponent_mono) simp_all
  show ?thesis
  proof (cases "?ex = ?ey")
    case True
    have "x / ?ux \<le> y / ?ux" using assms(3) ux by (simp add: divide_right_mono)
    then have "round_half_even (x / ?ux) \<le> round_half_even (y / ?ux)"
      by (rule round_half_even_mono)
    then have "real_of_int (round_half_even (x / ?ux)) * ?ux
        \<le> real_of_int (round_half_even (y / ?ux)) * ?ux"
      using ux by (intro mult_right_mono) simp_all
    then show ?thesis unfolding fx fy True [symmetric] .
  next
    case False
    then have lt: "?ex < ?ey" using le by simp
    then have "emin < ?ey" using float_exponent_ge [of emin x] by simp
    then have ylow: "2 powi ?ey \<le> y"
      using float_exponent_lower [OF y0, of emin] ypos by simp
    have xup: "x < 2 powi (?ex + 1)"
      using float_exponent_upper [OF x0, of emin] assms(2) by simp
    \<comment> \<open>the rounding of \<open>x\<close> stays below the next power of two\<close>
    have px: "(2::real) powi (?ex + 1) = 2 powi p * ?ux"
      by (simp add: power_int_add [symmetric])
    have pint: "(2::real) powi p = of_int (2 ^ nat p)"
      using p by (simp add: power_int_def)
    have "x / ?ux \<le> 2 powi p"
      using xup ux unfolding px by (simp add: pos_divide_le_eq less_imp_le)
    then have "round_half_even (x / ?ux) \<le> round_half_even (of_int (2 ^ nat p))"
      unfolding pint by (rule round_half_even_mono)
    then have "real_of_int (round_half_even (x / ?ux)) \<le> 2 powi p"
      unfolding pint by simp
    then have "float_round p emin x \<le> 2 powi p * ?ux"
      unfolding fx using ux by (intro mult_right_mono) simp_all
    then have a: "float_round p emin x \<le> 2 powi (?ex + 1)" unfolding px .
    \<comment> \<open>the rounding of \<open>y\<close> stays above the power of two below it\<close>
    have py: "(2::real) powi ?ey = 2 powi (p - 1) * ?uy"
      by (simp add: power_int_add [symmetric])
    have pint': "(2::real) powi (p - 1) = of_int (2 ^ nat (p - 1))"
      using p by (simp add: power_int_def)
    have "2 powi (p - 1) \<le> y / ?uy"
      using ylow uy unfolding py by (simp add: pos_le_divide_eq)
    then have "round_half_even (of_int (2 ^ nat (p - 1))) \<le> round_half_even (y / ?uy)"
      unfolding pint' by (rule round_half_even_mono)
    then have "2 powi (p - 1) \<le> real_of_int (round_half_even (y / ?uy))"
      unfolding pint' by simp
    then have "2 powi (p - 1) * ?uy \<le> float_round p emin y"
      unfolding fy using uy by (intro mult_right_mono) simp_all
    then have b: "2 powi ?ey \<le> float_round p emin y" unfolding py .
    have "(2::real) powi (?ex + 1) \<le> 2 powi ?ey"
      by (rule power_int_increasing) (use lt in simp_all)
    with a b show ?thesis by linarith
  qed
qed

lemma float_round_mono:
  assumes "1 \<le> p" and "x \<le> y"
  shows "float_round p emin x \<le> float_round p emin y"
proof -
  consider "0 < x" | "x \<le> 0" "0 \<le> y" | "y < 0" by linarith
  then show ?thesis
  proof cases
    case 1
    then show ?thesis using assms by (intro float_round_mono_pos)
  next
    case 2
    have "float_round p emin x = - float_round p emin (- x)"
      by (simp add: float_round_minus)
    moreover have "0 \<le> float_round p emin (- x)" using 2(1) by (intro float_round_nonneg) simp
    moreover have "0 \<le> float_round p emin y" using 2(2) by (rule float_round_nonneg)
    ultimately show ?thesis by linarith
  next
    case 3
    then have "float_round p emin (- y) \<le> float_round p emin (- x)"
      using assms by (intro float_round_mono_pos) simp_all
    then show ?thesis by (simp add: float_round_minus)
  qed
qed

subsection \<open>binary32 and binary64\<close>

lemma float32_SomeD: "float32 x = Some v \<Longrightarrow> v = float32_round x"
  by (simp add: float32_def Let_def split: if_splits)

lemma float32_round_mono: "x \<le> y \<Longrightarrow> float32_round x \<le> float32_round y"
  unfolding float32_round_def by (rule float_round_mono) simp_all

lemma float64_round_mono: "x \<le> y \<Longrightarrow> float64_round x \<le> float64_round y"
  unfolding float64_round_def by (rule float_round_mono) simp_all

lemma float32_round_nonneg: "0 \<le> x \<Longrightarrow> 0 \<le> float32_round x"
  unfolding float32_round_def by (rule float_round_nonneg)

lemma float32_round_zero [simp]: "float32_round 0 = 0"
  by (simp add: float32_round_def)

text \<open>The rounding of a number of a known binade.\<close>

lemma float_round_binade:
  assumes "2 powi e \<le> \<bar>x\<bar>" and "\<bar>x\<bar> < 2 powi (e + 1)" and "emin \<le> e"
    and "round_half_even (x / 2 powi (e - (p - 1))) = m"
  shows "float_round p emin x = of_int m * 2 powi (e - (p - 1))"
proof -
  have "(0::real) < 2 powi e" by (simp add: zero_less_power_int)
  then have "0 < \<bar>x\<bar>" using assms(1) by linarith
  then have x: "x \<noteq> 0" by simp
  have "float_exponent emin x = e" using assms(3,1,2) by (rule float_exponent_eq)
  then show ?thesis using float_round_eval [OF x, of emin e p] assms(4) by simp
qed

lemma float32_round_eqI:
  assumes "2 powi e \<le> \<bar>x\<bar>" and "\<bar>x\<bar> < 2 powi (e + 1)" and "- 126 \<le> e"
    and "round_half_even (x / 2 powi (e - 23)) = m" and "v = of_int m * 2 powi (e - 23)"
  shows "float32_round x = v"
  unfolding float32_round_def
  using float_round_binade [OF assms(1,2,3), of 24 m] assms(4,5) by simp

lemma float64_round_eqI:
  assumes "2 powi e \<le> \<bar>x\<bar>" and "\<bar>x\<bar> < 2 powi (e + 1)" and "- 1022 \<le> e"
    and "round_half_even (x / 2 powi (e - 52)) = m" and "v = of_int m * 2 powi (e - 52)"
  shows "float64_round x = v"
  unfolding float64_round_def
  using float_round_binade [OF assms(1,2,3), of 53 m] assms(4,5) by simp

subsection \<open>Numbers of the format are fixed\<close>

lemma float_round_idem_pos:
  assumes p: "1 \<le> p" and z: "0 < z"
  shows "float_round p emin (float_round p emin z) = float_round p emin z"
proof -
  define e where "e = float_exponent emin z"
  define u :: real where "u = 2 powi (e - (p - 1))"
  define m where "m = round_half_even (z / u)"
  have u: "0 < u" by (simp add: u_def zero_less_power_int)
  have z0: "z \<noteq> 0" using z by simp
  have r: "float_round p emin z = of_int m * u"
    using z0 by (simp add: float_round_def Let_def m_def u_def e_def)
  have pu: "(2::real) powi (e + 1) = 2 powi p * u"
    by (simp add: u_def power_int_add [symmetric])
  have pint: "(2::real) powi p = of_int (2 ^ nat p)"
    using p by (simp add: power_int_def)
  have eu: "(2::real) powi e = 2 powi (p - 1) * u"
    by (simp add: u_def power_int_add [symmetric])
  have pint': "(2::real) powi (p - 1) = of_int (2 ^ nat (p - 1))"
    using p by (simp add: power_int_def)
  have two: "(2::int) ^ nat p = 2 * 2 ^ nat (p - 1)"
  proof -
    have "nat p = Suc (nat (p - 1))" using p by simp
    then show ?thesis by simp
  qed
  have "z < 2 powi (e + 1)" using float_exponent_upper [OF z0, of emin] z by (simp add: e_def)
  then have "z / u \<le> of_int (2 ^ nat p)"
    using u unfolding pu pint by (simp add: pos_divide_le_eq less_imp_le)
  then have "m \<le> round_half_even (of_int (2 ^ nat p))"
    unfolding m_def by (rule round_half_even_mono)
  then have mu: "m \<le> 2 ^ nat p" by (simp only: round_half_even_of_int)
  have "0 \<le> z / u" using z u by simp
  then have "round_half_even (of_int 0) \<le> m" unfolding m_def by (intro round_half_even_mono) simp
  then have ml: "0 \<le> m" by simp
  have mlow: "2 ^ nat (p - 1) \<le> m" if "emin < e"
  proof -
    have "2 powi e \<le> z"
      using float_exponent_lower [OF z0, of emin] that z by (simp add: e_def)
    then have "of_int (2 ^ nat (p - 1)) \<le> z / u"
      using u unfolding eu pint' by (simp add: pos_le_divide_eq)
    then have "round_half_even (of_int (2 ^ nat (p - 1))) \<le> m"
      unfolding m_def by (rule round_half_even_mono)
    then show ?thesis by (simp only: round_half_even_of_int)
  qed
  have emin: "emin \<le> e" by (simp add: e_def float_exponent_ge)
  consider "m = 0" | "0 < m" "m < 2 ^ nat p" | "m = 2 ^ nat p" using mu ml by linarith
  then show ?thesis
  proof cases
    case 1
    then show ?thesis by (simp add: r)
  next
    case 2
    let ?z' = "of_int m * u :: real"
    have z'0: "?z' \<noteq> 0" using 2(1) u by simp
    have z'pos: "0 < ?z'" using 2(1) u by simp
    have "of_int m < (of_int (2 ^ nat p) :: real)" using 2(2) by (simp only: of_int_less_iff)
    then have up: "?z' < 2 powi (e + 1)"
      unfolding pu pint using u by (simp add: mult_strict_right_mono)
    have fe: "float_exponent emin ?z' = e"
    proof (cases "emin < e")
      case True
      have "(of_int (2 ^ nat (p - 1)) :: real) \<le> of_int m"
        using mlow [OF True] by (simp only: of_int_le_iff)
      then have "2 powi e \<le> ?z'"
        unfolding eu pint' using u by (simp add: mult_right_mono)
      then show ?thesis using up z'pos emin by (intro float_exponent_eq) simp_all
    next
      case False
      then have ee: "e = emin" using emin by simp
      show ?thesis
      proof (cases "?z' < 2 powi emin")
        case True
        then show ?thesis using z'0 z'pos ee float_exponent_subnormal [of ?z' emin] by simp
      next
        case False
        then show ?thesis using up z'pos ee by (intro float_exponent_eq) simp_all
      qed
    qed
    have "?z' / u = of_int m" using u by simp
    then have "float_round p emin ?z' = of_int m * u"
      using float_round_eval [OF z'0 fe, of p] by (simp add: u_def)
    then show ?thesis by (simp add: r)
  next
    case 3
    let ?z' = "of_int m * u :: real"
    have z': "?z' = 2 powi (e + 1)" unfolding pu pint 3 by simp
    have z'0: "?z' \<noteq> 0" unfolding z' by simp
    have "(2::real) powi (e + 1) < 2 powi (e + 1 + 1)"
      by (rule power_int_strict_increasing) simp_all
    then have fe: "float_exponent emin ?z' = e + 1"
      unfolding z' using emin by (intro float_exponent_eq) simp_all
    have "e + 1 - (p - 1) = e - (p - 1) + 1" by simp
    then have u2: "(2::real) powi (e + 1 - (p - 1)) = 2 * u"
      unfolding u_def using power_int_add_1' [of "2::real" "e - (p - 1)"] by simp
    have "?z' / (2 * u) = of_int (2 ^ nat (p - 1))"
      using u unfolding 3 two by simp
    then have "float_round p emin ?z' = of_int (2 ^ nat (p - 1)) * (2 * u)"
      using float_round_eval [OF z'0 fe, of p] unfolding u2 by (simp only: round_half_even_of_int)
    also have "\<dots> = ?z'" unfolding 3 two by simp
    finally show ?thesis by (simp add: r)
  qed
qed

lemma float_round_idem:
  assumes "1 \<le> p"
  shows "float_round p emin (float_round p emin z) = float_round p emin z"
proof -
  consider "0 < z" | "z = 0" | "z < 0" by linarith
  then show ?thesis
  proof cases
    case 1 then show ?thesis using assms by (rule float_round_idem_pos [rotated])
  next
    case 2 then show ?thesis by simp
  next
    case 3
    then have "float_round p emin (float_round p emin (- z)) = float_round p emin (- z)"
      using assms by (intro float_round_idem_pos) simp_all
    then show ?thesis by (simp add: float_round_minus)
  qed
qed

lemma float_round_half:
  assumes "2 powi (emin + 1) \<le> \<bar>x\<bar>"
  shows "float_round p emin (x / 2) = float_round p emin x / 2"
proof -
  have "(0::real) < 2 powi (emin + 1)" by (simp add: zero_less_power_int)
  then have "0 < \<bar>x\<bar>" using assms by linarith
  then have x0: "x \<noteq> 0" by simp
  define k where "k = \<lfloor>log 2 \<bar>x\<bar>\<rfloor>"
  have b: "2 powi k \<le> \<bar>x\<bar>" "\<bar>x\<bar> < 2 powi (k + 1)"
    using floor_log2_bounds [OF x0] by (simp_all add: k_def)
  have lt: "(2::real) powi (emin + 1) < 2 powi (k + 1)" using assms b(2) by linarith
  have "emin + 1 < k + 1"
  proof (rule ccontr)
    assume "\<not> emin + 1 < k + 1"
    then have "(2::real) powi (k + 1) \<le> 2 powi (emin + 1)"
      by (intro power_int_increasing) simp_all
    then show False using lt by simp
  qed
  then have k: "emin \<le> k - 1" by simp
  have fx: "float_exponent emin x = k" using k b by (intro float_exponent_eq) simp_all
  have t: "(2::real) powi k = 2 * 2 powi (k - 1)"
    using power_int_add_1' [of "2::real" "k - 1"] by simp
  have "2 powi (k - 1) \<le> \<bar>x / 2\<bar>" "\<bar>x / 2\<bar> < 2 powi (k - 1 + 1)"
    using b unfolding t by (simp_all add: power_int_add_1')
  then have fh: "float_exponent emin (x / 2) = k - 1" using k by (intro float_exponent_eq) simp_all
  have u: "(2::real) powi (k - (p - 1)) = 2 * 2 powi (k - 1 - (p - 1))"
    using power_int_add_1' [of "2::real" "k - 1 - (p - 1)"] by (simp add: algebra_simps)
  have x2: "x / 2 \<noteq> 0" using x0 by simp
  show ?thesis
    unfolding float_round_eval [OF x0 fx] float_round_eval [OF x2 fh] u by simp
qed

subsection \<open>The rounding error of float32\<close>

lemma float32_round_idem: "float32_round (float32_round z) = float32_round z"
  unfolding float32_round_def by (rule float_round_idem) simp

lemma float32_round_minus: "float32_round (- x) = - float32_round x"
  unfolding float32_round_def by (rule float_round_minus)

lemma float32_round_error: "\<bar>float32_round z - z\<bar> \<le> \<bar>z\<bar> / 2 ^ 24 + 1 / 2 ^ 150"
proof (cases "z = 0")
  case True then show ?thesis by simp
next
  case False
  let ?e = "float_exponent (- 126) z"
  have e: "\<bar>float32_round z - z\<bar> \<le> 2 powi (?e - 24)"
    unfolding float32_round_def using False by (rule float_round_error)
  show ?thesis
  proof (cases "- 126 < ?e")
    case True
    have "(2::real) powi (?e - 24) = 2 powi ?e / 2 ^ 24"
      by (simp add: power_int_diff)
    also have "\<dots> \<le> \<bar>z\<bar> / 2 ^ 24"
      using float_exponent_lower [OF False True] by (simp add: divide_right_mono)
    finally have "(2::real) powi (?e - 24) \<le> \<bar>z\<bar> / 2 ^ 24" .
    moreover have "(0::real) \<le> 1 / 2 ^ 150" by simp
    ultimately show ?thesis using e by linarith
  next
    case False
    then have "?e = - 126" using float_exponent_ge [of "- 126" z] by simp
    then have "(2::real) powi (?e - 24) = 1 / 2 ^ 150" by (simp add: power_int_minus field_simps)
    moreover have "0 \<le> \<bar>z\<bar> / 2 ^ 24" by simp
    ultimately show ?thesis using e by linarith
  qed
qed

lemma float32_round_half_error:
  assumes "float32_round w = w"
  shows "\<bar>float32_round (w / 2) - w / 2\<bar> \<le> 1 / 2 ^ 150"
proof (cases "2 powi (- 125) \<le> \<bar>w\<bar>")
  case True
  then have "float_round 24 (- 126) (w / 2) = float_round 24 (- 126) w / 2"
    by (intro float_round_half) simp
  then show ?thesis using assms by (simp add: float32_round_def)
next
  case False
  show ?thesis
  proof (cases "w = 0")
    case True then show ?thesis by simp
  next
    case w: False
    have "(2::real) powi (- 125) = 2 * 2 powi (- 126)"
      using power_int_add_1' [of "2::real" "- 126"] by simp
    then have "\<bar>w / 2\<bar> < 2 powi (- 126)" using False by simp
    then have "float_exponent (- 126) (w / 2) = - 126"
      using w by (intro float_exponent_subnormal) simp_all
    then have "\<bar>float32_round (w / 2) - w / 2\<bar> \<le> 2 powi (- 126 - 24)"
      unfolding float32_round_def using float_round_error [of "w / 2" 24 "- 126"] w by simp
    then show ?thesis by (simp add: power_int_minus field_simps)
  qed
qed

subsection \<open>Bounds of the exponential\<close>

text \<open>The partial sums of the exponential series, with the remainder of Maclaurin.\<close>

lemma exp_taylor_lower:
  assumes "0 \<le> (y::real)" shows "(\<Sum>m<n. y ^ m / fact m) \<le> exp y"
proof -
  obtain t where "exp y = (\<Sum>m<n. y ^ m / fact m) + exp t / fact n * y ^ n"
    using Maclaurin_exp_le [of y n] by blast
  moreover have "0 \<le> exp t / fact n * y ^ n" using assms by simp
  ultimately show ?thesis by linarith
qed

lemma exp_taylor_upper:
  assumes "0 \<le> (y::real)" and "y \<le> 1"
  shows "exp y \<le> (\<Sum>m<n. y ^ m / fact m) + 3 * y ^ n / fact n"
proof -
  obtain t where t: "\<bar>t\<bar> \<le> \<bar>y\<bar>"
    and e: "exp y = (\<Sum>m<n. y ^ m / fact m) + exp t / fact n * y ^ n"
    using Maclaurin_exp_le [of y n] by blast
  have "t \<le> 1" using t assms by linarith
  then have "exp t \<le> exp 1" by simp
  also have "\<dots> \<le> 3" by (rule exp_le)
  finally have "exp t \<le> 3" .
  then have "exp t / fact n * y ^ n \<le> 3 / fact n * y ^ n"
    using assms(1) by (intro mult_right_mono divide_right_mono) simp_all
  then show ?thesis using e by simp
qed

lemma sum_lessThan_14:
  "(\<Sum>m<14. f m) = f (0::nat) + f 1 + f 2 + f 3 + f 4 + f 5 + f 6 + f 7 + f 8 + f 9 + f 10 + f 11
     + f 12 + (f 13 :: real)"
  by (simp add: eval_nat_numeral)

lemma exp_eighth: "exp (x::real) = exp (x / 8) ^ 8"
  using exp_of_nat_mult [of 8 "x / 8"] by simp

lemma exp_scale_clamp_lower: "16384001 / 262144 \<le> exp (8672073 / 2097152 :: real)"
proof -
  let ?y = "8672073 / 2 ^ 24 :: real"
  have "16768144465102 / 10 ^ 13 \<le> (\<Sum>m<14. ?y ^ m / fact m)"
    unfolding sum_lessThan_14 by (simp add: fact_numeral power_divide)
  also have "\<dots> \<le> exp ?y" by (rule exp_taylor_lower) simp
  finally have "(16768144465102 / 10 ^ 13) ^ 8 \<le> exp ?y ^ 8"
    by (intro power_mono) simp_all
  moreover have "(16384001 / 262144 :: real) \<le> (16768144465102 / 10 ^ 13) ^ 8"
    by (simp add: power_divide)
  moreover have "exp (8672073 / 2097152 :: real) = exp ?y ^ 8"
    using exp_eighth [of "8672073 / 2097152"] by simp
  ultimately show ?thesis by linarith
qed

lemma exp_scale_clamp_upper: "exp (8672073 / 2097152 :: real) \<le> 524288047 / 8388608"
proof -
  let ?y = "8672073 / 2 ^ 24 :: real"
  have "exp ?y \<le> (\<Sum>m<14. ?y ^ m / fact m) + 3 * ?y ^ 14 / fact 14"
    by (rule exp_taylor_upper) simp_all
  also have "\<dots> \<le> 16768144465103 / 10 ^ 13"
    unfolding sum_lessThan_14 by (simp add: fact_numeral power_divide)
  finally have "exp ?y ^ 8 \<le> (16768144465103 / 10 ^ 13) ^ 8"
    by (intro power_mono) simp_all
  moreover have "(16768144465103 / 10 ^ 13) ^ 8 \<le> (524288047 / 8388608 :: real)"
    by (simp add: power_divide)
  moreover have "exp (8672073 / 2097152 :: real) = exp ?y ^ 8"
    using exp_eighth [of "8672073 / 2097152"] by simp
  ultimately show ?thesis by linarith
qed

lemma exp_below_scale_clamp: "exp (34688291 / 8388608 :: real) \<le> 125 / 2"
proof -
  let ?y = "34688291 / 2 ^ 26 :: real"
  have "exp ?y \<le> (\<Sum>m<14. ?y ^ m / fact m) + 3 * ?y ^ 14 / fact 14"
    by (rule exp_taylor_upper) simp_all
  also have "\<dots> \<le> 16768144215239 / 10 ^ 13"
    unfolding sum_lessThan_14 by (simp add: fact_numeral power_divide)
  finally have "exp ?y ^ 8 \<le> (16768144215239 / 10 ^ 13) ^ 8"
    by (intro power_mono) simp_all
  moreover have "(16768144215239 / 10 ^ 13) ^ 8 \<le> (125 / 2 :: real)"
    by (simp add: power_divide)
  moreover have "exp (34688291 / 8388608 :: real) = exp ?y ^ 8"
    using exp_eighth [of "34688291 / 8388608"] by simp
  ultimately show ?thesis by linarith
qed

lemma ln_scale_bounds:
  "34688291 / 8388608 \<le> ln (1000 / 16 :: real)" "ln (1000 / 16 :: real) \<le> 8672073 / 2097152"
proof -
  have "exp (34688291 / 8388608 :: real) \<le> 1000 / 16"
    using exp_below_scale_clamp by simp
  then show "34688291 / 8388608 \<le> ln (1000 / 16 :: real)"
    by (subst ln_ge_iff) simp_all
  have "(1000 / 16 :: real) \<le> exp (8672073 / 2097152)"
    using exp_scale_clamp_lower by simp
  then have "ln (1000 / 16 :: real) \<le> ln (exp (8672073 / 2097152))"
    by (subst ln_le_cancel_iff) simp_all
  then show "ln (1000 / 16 :: real) \<le> 8672073 / 2097152" by simp
qed

section \<open>Box decoding of the heads\<close>

subsection \<open>The clamp of RetinaNetHead in float32\<close>

lemma float64_round_scale: "float64_round (1000 / 16) = 125 / 2"
  by (rule float64_round_eqI [of 5 _ 8796093022208000]) (simp_all add: round_half_even_def)

lemma DEFAULT_SCALE_CLAMP_bounds:
  "34688291 / 8388608 \<le> DEFAULT_SCALE_CLAMP" "DEFAULT_SCALE_CLAMP \<le> 8672073 / 2097152"
proof -
  have a: "float64_round (34688291 / 8388608) = 34688291 / 8388608"
    by (rule float64_round_eqI [of 2 _ 4655783606222848]) (simp_all add: round_half_even_def)
  have b: "float64_round (8672073 / 2097152) = 8672073 / 2097152"
    by (rule float64_round_eqI [of 2 _ 4655783740440576]) (simp_all add: round_half_even_def)
  have d: "DEFAULT_SCALE_CLAMP = float64_round (ln (1000 / 16))"
    by (simp only: DEFAULT_SCALE_CLAMP_def math_log_def float64_round_scale) simp
  show "34688291 / 8388608 \<le> DEFAULT_SCALE_CLAMP"
    unfolding d using float64_round_mono [OF ln_scale_bounds(1)] by (simp only: a)
  show "DEFAULT_SCALE_CLAMP \<le> 8672073 / 2097152"
    unfolding d using float64_round_mono [OF ln_scale_bounds(2)] by (simp only: b)
qed

lemma float32_round_DEFAULT_SCALE_CLAMP: "float32_round DEFAULT_SCALE_CLAMP = 8672073 / 2097152"
proof -
  have a: "float32_round (34688291 / 8388608) = 8672073 / 2097152"
    by (rule float32_round_eqI [of 2 _ 8672073]) (simp_all add: round_half_even_def)
  have b: "float32_round (8672073 / 2097152) = 8672073 / 2097152"
    by (rule float32_round_eqI [of 2 _ 8672073]) (simp_all add: round_half_even_def)
  have "8672073 / 2097152 \<le> float32_round DEFAULT_SCALE_CLAMP"
    using float32_round_mono [OF DEFAULT_SCALE_CLAMP_bounds(1)] by (simp only: a)
  moreover have "float32_round DEFAULT_SCALE_CLAMP \<le> 8672073 / 2097152"
    using float32_round_mono [OF DEFAULT_SCALE_CLAMP_bounds(2)] by (simp only: b)
  ultimately show ?thesis by simp
qed

lemma float32_round_exp_scale_clamp:
  "float32_round (exp (8672073 / 2097152)) = 16384001 / 262144"
proof -
  have a: "float32_round (16384001 / 262144) = 16384001 / 262144"
    by (rule float32_round_eqI [of 5 _ 16384001]) (simp_all add: round_half_even_def)
  have b: "float32_round (524288047 / 8388608) = 16384001 / 262144"
    by (rule float32_round_eqI [of 5 _ 16384001]) (simp_all add: round_half_even_def)
  have "16384001 / 262144 \<le> float32_round (exp (8672073 / 2097152))"
    using float32_round_mono [OF exp_scale_clamp_lower] by (simp only: a)
  moreover have "float32_round (exp (8672073 / 2097152)) \<le> 16384001 / 262144"
    using float32_round_mono [OF exp_scale_clamp_upper] by (simp only: b)
  ultimately show ?thesis by simp
qed

lemma torch_clamp_max_DEFAULT_SCALE_CLAMP:
  "torch_clamp_max d DEFAULT_SCALE_CLAMP = min d (8672073 / 2097152)"
  by (simp only: torch_clamp_max_def float32_round_DEFAULT_SCALE_CLAMP)

lemma ln_scale_less_clamp: "ln (1000 / 16 :: real) < 8672073 / 2097152"
proof -
  have "(1000 / 16 :: real) < 16384001 / 262144" by simp
  also have "\<dots> \<le> exp (8672073 / 2097152)" by (rule exp_scale_clamp_lower)
  finally have "ln (1000 / 16 :: real) < ln (exp (8672073 / 2097152))"
    by (subst ln_less_cancel_iff) simp_all
  then show ?thesis by simp
qed

subsection \<open>FCOSHead.decode\_boxes\<close>

lemma float32_op_Some [simp]: "float32_op f (Some x) (Some y) = float32 (f x y)"
  by (simp add: float32_op_def)

lemma float32_op_SomeD:
  assumes "float32_op f a b = Some v"
  shows "\<exists>x y. a = Some x \<and> b = Some y \<and> float32 (f x y) = Some v"
  using assms by (simp add: float32_op_def split: option.splits)

lemma float32_eqI:
  assumes "float32_round x = v" and "\<bar>v\<bar> < 2 ^ 128"
  shows "float32 x = Some v"
  using assms by (simp add: float32_def Let_def)

lemma FCOSHead_decode_boxes_length:
  "length (FCOSHead_decode_boxes ds ps) = min (length ds) (length ps)"
  by (simp add: FCOSHead_decode_boxes_def Let_def)

lemma FCOSHead_decode_boxes_nth:
  assumes "i < length ds" "i < length ps"
  shows "FCOSHead_decode_boxes ds ps ! i =
    (case (ds ! i, ps ! i) of ((l, t, r, b), (px, py)) \<Rightarrow>
       (float32 (px - l), float32 (py - t), float32 (px + r), float32 (py + b)))"
  using assms
  by (simp add: FCOSHead_decode_boxes_def Let_def torch_sub_def torch_add_def split: prod.splits)

lemma round_trip_arith:
  fixes E1 :: real
  assumes "E1 \<le> D / 2 ^ 24 + eta" and "E2 \<le> Q / 2 ^ 24 + eta" and "D \<le> P + X"
    and "Q \<le> X + E1" and "V \<le> E2 + E1" and "0 \<le> eta" and "0 \<le> P" and "0 \<le> X"
  shows "V \<le> 3 * (P + X) / 2 ^ 24 + 4 * eta"
proof -
  have a: "E1 \<le> (P + X) / 2 ^ 24 + eta"
    using assms(1,3) by (simp add: field_simps)
  have b: "E1 / 2 ^ 24 \<le> (P + X) / 2 ^ 24 + eta"
  proof -
    have "E1 / 2 ^ 24 \<le> ((P + X) / 2 ^ 24 + eta) / 2 ^ 24"
      using a by (simp add: divide_right_mono)
    also have "\<dots> \<le> (P + X) / 2 ^ 24 + eta"
      using assms(6,7,8) by (simp add: field_simps)
    finally show ?thesis .
  qed
  have c: "E2 \<le> X / 2 ^ 24 + E1 / 2 ^ 24 + eta"
    using assms(2,4) by (simp add: field_simps)
  have d: "X / 2 ^ 24 \<le> (P + X) / 2 ^ 24" using assms(7) by (simp add: field_simps)
  have "V \<le> 3 * ((P + X) / 2 ^ 24) + 4 * eta"
    using assms(5,6) a b c d by linarith
  then show ?thesis by simp
qed

text \<open>Two roundings in a row: a rounded difference taken back from the minuend.\<close>

lemma round_trip_sub:
  assumes "float32 (p - x) = Some l" and "float32 (p - l) = Some v"
  shows "\<bar>v - x\<bar> \<le> 3 * (\<bar>p\<bar> + \<bar>x\<bar>) / 2 ^ 24 + 1 / 2 ^ 148"
proof -
  have l: "l = float32_round (p - x)" and v: "v = float32_round (p - l)"
    using assms by (simp_all add: float32_SomeD)
  define eta :: real where "eta = 1 / 2 ^ 150"
  have eta: "0 \<le> eta" "1 / 2 ^ 148 = 4 * eta" by (simp_all add: eta_def)
  have e1: "\<bar>l - (p - x)\<bar> \<le> \<bar>p - x\<bar> / 2 ^ 24 + eta"
    unfolding l eta_def by (rule float32_round_error)
  have e2: "\<bar>v - (p - l)\<bar> \<le> \<bar>p - l\<bar> / 2 ^ 24 + eta"
    unfolding v eta_def by (rule float32_round_error)
  have t1: "\<bar>p - x\<bar> \<le> \<bar>p\<bar> + \<bar>x\<bar>" by simp
  have t2: "\<bar>p - l\<bar> \<le> \<bar>x\<bar> + \<bar>l - (p - x)\<bar>" by simp
  have t3: "\<bar>v - x\<bar> \<le> \<bar>v - (p - l)\<bar> + \<bar>l - (p - x)\<bar>" by simp
  show ?thesis unfolding eta(2)
    by (rule round_trip_arith [OF e1 e2 t1 t2 t3 eta(1)]) simp_all
qed

lemma round_trip_add:
  assumes "float32 (x - p) = Some r" and "float32 (p + r) = Some v"
  shows "\<bar>v - x\<bar> \<le> 3 * (\<bar>p\<bar> + \<bar>x\<bar>) / 2 ^ 24 + 1 / 2 ^ 148"
proof -
  have r: "r = float32_round (x - p)" and v: "v = float32_round (p + r)"
    using assms by (simp_all add: float32_SomeD)
  define eta :: real where "eta = 1 / 2 ^ 150"
  have eta: "0 \<le> eta" "1 / 2 ^ 148 = 4 * eta" by (simp_all add: eta_def)
  have e1: "\<bar>r - (x - p)\<bar> \<le> \<bar>x - p\<bar> / 2 ^ 24 + eta"
    unfolding r eta_def by (rule float32_round_error)
  have e2: "\<bar>v - (p + r)\<bar> \<le> \<bar>p + r\<bar> / 2 ^ 24 + eta"
    unfolding v eta_def by (rule float32_round_error)
  have t1: "\<bar>x - p\<bar> \<le> \<bar>p\<bar> + \<bar>x\<bar>" by simp
  have t2: "\<bar>p + r\<bar> \<le> \<bar>x\<bar> + \<bar>r - (x - p)\<bar>" by simp
  have t3: "\<bar>v - x\<bar> \<le> \<bar>v - (p + r)\<bar> + \<bar>r - (x - p)\<bar>" by simp
  show ?thesis unfolding eta(2)
    by (rule round_trip_arith [OF e1 e2 t1 t2 t3 eta(1)]) simp_all
qed

text \<open>
  Claim C6, amended. For a delta \<open>(l, t, r, b)\<close> at an anchor \<open>(px, py)\<close> the decoded box is
  \<open>(px - l, py - t, px + r, py + b)\<close>, each difference and sum rounded to float32. Decoding
  the float32 deltas \<open>(px - x1, py - y1, x2 - px, y2 - py)\<close> of a box gives the box back up
  to the two roundings: a decoded coordinate that is finite differs from the coordinate
  \<open>c\<close> of the box by at most \<open>3 * (\<bar>p\<bar> + \<bar>c\<bar>) / 2 ^ 24 + 1 / 2 ^ 148\<close>, \<open>p\<close> being the
  coordinate of the anchor. The box comes back exactly where its deltas are exact: where
  the delta is the real difference and the coordinate of the box a float32 number.
\<close>

theorem FCOSHead_decode_boxes_inverse:
  assumes "length pred_deltas = length anchors" and "i < length anchors"
    and "anchors ! i = (px, py)" and "pred_deltas ! i = (l, t, r, b)"
  shows "length (FCOSHead_decode_boxes pred_deltas anchors) = length anchors
    \<and> FCOSHead_decode_boxes pred_deltas anchors ! i =
        (float32 (px - l), float32 (py - t), float32 (px + r), float32 (py + b))
    \<and> (\<forall>x1 v. float32 (px - x1) = Some l \<and> float32 (px - l) = Some v \<longrightarrow>
          \<bar>v - x1\<bar> \<le> 3 * (\<bar>px\<bar> + \<bar>x1\<bar>) / 2 ^ 24 + 1 / 2 ^ 148)
    \<and> (\<forall>y1 v. float32 (py - y1) = Some t \<and> float32 (py - t) = Some v \<longrightarrow>
          \<bar>v - y1\<bar> \<le> 3 * (\<bar>py\<bar> + \<bar>y1\<bar>) / 2 ^ 24 + 1 / 2 ^ 148)
    \<and> (\<forall>x2 v. float32 (x2 - px) = Some r \<and> float32 (px + r) = Some v \<longrightarrow>
          \<bar>v - x2\<bar> \<le> 3 * (\<bar>px\<bar> + \<bar>x2\<bar>) / 2 ^ 24 + 1 / 2 ^ 148)
    \<and> (\<forall>y2 v. float32 (y2 - py) = Some b \<and> float32 (py + b) = Some v \<longrightarrow>
          \<bar>v - y2\<bar> \<le> 3 * (\<bar>py\<bar> + \<bar>y2\<bar>) / 2 ^ 24 + 1 / 2 ^ 148)
    \<and> (\<forall>x1. float32 x1 = Some x1 \<and> l = px - x1 \<longrightarrow> float32 (px - l) = Some x1)
    \<and> (\<forall>y1. float32 y1 = Some y1 \<and> t = py - y1 \<longrightarrow> float32 (py - t) = Some y1)
    \<and> (\<forall>x2. float32 x2 = Some x2 \<and> r = x2 - px \<longrightarrow> float32 (px + r) = Some x2)
    \<and> (\<forall>y2. float32 y2 = Some y2 \<and> b = y2 - py \<longrightarrow> float32 (py + b) = Some y2)"
proof (intro conjI allI impI)
  show "length (FCOSHead_decode_boxes pred_deltas anchors) = length anchors"
    using assms(1) by (simp add: FCOSHead_decode_boxes_length)
  show "FCOSHead_decode_boxes pred_deltas anchors ! i =
      (float32 (px - l), float32 (py - t), float32 (px + r), float32 (py + b))"
    using assms by (simp add: FCOSHead_decode_boxes_nth)
next
  fix x1 v assume "float32 (px - x1) = Some l \<and> float32 (px - l) = Some v"
  then show "\<bar>v - x1\<bar> \<le> 3 * (\<bar>px\<bar> + \<bar>x1\<bar>) / 2 ^ 24 + 1 / 2 ^ 148"
    using round_trip_sub [of px x1 l v] by blast
next
  fix y1 v assume "float32 (py - y1) = Some t \<and> float32 (py - t) = Some v"
  then show "\<bar>v - y1\<bar> \<le> 3 * (\<bar>py\<bar> + \<bar>y1\<bar>) / 2 ^ 24 + 1 / 2 ^ 148"
    using round_trip_sub [of py y1 t v] by blast
next
  fix x2 v assume "float32 (x2 - px) = Some r \<and> float32 (px + r) = Some v"
  then show "\<bar>v - x2\<bar> \<le> 3 * (\<bar>px\<bar> + \<bar>x2\<bar>) / 2 ^ 24 + 1 / 2 ^ 148"
    using round_trip_add [of x2 px r v] by blast
next
  fix y2 v assume "float32 (y2 - py) = Some b \<and> float32 (py + b) = Some v"
  then show "\<bar>v - y2\<bar> \<le> 3 * (\<bar>py\<bar> + \<bar>y2\<bar>) / 2 ^ 24 + 1 / 2 ^ 148"
    using round_trip_add [of y2 py b v] by blast
next
  fix x1 assume "float32 x1 = Some x1 \<and> l = px - x1"
  then show "float32 (px - l) = Some x1" by simp
next
  fix y1 assume "float32 y1 = Some y1 \<and> t = py - y1"
  then show "float32 (py - t) = Some y1" by simp
next
  fix x2 assume "float32 x2 = Some x2 \<and> r = x2 - px"
  then show "float32 (px + r) = Some x2" by simp
next
  fix y2 assume "float32 y2 = Some y2 \<and> b = y2 - py"
  then show "float32 (py + b) = Some y2" by simp
qed

lemma float32_delta_x1: "float32 (13475459891 / 134217728) = Some (13159629 / 131072)"
  by (rule float32_eqI, rule float32_round_eqI [of 6 _ 13159629])
     (simp_all add: round_half_even_def)

lemma float32_decoded_x1: "float32 (13107 / 131072) = Some (13107 / 131072)"
  by (rule float32_eqI, rule float32_round_eqI [of "- 4" _ 13421568])
     (simp_all add: round_half_even_def)

lemma float32_delta_x2: "float32 100 = Some 100"
  by (rule float32_eqI, rule float32_round_eqI [of 6 _ 13107200])
     (simp_all add: round_half_even_def)

lemma float32_decoded_x2: "float32 (401 / 2) = Some (401 / 2)"
  by (rule float32_eqI, rule float32_round_eqI [of 7 _ 13139968])
     (simp_all add: round_half_even_def)

lemma float32_tenth: "float32 (13421773 / 134217728) = Some (13421773 / 134217728)"
  by (rule float32_eqI, rule float32_round_eqI [of "- 4" _ 13421773])
     (simp_all add: round_half_even_def)

lemma FCOSHead_example:
  "FCOSHead_decode_boxes [(13159629 / 131072, 13159629 / 131072, 100, 100)] [(201 / 2, 201 / 2)]
   = [(Some (13107 / 131072), Some (13107 / 131072), Some (401 / 2), Some (401 / 2))]"
  by (simp add: FCOSHead_decode_boxes_def torch_sub_def torch_add_def
      float32_decoded_x1 float32_decoded_x2)

text \<open>
  The theorem at the anchor \<open>(100.5, 100.5)\<close> and the box whose corners are the float32
  number next to \<open>0.1\<close>, \<open>13421773 / 2 ^ 27\<close>, and \<open>200.5\<close>: the delta of the first corner
  is rounded, and the decoded corner \<open>13107 / 2 ^ 17\<close> is within the bound.
\<close>

theorem FCOSHead_decode_boxes_inverse_witness:
  "length [(13159629 / 131072, 13159629 / 131072, 100, 100 :: real)]
     = length [(201 / 2, 201 / 2 :: real)]
   \<and> (0::nat) < length [(201 / 2, 201 / 2 :: real)]
   \<and> FCOSHead_decode_boxes [(13159629 / 131072, 13159629 / 131072, 100, 100)]
        [(201 / 2, 201 / 2)] ! 0
      = (Some (13107 / 131072), Some (13107 / 131072), Some (401 / 2), Some (401 / 2))
   \<and> float32 (201 / 2 - 13421773 / 134217728) = Some (13159629 / 131072)
   \<and> float32 (201 / 2 - 13159629 / 131072) = Some (13107 / 131072)
   \<and> \<bar>13107 / 131072 - 13421773 / 134217728 :: real\<bar>
       \<le> 3 * (\<bar>201 / 2\<bar> + \<bar>13421773 / 134217728\<bar>) / 2 ^ 24 + 1 / 2 ^ 148
   \<and> float32 (401 / 2) = Some (401 / 2) \<and> (100 :: real) = 401 / 2 - 201 / 2
   \<and> float32 (201 / 2 + 100) = Some (401 / 2)"
  using FCOSHead_decode_boxes_inverse
      [of "[(13159629 / 131072, 13159629 / 131072, 100, 100)]" "[(201 / 2, 201 / 2)]" 0
          "201 / 2" "201 / 2" "13159629 / 131072" "13159629 / 131072" 100 100]
    float32_delta_x1 float32_decoded_x1 float32_decoded_x2
  by simp

text \<open>
  Claim C6 as stated, that decoding the deltas of a box returns exactly the box, fails on
  that input: the box \<open>(x, x, 200.5, 200.5)\<close> with \<open>x = 13421773 / 2 ^ 27\<close> and the anchor
  \<open>(100.5, 100.5)\<close> are float32 tensors, the float32 deltas are
  \<open>(13159629 / 2 ^ 17, 13159629 / 2 ^ 17, 100, 100)\<close>, and the decoded first corner is
  \<open>13107 / 2 ^ 17\<close>, which is not \<open>x\<close>.
\<close>

theorem FCOSHead_decode_boxes_inverse_counterexample:
  "float32 (13421773 / 134217728) = Some (13421773 / 134217728)
   \<and> float32 (401 / 2) = Some (401 / 2)
   \<and> torch_sub (Some (201 / 2)) (Some (13421773 / 134217728)) = Some (13159629 / 131072)
   \<and> torch_sub (Some (401 / 2)) (Some (201 / 2)) = Some 100
   \<and> FCOSHead_decode_boxes [(13159629 / 131072, 13159629 / 131072, 100, 100)]
        [(201 / 2, 201 / 2)]
      = [(Some (13107 / 131072), Some (13107 / 131072), Some (401 / 2), Some (401 / 2))]
   \<and> (13107 / 131072 :: real) \<noteq> 13421773 / 134217728"
  using float32_tenth float32_delta_x1 float32_delta_x2 float32_decoded_x2 FCOSHead_example
  by (simp add: torch_sub_def)

subsection \<open>RetinaNetHead.decode\_boxes\<close>

lemma RetinaNetHead_decode_boxes_length:
  "length (RetinaNetHead_decode_boxes as rs) = min (length as) (length rs)"
  by (simp add: RetinaNetHead_decode_boxes_def Let_def)

lemma RetinaNetHead_decode_boxes_nth:
  assumes "i < length as" "i < length rs"
  shows "RetinaNetHead_decode_boxes as rs ! i =
    (case (as ! i, rs ! i) of ((ax, ay, aw, ah), (dx, dy, dw, dh)) \<Rightarrow>
       (torch_sub (torch_add (Some ax) (torch_mul (Some dx) (Some aw)))
          (torch_mul (Some 0.5)
             (torch_mul (Some aw) (torch_exp (torch_clamp_max dw DEFAULT_SCALE_CLAMP)))),
        torch_sub (torch_add (Some ay) (torch_mul (Some dy) (Some ah)))
          (torch_mul (Some 0.5)
             (torch_mul (Some ah) (torch_exp (torch_clamp_max dh DEFAULT_SCALE_CLAMP)))),
        torch_add (torch_add (Some ax) (torch_mul (Some dx) (Some aw)))
          (torch_mul (Some 0.5)
             (torch_mul (Some aw) (torch_exp (torch_clamp_max dw DEFAULT_SCALE_CLAMP)))),
        torch_add (torch_add (Some ay) (torch_mul (Some dy) (Some ah)))
          (torch_mul (Some 0.5)
             (torch_mul (Some ah) (torch_exp (torch_clamp_max dh DEFAULT_SCALE_CLAMP))))))"
  using assms by (simp add: RetinaNetHead_decode_boxes_def Let_def split: prod.splits)

lemma float32_op_Some_leftD:
  assumes "float32_op f (Some x) b = Some v"
  shows "\<exists>y. b = Some y \<and> float32 (f x y) = Some v"
  using assms by (simp add: float32_op_def split: option.splits)

lemma corner_arith:
  fixes w :: real
  assumes "x2 - (cx + hw) \<le> P / 2 ^ 24 + eta" and "(cx - hw) - x1 \<le> Q / 2 ^ 24 + eta"
    and "hw - w / 2 \<le> eta" and "P \<le> P' + eta" and "Q \<le> Q' + eta" and "0 \<le> eta"
  shows "x2 - x1 \<le> w + (Q' + P') / 2 ^ 24 + 8 * eta"
proof -
  have a: "P / 2 ^ 24 \<le> P' / 2 ^ 24 + eta"
  proof -
    have "P / 2 ^ 24 \<le> (P' + eta) / 2 ^ 24" using assms(4) by (simp add: divide_right_mono)
    also have "\<dots> \<le> P' / 2 ^ 24 + eta" using assms(6) by (simp add: field_simps)
    finally show ?thesis .
  qed
  have b: "Q / 2 ^ 24 \<le> Q' / 2 ^ 24 + eta"
  proof -
    have "Q / 2 ^ 24 \<le> (Q' + eta) / 2 ^ 24" using assms(5) by (simp add: divide_right_mono)
    also have "\<dots> \<le> Q' / 2 ^ 24 + eta" using assms(6) by (simp add: field_simps)
    finally show ?thesis .
  qed
  have "x2 - x1 \<le> w + (Q' / 2 ^ 24 + P' / 2 ^ 24) + 8 * eta"
    using assms(1,2,3,6) a b by linarith
  then show ?thesis by (simp add: add_divide_distrib)
qed

text \<open>One axis of the decoded box: the centre and the size, and the two corners from them.\<close>

lemma RetinaNetHead_decode_axis:
  assumes aw: "0 < aw"
    and x1: "torch_sub (torch_add (Some ax) (torch_mul (Some dx) (Some aw)))
          (torch_mul (Some 0.5)
             (torch_mul (Some aw) (torch_exp (torch_clamp_max dw DEFAULT_SCALE_CLAMP)))) = Some x1"
    and x2: "torch_add (torch_add (Some ax) (torch_mul (Some dx) (Some aw)))
          (torch_mul (Some 0.5)
             (torch_mul (Some aw) (torch_exp (torch_clamp_max dw DEFAULT_SCALE_CLAMP)))) = Some x2"
  shows "\<exists>cx w. torch_add (Some ax) (torch_mul (Some dx) (Some aw)) = Some cx
      \<and> torch_mul (Some aw) (torch_exp (torch_clamp_max dw DEFAULT_SCALE_CLAMP)) = Some w
      \<and> w = float32_round (aw * float32_round (exp (min dw (8672073 / 2097152))))
      \<and> 0 \<le> w \<and> w \<le> float32_round (aw * (16384001 / 262144))
      \<and> x1 = float32_round (cx - float32_round (w / 2))
      \<and> x2 = float32_round (cx + float32_round (w / 2))
      \<and> x1 \<le> x2
      \<and> x2 - x1 \<le> w + (\<bar>cx - w / 2\<bar> + \<bar>cx + w / 2\<bar>) / 2 ^ 24 + 1 / 2 ^ 147"
proof -
  let ?d = "torch_clamp_max dw DEFAULT_SCALE_CLAMP"
  obtain cx hw where cx: "torch_add (Some ax) (torch_mul (Some dx) (Some aw)) = Some cx"
    and hw: "torch_mul (Some 0.5) (torch_mul (Some aw) (torch_exp ?d)) = Some hw"
    and v1: "float32 (cx - hw) = Some x1"
    using float32_op_SomeD [OF x1 [unfolded torch_sub_def]] by blast
  have v2: "float32 (cx + hw) = Some x2"
    using x2 unfolding cx hw by (simp add: torch_add_def)
  obtain w where w: "torch_mul (Some aw) (torch_exp ?d) = Some w"
    and h: "float32 (0.5 * w) = Some hw"
    using float32_op_Some_leftD [OF hw [unfolded torch_mul_def]] unfolding torch_mul_def by blast
  obtain ew where ew: "torch_exp ?d = Some ew" and wv: "float32 (aw * ew) = Some w"
    using float32_op_Some_leftD [OF w [unfolded torch_mul_def]] by blast
  have d: "?d = min dw (8672073 / 2097152)" by (rule torch_clamp_max_DEFAULT_SCALE_CLAMP)
  have ew': "ew = float32_round (exp (min dw (8672073 / 2097152)))"
    using ew by (simp add: torch_exp_def d float32_SomeD)
  have w': "w = float32_round (aw * ew)" using wv by (rule float32_SomeD)
  have hw': "hw = float32_round (w / 2)" using h by (simp add: float32_SomeD)
  have x1': "x1 = float32_round (cx - hw)" using v1 by (rule float32_SomeD)
  have x2': "x2 = float32_round (cx + hw)" using v2 by (rule float32_SomeD)
  have "exp (min dw (8672073 / 2097152)) \<le> exp (8672073 / 2097152 :: real)" by simp
  then have ewu: "ew \<le> 16384001 / 262144"
    unfolding ew' using float32_round_mono float32_round_exp_scale_clamp by metis
  have ewl: "0 \<le> ew" unfolding ew' by (rule float32_round_nonneg) simp
  have wl: "0 \<le> w" unfolding w' using aw ewl by (intro float32_round_nonneg) simp
  have wu: "w \<le> float32_round (aw * (16384001 / 262144))"
    unfolding w' using aw ewu by (intro float32_round_mono) simp
  have hwl: "0 \<le> hw" unfolding hw' using wl by (intro float32_round_nonneg) simp
  have le: "x1 \<le> x2" unfolding x1' x2' using hwl by (intro float32_round_mono) simp
  have wfix: "float32_round w = w" unfolding w' by (rule float32_round_idem)
  define eta :: real where "eta = 1 / 2 ^ 150"
  have eta: "0 \<le> eta" "1 / 2 ^ 147 = 8 * eta" by (simp_all add: eta_def)
  have he: "\<bar>hw - w / 2\<bar> \<le> eta"
    unfolding hw' eta_def using wfix by (rule float32_round_half_error)
  have e2: "\<bar>x2 - (cx + hw)\<bar> \<le> \<bar>cx + hw\<bar> / 2 ^ 24 + eta"
    unfolding x2' eta_def by (rule float32_round_error)
  have e1: "\<bar>x1 - (cx - hw)\<bar> \<le> \<bar>cx - hw\<bar> / 2 ^ 24 + eta"
    unfolding x1' eta_def by (rule float32_round_error)
  have t2: "\<bar>cx + hw\<bar> \<le> \<bar>cx + w / 2\<bar> + eta" using he by linarith
  have t1: "\<bar>cx - hw\<bar> \<le> \<bar>cx - w / 2\<bar> + eta" using he by linarith
  have a2: "x2 - (cx + hw) \<le> \<bar>cx + hw\<bar> / 2 ^ 24 + eta" using e2 by linarith
  have a1: "(cx - hw) - x1 \<le> \<bar>cx - hw\<bar> / 2 ^ 24 + eta" using e1 by linarith
  have a3: "hw - w / 2 \<le> eta" using he by linarith
  have bound: "x2 - x1 \<le> w + (\<bar>cx - w / 2\<bar> + \<bar>cx + w / 2\<bar>) / 2 ^ 24 + 1 / 2 ^ 147"
    unfolding eta(2) by (rule corner_arith [OF a2 a1 a3 t2 t1 eta(1)])
  show ?thesis
    using cx w w' [unfolded ew'] wl wu x1' [unfolded hw'] x2' [unfolded hw'] le bound by blast
qed

text \<open>
  Claim C7, amended. For an anchor box of positive width \<open>aw\<close> and height \<open>ah\<close> and a
  regression input whose decoded box is finite, the decoded box has \<open>x1 \<le> x2\<close> and
  \<open>y1 \<le> y2\<close>. The clamp is the float32 number next to \<open>DEFAULT_SCALE_CLAMP\<close>,
  \<open>8672073 / 2 ^ 21\<close>, which is above \<open>log(1000 / 16)\<close>, and its float32 exponential is
  \<open>16384001 / 2 ^ 18\<close>, which is above \<open>1000 / 16\<close>. The decoded width \<open>w\<close> (\<open>pred_wh\<close>) is
  the float32 product of \<open>aw\<close> and the float32 exponential of the clamped \<open>dw\<close>; it is at
  most the float32 product of \<open>aw\<close> and \<open>16384001 / 2 ^ 18\<close>. The corners are the float32
  numbers next to the centre minus and plus half of \<open>w\<close>, so that \<open>x2 - x1\<close> exceeds \<open>w\<close> by
  at most the rounding of the corners,
  \<open>(\<bar>cx - w / 2\<bar> + \<bar>cx + w / 2\<bar>) / 2 ^ 24 + 1 / 2 ^ 147\<close>. The height likewise.
\<close>

theorem RetinaNetHead_decode_boxes_bounded:
  assumes "length anchor_boxes = length pred_reg" and "i < length anchor_boxes"
    and "anchor_boxes ! i = (ax, ay, aw, ah)" and "0 < aw" and "0 < ah"
    and "pred_reg ! i = (dx, dy, dw, dh)"
    and "RetinaNetHead_decode_boxes anchor_boxes pred_reg ! i = (Some x1, Some y1, Some x2, Some y2)"
  shows "x1 \<le> x2 \<and> y1 \<le> y2
    \<and> float32_round DEFAULT_SCALE_CLAMP = 8672073 / 2097152
    \<and> ln (1000 / 16) < (8672073 / 2097152 :: real)
    \<and> float32_round (exp (8672073 / 2097152)) = 16384001 / 262144
    \<and> (\<exists>cx cy w h.
          torch_add (Some ax) (torch_mul (Some dx) (Some aw)) = Some cx
        \<and> torch_add (Some ay) (torch_mul (Some dy) (Some ah)) = Some cy
        \<and> torch_mul (Some aw) (torch_exp (torch_clamp_max dw DEFAULT_SCALE_CLAMP)) = Some w
        \<and> torch_mul (Some ah) (torch_exp (torch_clamp_max dh DEFAULT_SCALE_CLAMP)) = Some h
        \<and> w = float32_round (aw * float32_round (exp (min dw (8672073 / 2097152))))
        \<and> h = float32_round (ah * float32_round (exp (min dh (8672073 / 2097152))))
        \<and> 0 \<le> w \<and> w \<le> float32_round (aw * (16384001 / 262144))
        \<and> 0 \<le> h \<and> h \<le> float32_round (ah * (16384001 / 262144))
        \<and> x1 = float32_round (cx - float32_round (w / 2))
        \<and> x2 = float32_round (cx + float32_round (w / 2))
        \<and> y1 = float32_round (cy - float32_round (h / 2))
        \<and> y2 = float32_round (cy + float32_round (h / 2))
        \<and> x2 - x1 \<le> w + (\<bar>cx - w / 2\<bar> + \<bar>cx + w / 2\<bar>) / 2 ^ 24 + 1 / 2 ^ 147
        \<and> y2 - y1 \<le> h + (\<bar>cy - h / 2\<bar> + \<bar>cy + h / 2\<bar>) / 2 ^ 24 + 1 / 2 ^ 147)"
proof -
  have n: "RetinaNetHead_decode_boxes anchor_boxes pred_reg ! i =
      (torch_sub (torch_add (Some ax) (torch_mul (Some dx) (Some aw)))
          (torch_mul (Some 0.5)
             (torch_mul (Some aw) (torch_exp (torch_clamp_max dw DEFAULT_SCALE_CLAMP)))),
        torch_sub (torch_add (Some ay) (torch_mul (Some dy) (Some ah)))
          (torch_mul (Some 0.5)
             (torch_mul (Some ah) (torch_exp (torch_clamp_max dh DEFAULT_SCALE_CLAMP)))),
        torch_add (torch_add (Some ax) (torch_mul (Some dx) (Some aw)))
          (torch_mul (Some 0.5)
             (torch_mul (Some aw) (torch_exp (torch_clamp_max dw DEFAULT_SCALE_CLAMP)))),
        torch_add (torch_add (Some ay) (torch_mul (Some dy) (Some ah)))
          (torch_mul (Some 0.5)
             (torch_mul (Some ah) (torch_exp (torch_clamp_max dh DEFAULT_SCALE_CLAMP)))))"
    using assms(1,2,3,6) by (simp add: RetinaNetHead_decode_boxes_nth)
  note e = assms(7) [unfolded n prod.inject]
  obtain cx w where x: "torch_add (Some ax) (torch_mul (Some dx) (Some aw)) = Some cx"
      "torch_mul (Some aw) (torch_exp (torch_clamp_max dw DEFAULT_SCALE_CLAMP)) = Some w"
      "w = float32_round (aw * float32_round (exp (min dw (8672073 / 2097152))))"
      "0 \<le> w" "w \<le> float32_round (aw * (16384001 / 262144))"
      "x1 = float32_round (cx - float32_round (w / 2))"
      "x2 = float32_round (cx + float32_round (w / 2))"
      "x1 \<le> x2"
      "x2 - x1 \<le> w + (\<bar>cx - w / 2\<bar> + \<bar>cx + w / 2\<bar>) / 2 ^ 24 + 1 / 2 ^ 147"
    using RetinaNetHead_decode_axis [OF assms(4), of ax dx dw x1 x2] e by blast
  obtain cy h where y: "torch_add (Some ay) (torch_mul (Some dy) (Some ah)) = Some cy"
      "torch_mul (Some ah) (torch_exp (torch_clamp_max dh DEFAULT_SCALE_CLAMP)) = Some h"
      "h = float32_round (ah * float32_round (exp (min dh (8672073 / 2097152))))"
      "0 \<le> h" "h \<le> float32_round (ah * (16384001 / 262144))"
      "y1 = float32_round (cy - float32_round (h / 2))"
      "y2 = float32_round (cy + float32_round (h / 2))"
      "y1 \<le> y2"
      "y2 - y1 \<le> h + (\<bar>cy - h / 2\<bar> + \<bar>cy + h / 2\<bar>) / 2 ^ 24 + 1 / 2 ^ 147"
    using RetinaNetHead_decode_axis [OF assms(5), of ay dy dh y1 y2] e by blast
  show ?thesis
    using x y float32_round_DEFAULT_SCALE_CLAMP ln_scale_less_clamp float32_round_exp_scale_clamp
    by blast
qed

lemma float32_exp_scale_clamp:
  "float32 (exp (8672073 / 2097152)) = Some (16384001 / 262144)"
  by (rule float32_eqI [OF float32_round_exp_scale_clamp]) simp

lemma float32_zero: "float32 0 = Some 0"
  by (simp add: float32_def)

lemma float32_small_ints:
  "float32 1 = Some 1" "float32 2 = Some 2" "float32 4 = Some 4" "float32 7 = Some 7"
  "float32 8 = Some 8" "float32 9 = Some 9" "float32 12 = Some 12"
proof -
  show "float32 1 = Some 1"
    by (rule float32_eqI, rule float32_round_eqI [of 0 _ 8388608]) (simp_all add: round_half_even_def)
  show "float32 2 = Some 2"
    by (rule float32_eqI, rule float32_round_eqI [of 1 _ 8388608]) (simp_all add: round_half_even_def)
  show "float32 4 = Some 4"
    by (rule float32_eqI, rule float32_round_eqI [of 2 _ 8388608]) (simp_all add: round_half_even_def)
  show "float32 7 = Some 7"
    by (rule float32_eqI, rule float32_round_eqI [of 2 _ 14680064]) (simp_all add: round_half_even_def)
  show "float32 8 = Some 8"
    by (rule float32_eqI, rule float32_round_eqI [of 3 _ 8388608]) (simp_all add: round_half_even_def)
  show "float32 9 = Some 9"
    by (rule float32_eqI, rule float32_round_eqI [of 3 _ 9437184]) (simp_all add: round_half_even_def)
  show "float32 12 = Some 12"
    by (rule float32_eqI, rule float32_round_eqI [of 3 _ 12582912]) (simp_all add: round_half_even_def)
qed

lemma float32_scale_values:
  "float32 (16384001 / 262144) = Some (16384001 / 262144)"
  "float32 (16384001 / 524288) = Some (16384001 / 524288)"
  "float32 (- (16384001 / 524288)) = Some (- (16384001 / 524288))"
  "float32 (16384001 / 65536) = Some (16384001 / 65536)"
  "float32 (16384001 / 131072) = Some (16384001 / 131072)"
  "float32 (- (14811137 / 131072)) = Some (- (14811137 / 131072))"
  "float32 (17956865 / 131072) = Some 137"
proof -
  show "float32 (16384001 / 262144) = Some (16384001 / 262144)"
    by (rule float32_eqI, rule float32_round_eqI [of 5 _ 16384001])
       (simp_all add: round_half_even_def)
  show "float32 (16384001 / 524288) = Some (16384001 / 524288)"
    by (rule float32_eqI, rule float32_round_eqI [of 4 _ 16384001])
       (simp_all add: round_half_even_def)
  show "float32 (- (16384001 / 524288)) = Some (- (16384001 / 524288))"
    by (rule float32_eqI, rule float32_round_eqI [of 4 _ "- 16384001"])
       (simp_all add: round_half_even_def)
  show "float32 (16384001 / 65536) = Some (16384001 / 65536)"
    by (rule float32_eqI, rule float32_round_eqI [of 7 _ 16384001])
       (simp_all add: round_half_even_def)
  show "float32 (16384001 / 131072) = Some (16384001 / 131072)"
    by (rule float32_eqI, rule float32_round_eqI [of 6 _ 16384001])
       (simp_all add: round_half_even_def)
  show "float32 (- (14811137 / 131072)) = Some (- (14811137 / 131072))"
    by (rule float32_eqI, rule float32_round_eqI [of 6 _ "- 14811137"])
       (simp_all add: round_half_even_def)
  show "float32 (17956865 / 131072) = Some 137"
    by (rule float32_eqI, rule float32_round_eqI [of 7 _ 8978432])
       (simp_all add: round_half_even_def)
qed

lemma RetinaNetHead_example:
  "RetinaNetHead_decode_boxes [(8, 8, 4, 2)] [(1, 0, 5, 0)]
   = [(Some (- (14811137 / 131072)), Some 7, Some 137, Some 9)]"
  by (simp add: RetinaNetHead_decode_boxes_def torch_add_def torch_sub_def torch_mul_def
      torch_exp_def torch_clamp_max_DEFAULT_SCALE_CLAMP float32_exp_scale_clamp float32_zero
      float32_small_ints float32_scale_values)

lemma RetinaNetHead_example_clamped:
  "RetinaNetHead_decode_boxes [(0, 0, 1, 1)] [(0, 0, 5, 5)]
   = [(Some (- (16384001 / 524288)), Some (- (16384001 / 524288)),
       Some (16384001 / 524288), Some (16384001 / 524288))]"
  by (simp add: RetinaNetHead_decode_boxes_def torch_add_def torch_sub_def torch_mul_def
      torch_exp_def torch_clamp_max_DEFAULT_SCALE_CLAMP float32_exp_scale_clamp float32_zero
      float32_small_ints float32_scale_values)

text \<open>
  The theorem at an anchor of size \<open>4 \<times> 2\<close> with an offset of one width and \<open>dw = 5\<close>, which
  the clamp replaces: the decoded width is \<open>4 * 16384001 / 2 ^ 18\<close>, and the right corner
  \<open>12 + 16384001 / 2 ^ 17\<close> is a tie that rounds to \<open>137\<close>.
\<close>

theorem RetinaNetHead_decode_boxes_bounded_witness:
  "length [(8, 8, 4, 2 :: real)] = length [(1, 0, 5, 0 :: real)]
   \<and> (0::nat) < length [(8, 8, 4, 2 :: real)] \<and> (0::real) < 4 \<and> (0::real) < 2
   \<and> RetinaNetHead_decode_boxes [(8, 8, 4, 2)] [(1, 0, 5, 0)] ! 0
       = (Some (- (14811137 / 131072)), Some 7, Some 137, Some 9)
   \<and> torch_clamp_max 5 DEFAULT_SCALE_CLAMP = 8672073 / 2097152
   \<and> torch_mul (Some 4) (torch_exp (torch_clamp_max 5 DEFAULT_SCALE_CLAMP))
       = Some (16384001 / 65536)
   \<and> - (14811137 / 131072) \<le> (137 :: real) \<and> (7 :: real) \<le> 9
   \<and> float32_round DEFAULT_SCALE_CLAMP = 8672073 / 2097152
   \<and> float32_round (exp (8672073 / 2097152)) = 16384001 / 262144"
  using RetinaNetHead_decode_boxes_bounded
      [of "[(8, 8, 4, 2)]" "[(1, 0, 5, 0)]" 0 8 8 4 2 1 0 5 0 "- (14811137 / 131072)" 7 137 9]
    RetinaNetHead_example
  by (simp add: torch_mul_def torch_exp_def torch_clamp_max_DEFAULT_SCALE_CLAMP
      float32_exp_scale_clamp float32_scale_values)

text \<open>
  Claim C7 as stated, that the decoded width and height never exceed the anchor's times
  \<open>1000 / 16\<close>, fails at an anchor of width and height \<open>1\<close> with \<open>dw = dh = 5\<close>: the decoded
  box is \<open>16384001 / 2 ^ 18\<close> wide and high.
\<close>

theorem RetinaNetHead_decode_boxes_bounded_counterexample:
  "(0::real) < 1
   \<and> RetinaNetHead_decode_boxes [(0, 0, 1, 1)] [(0, 0, 5, 5)]
       = [(Some (- (16384001 / 524288)), Some (- (16384001 / 524288)),
           Some (16384001 / 524288), Some (16384001 / 524288))]
   \<and> (1 :: real) * (1000 / 16) < 16384001 / 524288 - (- (16384001 / 524288))"
  using RetinaNetHead_example_clamped by simp

section \<open>Intersection over union\<close>

lemma box_inter_length: "length (box_inter bs1 bs2) = length bs1"
  by (simp add: box_inter_def box_lt_def box_rb_def Let_def)

lemma box_inter_row_length: "i < length bs1 \<Longrightarrow> length (box_inter bs1 bs2 ! i) = length bs2"
  by (simp add: box_inter_def box_lt_def box_rb_def Let_def split: prod.splits)

lemma box_inter_nth:
  assumes "i < length bs1" "j < length bs2"
    and "bs1 ! i = (x1, y1, x2, y2)" and "bs2 ! j = (x1', y1', x2', y2')"
  shows "box_inter bs1 bs2 ! i ! j =
    max (min x2 x2' - max x1 x1') 0 * max (min y2 y2' - max y1 y1') 0"
  using assms by (simp add: box_inter_def box_lt_def box_rb_def Let_def split: prod.splits)

lemma box_iou_shape:
  "length (fst (box_iou bs1 bs2)) = length bs1"
  "length (snd (box_iou bs1 bs2)) = length bs1"
  "i < length bs1 \<Longrightarrow> length (fst (box_iou bs1 bs2) ! i) = length bs2"
  "i < length bs1 \<Longrightarrow> length (snd (box_iou bs1 bs2) ! i) = length bs2"
  by (simp_all add: box_iou_def Let_def box_area_def box_inter_length box_inter_row_length)

lemma box_union_nth:
  assumes "i < length bs1" "j < length bs2"
    and "bs1 ! i = (x1, y1, x2, y2)" and "bs2 ! j = (x1', y1', x2', y2')"
  shows "snd (box_iou bs1 bs2) ! i ! j =
    (x2 - x1) * (y2 - y1) + (x2' - x1') * (y2' - y1') - box_inter bs1 bs2 ! i ! j"
  using assms
  by (simp add: box_iou_def Let_def box_area_def box_inter_length box_inter_row_length)

lemma box_iou_nth:
  assumes "i < length bs1" "j < length bs2"
  shows "fst (box_iou bs1 bs2) ! i ! j =
    tdiv (box_inter bs1 bs2 ! i ! j) (snd (box_iou bs1 bs2) ! i ! j)"
  using assms
  by (simp add: box_iou_def Let_def box_area_def box_inter_length box_inter_row_length)

lemma inter_le_area:
  fixes x1 :: real
  assumes "x1 \<le> x2" "y1 \<le> y2" "x1' \<le> x2'" "y1' \<le> y2'"
  shows "max (min x2 x2' - max x1 x1') 0 * max (min y2 y2' - max y1 y1') 0 \<le> (x2 - x1) * (y2 - y1)"
    and "max (min x2 x2' - max x1 x1') 0 * max (min y2 y2' - max y1 y1') 0 \<le> (x2' - x1') * (y2' - y1')"
    and "0 \<le> max (min x2 x2' - max x1 x1') 0 * max (min y2 y2' - max y1 y1') 0"
proof -
  let ?w = "max (min x2 x2' - max x1 x1') 0" and ?h = "max (min y2 y2' - max y1 y1') 0"
  have w: "0 \<le> ?w" "?w \<le> x2 - x1" "?w \<le> x2' - x1'" using assms by auto
  have h: "0 \<le> ?h" "?h \<le> y2 - y1" "?h \<le> y2' - y1'" using assms by auto
  show "?w * ?h \<le> (x2 - x1) * (y2 - y1)"
    using w h by (intro mult_mono) auto
  show "?w * ?h \<le> (x2' - x1') * (y2' - y1')"
    using w h by (intro mult_mono) auto
  show "0 \<le> ?w * ?h" using w h by simp
qed

text \<open>
  Claim C2. For boxes \<open>boxes1[i] = (x1, y1, x2, y2)\<close> and \<open>boxes2[j] = (x1', y1', x2', y2')\<close>
  with \<open>x1 \<le> x2\<close>, \<open>y1 \<le> y2\<close>, \<open>x1' \<le> x2'\<close>, \<open>y1' \<le> y2'\<close>, \<open>box_iou\<close> returns a pair
  \<open>(iou, union)\<close> of \<open>[N, M]\<close> tensors with
  \<open>inter[i, j] = max(0, min(x2, x2') - max(x1, x1')) * max(0, min(y2, y2') - max(y1, y1'))\<close>,
  \<open>union[i, j] = area(boxes1[i]) + area(boxes2[j]) - inter[i, j]\<close> and
  \<open>iou[i, j] = inter[i, j] / union[i, j]\<close> (the float division \<open>tdiv\<close>); where
  \<open>union[i, j] > 0\<close> the quotient is a number between \<open>0\<close> and \<open>1\<close>.
\<close>

theorem box_iou_entry:
  assumes "i < length boxes1" and "j < length boxes2"
    and "boxes1 ! i = (x1, y1, x2, y2)" and "boxes2 ! j = (x1', y1', x2', y2')"
    and "x1 \<le> x2" and "y1 \<le> y2" and "x1' \<le> x2'" and "y1' \<le> y2'"
  shows "\<exists>iou union inter. box_iou boxes1 boxes2 = (iou, union)
    \<and> length iou = length boxes1 \<and> length (iou ! i) = length boxes2
    \<and> length union = length boxes1 \<and> length (union ! i) = length boxes2
    \<and> inter = box_inter boxes1 boxes2 ! i ! j
    \<and> inter = max 0 (min x2 x2' - max x1 x1') * max 0 (min y2 y2' - max y1 y1')
    \<and> union ! i ! j = (x2 - x1) * (y2 - y1) + (x2' - x1') * (y2' - y1') - inter
    \<and> iou ! i ! j = tdiv inter (union ! i ! j)
    \<and> (0 < union ! i ! j \<longrightarrow>
         (\<exists>q. iou ! i ! j = Some q \<and> q = inter / union ! i ! j \<and> 0 \<le> q \<and> q \<le> 1))"
proof -
  define iou where "iou = fst (box_iou boxes1 boxes2)"
  define union where "union = snd (box_iou boxes1 boxes2)"
  define inter where "inter = box_inter boxes1 boxes2 ! i ! j"
  have r: "box_iou boxes1 boxes2 = (iou, union)"
    by (simp add: iou_def union_def)
  have i0: "inter = max (min x2 x2' - max x1 x1') 0 * max (min y2 y2' - max y1 y1') 0"
    unfolding inter_def using assms(1-4) by (rule box_inter_nth)
  have i1: "inter = max 0 (min x2 x2' - max x1 x1') * max 0 (min y2 y2' - max y1 y1')"
    unfolding i0 by (simp only: max.commute)
  have u: "union ! i ! j = (x2 - x1) * (y2 - y1) + (x2' - x1') * (y2' - y1') - inter"
    unfolding inter_def union_def using assms(1-4) by (rule box_union_nth)
  have q: "iou ! i ! j = tdiv inter (union ! i ! j)"
    unfolding inter_def iou_def union_def using assms(1,2) by (rule box_iou_nth)
  have b: "inter \<le> (x2 - x1) * (y2 - y1)" "inter \<le> (x2' - x1') * (y2' - y1')" "0 \<le> inter"
    unfolding i0 by (rule inter_le_area [OF assms(5-8)])+
  have bound: "0 < union ! i ! j \<longrightarrow>
         (\<exists>q. iou ! i ! j = Some q \<and> q = inter / union ! i ! j \<and> 0 \<le> q \<and> q \<le> 1)"
  proof
    assume p: "0 < union ! i ! j"
    have le: "inter \<le> union ! i ! j" using b u by linarith
    have q0: "0 \<le> inter / union ! i ! j"
      using p b(3) by (rule_tac divide_nonneg_pos)
    have q1: "inter / union ! i ! j \<le> 1"
      using p le by (simp only: divide_le_eq_1_pos)
    have "iou ! i ! j = Some (inter / union ! i ! j)"
      using p unfolding q tdiv_def by simp
    with q0 q1 show "\<exists>q. iou ! i ! j = Some q \<and> q = inter / union ! i ! j \<and> 0 \<le> q \<and> q \<le> 1"
      by blast
  qed
  have s: "length iou = length boxes1" "length (iou ! i) = length boxes2"
    "length union = length boxes1" "length (union ! i) = length boxes2"
    unfolding iou_def union_def using assms(1) by (simp_all only: box_iou_shape)
  from r s i1 u q bound show ?thesis
    unfolding inter_def [symmetric] by blast
qed

lemma box_iou_example:
  "box_iou [(0, 0, 2, 2)] [(1, 1, 3, 3), (0, 0, 2, 2)] = ([[Some (1 / 7), Some 1]], [[7, 4]])"
  by (simp add: box_iou_def box_area_def box_inter_def box_lt_def box_rb_def tdiv_def Let_def)

text \<open>The theorem at a box and two others, one overlapping it in a unit square, one equal.\<close>

theorem box_iou_entry_witness:
  "(0::nat) < length [(0, 0, 2, 2 :: real)] \<and> (0::nat) < length [(1, 1, 3, 3 :: real), (0, 0, 2, 2)]
   \<and> (0::real) \<le> 2 \<and> (1::real) \<le> 3
   \<and> box_iou [(0, 0, 2, 2)] [(1, 1, 3, 3), (0, 0, 2, 2)] = ([[Some (1 / 7), Some 1]], [[7, 4]])
   \<and> (0::real) \<le> 1 / 7 \<and> (1::real) / 7 \<le> 1"
  using box_iou_entry [of 0 "[(0, 0, 2, 2)]" 0 "[(1, 1, 3, 3), (0, 0, 2, 2)]" 0 0 2 2 1 1 3 3]
  by (simp add: box_iou_example)

section \<open>Anchors inside ground-truth boxes\<close>

lemma find_inside_points_same:
  "HungarianMatcher_find_inside_points gt_bboxes anchors =
   SimOTAMatcher_find_inside_points gt_bboxes anchors"
  by (simp add: HungarianMatcher_find_inside_points_def SimOTAMatcher_find_inside_points_def)

lemma find_inside_points_length:
  "length (SimOTAMatcher_find_inside_points gt_bboxes anchors) = length gt_bboxes"
  by (simp add: SimOTAMatcher_find_inside_points_def Let_def)

lemma find_inside_points_row_length:
  "i < length gt_bboxes \<Longrightarrow>
   length (SimOTAMatcher_find_inside_points gt_bboxes anchors ! i) = length anchors"
  by (simp add: SimOTAMatcher_find_inside_points_def Let_def)

lemma find_inside_points_nth:
  assumes "i < length gt_bboxes" "j < length anchors"
  shows "SimOTAMatcher_find_inside_points gt_bboxes anchors ! i ! j \<longleftrightarrow>
    (case (gt_bboxes ! i, anchors ! j) of
       ((x1, y1, x2, y2), (ax, ay)) \<Rightarrow> x1 < ax \<and> ax < x2 \<and> y1 < ay \<and> ay < y2)"
  using assms
  by (auto simp add: SimOTAMatcher_find_inside_points_def Let_def split: prod.splits)

lemma sum_dim0_length: "length (sum_dim0 m rows) = m"
  by (simp add: sum_dim0_def)

lemma valid_mask_of_length: "length (valid_mask_of m t) = m"
  by (simp add: valid_mask_of_def sum_dim0_def)

lemma sum_list_of_bool_pos:
  "(0::nat) < sum_list (map of_bool bs) \<longleftrightarrow> (\<exists>b \<in> set bs. b)"
  by (induction bs) auto

lemma valid_mask_of_nth:
  assumes "j < m" and "\<forall>row \<in> set t. j < length row"
  shows "valid_mask_of m t ! j \<longleftrightarrow> (\<exists>i < length t. t ! i ! j)"
proof -
  have e: "map (\<lambda>row. row ! j) (map (map of_bool) t) = map of_bool (map (\<lambda>row. row ! j) t)"
    using assms(2) by (induction t) auto
  have "valid_mask_of m t ! j \<longleftrightarrow>
      (0::nat) < sum_list (map (\<lambda>row. row ! j) (map (map of_bool) t))"
    using assms(1) by (simp add: valid_mask_of_def sum_dim0_def)
  also have "\<dots> \<longleftrightarrow> (\<exists>b \<in> set (map (\<lambda>row. row ! j) t). b)"
    unfolding e by (rule sum_list_of_bool_pos)
  also have "\<dots> \<longleftrightarrow> (\<exists>i < length t. t ! i ! j)"
    by (simp add: Bex_def in_set_conv_nth) blast
  finally show ?thesis .
qed

lemma find_inside_points_rows:
  "\<forall>row \<in> set (SimOTAMatcher_find_inside_points gt_bboxes anchors). length row = length anchors"
  by (auto simp add: SimOTAMatcher_find_inside_points_def Let_def set_zip)

text \<open>
  Claim C10. The two \<open>find_inside_points\<close> are the same function. Anchor \<open>j\<close> at
  \<open>(ax, ay)\<close> is inside the ground-truth box \<open>i\<close> exactly when \<open>x1 < ax < x2\<close> and
  \<open>y1 < ay < y2\<close>; an anchor on the boundary of a box is not inside it; and an anchor on
  the boundary of every ground-truth box is not in \<open>valid_mask\<close>.
\<close>

theorem find_inside_points_strict:
  assumes "j < length anchors" and "anchors ! j = (ax, ay)"
  shows "HungarianMatcher_find_inside_points gt_bboxes anchors =
           SimOTAMatcher_find_inside_points gt_bboxes anchors
    \<and> (\<forall>i < length gt_bboxes. \<forall>x1 y1 x2 y2. gt_bboxes ! i = (x1, y1, x2, y2) \<longrightarrow>
          (SimOTAMatcher_find_inside_points gt_bboxes anchors ! i ! j
             \<longleftrightarrow> x1 < ax \<and> ax < x2 \<and> y1 < ay \<and> ay < y2)
          \<and> (ax = x1 \<or> ax = x2 \<or> ay = y1 \<or> ay = y2 \<longrightarrow>
                \<not> SimOTAMatcher_find_inside_points gt_bboxes anchors ! i ! j))
    \<and> ((\<forall>i < length gt_bboxes. \<forall>x1 y1 x2 y2. gt_bboxes ! i = (x1, y1, x2, y2) \<longrightarrow>
            ax = x1 \<or> ax = x2 \<or> ay = y1 \<or> ay = y2)
         \<longrightarrow> \<not> valid_mask_of (length anchors)
                   (SimOTAMatcher_find_inside_points gt_bboxes anchors) ! j)"
proof (intro conjI allI impI)
  show "HungarianMatcher_find_inside_points gt_bboxes anchors =
        SimOTAMatcher_find_inside_points gt_bboxes anchors"
    by (rule find_inside_points_same)
next
  fix i x1 y1 x2 y2
  assume "i < length gt_bboxes" "gt_bboxes ! i = (x1, y1, x2, y2)"
  then show "SimOTAMatcher_find_inside_points gt_bboxes anchors ! i ! j
             \<longleftrightarrow> x1 < ax \<and> ax < x2 \<and> y1 < ay \<and> ay < y2"
    using assms by (simp add: find_inside_points_nth)
next
  fix i x1 y1 x2 y2
  assume "i < length gt_bboxes" "gt_bboxes ! i = (x1, y1, x2, y2)"
    "ax = x1 \<or> ax = x2 \<or> ay = y1 \<or> ay = y2"
  then show "\<not> SimOTAMatcher_find_inside_points gt_bboxes anchors ! i ! j"
    using assms by (auto simp add: find_inside_points_nth)
next
  assume b: "\<forall>i < length gt_bboxes. \<forall>x1 y1 x2 y2. gt_bboxes ! i = (x1, y1, x2, y2) \<longrightarrow>
            ax = x1 \<or> ax = x2 \<or> ay = y1 \<or> ay = y2"
  show "\<not> valid_mask_of (length anchors) (SimOTAMatcher_find_inside_points gt_bboxes anchors) ! j"
  proof
    assume "valid_mask_of (length anchors) (SimOTAMatcher_find_inside_points gt_bboxes anchors) ! j"
    then obtain i where i: "i < length gt_bboxes"
      and ins: "SimOTAMatcher_find_inside_points gt_bboxes anchors ! i ! j"
      using assms(1) find_inside_points_rows [of gt_bboxes anchors]
      by (auto simp add: valid_mask_of_nth find_inside_points_length)
    obtain x1 y1 x2 y2 where g: "gt_bboxes ! i = (x1, y1, x2, y2)"
      by (cases "gt_bboxes ! i") auto
    from ins i g assms have "x1 < ax \<and> ax < x2 \<and> y1 < ay \<and> ay < y2"
      by (simp add: find_inside_points_nth)
    moreover from b i g have "ax = x1 \<or> ax = x2 \<or> ay = y1 \<or> ay = y2" by blast
    ultimately show False by auto
  qed
qed

text \<open>
  The theorem at one box and two anchors: the first strictly inside, the second on the
  right edge \<open>x2 = 2\<close>.
\<close>

theorem find_inside_points_strict_witness:
  "(1::nat) < length [(1, 1), (2, 1 :: real)]
   \<and> SimOTAMatcher_find_inside_points [(0, 0, 2, 2)] [(1, 1), (2, 1)] = [[True, False]]
   \<and> HungarianMatcher_find_inside_points [(0, 0, 2, 2)] [(1, 1), (2, 1)] = [[True, False]]
   \<and> valid_mask_of (length [(1, 1), (2, 1 :: real)])
         (SimOTAMatcher_find_inside_points [(0, 0, 2, 2)] [(1, 1), (2, 1)]) = [True, False]"
proof -
  have a: "SimOTAMatcher_find_inside_points [(0, 0, 2, 2)] [(1, 1), (2, 1)] = [[True, False]]"
    by (simp add: SimOTAMatcher_find_inside_points_def Let_def)
  have b: "valid_mask_of (Suc (Suc 0)) [[True, False]] = [True, False]"
    by (simp add: valid_mask_of_def sum_dim0_def upt_rec)
  show ?thesis
    using find_inside_points_strict [of 1 "[(1, 1), (2, 1)]" 2 1 "[(0, 0, 2, 2)]"]
    by (simp add: a b)
qed

section \<open>The outputs of BasicFPN\<close>











section \<open>SimOTAMatcher without ground truth\<close>

text \<open>
  Claim C5. Without ground truth (no label, or \<open>0\<close> as the largest coordinate of
  \<open>gt_bboxes\<close>), \<open>SimOTAMatcher.__call__\<close> returns \<open>num_classes\<close> at every anchor as
  \<open>cls_targets\<close>, zero boxes of the shape of \<open>pred_box\<close> as \<open>box_targets\<close> and zeros as
  \<open>iou_targets\<close>. The result does not depend on the anchors, on the values of the
  predictions or on the sort: no IoU, cost or matching enters it.
\<close>

theorem SimOTAMatcher_call_without_gt:
  assumes "length gt_labels = 0 \<or> boxes_max gt_bboxes = Some 0"
  shows "SimOTAMatcher_call tsort n_classes topk_candidate anchors pred_cls pred_box
           gt_labels gt_bboxes =
         Inr (replicate (length pred_cls) n_classes,
              replicate (length pred_box) (0, 0, 0, 0),
              replicate (length pred_cls) 0)"
  using assms by (auto simp add: SimOTAMatcher_call_def Let_def)

text \<open>The theorem at one all-zero ground-truth box, and at no ground truth.\<close>

theorem SimOTAMatcher_call_without_gt_witness:
  "boxes_max [(0, 0, 0, 0)] = Some 0
   \<and> SimOTAMatcher_call stable_argsort 80 10 [(1, 1), (3, 1)] [[0.5, 2], [1, -1]]
        [(0, 0, 2, 2), (2, 0, 4, 2)] [0] [(0, 0, 0, 0)]
      = Inr ([80, 80], [(0, 0, 0, 0), (0, 0, 0, 0)], [0, 0])
   \<and> length ([] :: int list) = 0
   \<and> SimOTAMatcher_call stable_argsort 80 10 [(1, 1), (3, 1)] [[0.5, 2], [1, -1]]
        [(0, 0, 2, 2), (2, 0, 4, 2)] [] []
      = Inr ([80, 80], [(0, 0, 0, 0), (0, 0, 0, 0)], [0, 0])"
  using SimOTAMatcher_call_without_gt [of "[0]" "[(0, 0, 0, 0)]" stable_argsort 80 10
      "[(1, 1), (3, 1)]" "[[0.5, 2], [1, -1]]" "[(0, 0, 2, 2), (2, 0, 4, 2)]"]
    SimOTAMatcher_call_without_gt [of "[]" "[]" stable_argsort 80 10
      "[(1, 1), (3, 1)]" "[[0.5, 2], [1, -1]]" "[(0, 0, 2, 2), (2, 0, 4, 2)]"]
  by (simp add: boxes_max_def numeral_2_eq_2)

section \<open>Dynamic-k matching\<close>

subsection \<open>first index, argmin, argmax\<close>

lemma first_index_less:
  "\<exists>x \<in> set xs. P x \<Longrightarrow> first_index P xs < length xs"
  by (induction xs) auto

lemma first_index_holds:
  "\<exists>x \<in> set xs. P x \<Longrightarrow> P (xs ! first_index P xs)"
  by (induction xs) auto

lemma first_index_first:
  "k < first_index P xs \<Longrightarrow> \<not> P (xs ! k)"
proof (induction xs arbitrary: k)
  case Nil
  then show ?case by simp
next
  case (Cons a xs)
  then show ?case by (cases k) (auto split: if_splits)
qed

lemma argmin_props:
  assumes "xs \<noteq> []"
  shows "argmin xs < length xs" and "xs ! argmin xs = Min (set xs)"
proof -
  have "\<exists>x \<in> set xs. x = Min (set xs)"
    using assms Min_in [of "set xs"] by auto
  from first_index_less [OF this] first_index_holds [OF this]
  show "argmin xs < length xs" "xs ! argmin xs = Min (set xs)"
    by (simp_all add: argmin_def)
qed

subsection \<open>index fill\<close>

lemma index_fill_length: "length (index_fill row ids v) = length row"
  unfolding index_fill_def by (induction ids arbitrary: row) simp_all

lemma index_fill_nth:
  "j < length row \<Longrightarrow> index_fill row ids v ! j = (if j \<in> set ids then v else row ! j)"
  unfolding index_fill_def
proof (induction ids arbitrary: row)
  case Nil
  then show ?case by simp
next
  case (Cons a ids)
  then show ?case by (simp add: nth_list_update)
qed

subsection \<open>the loop over the ground truths\<close>

lemma fold_assign_topk:
  assumes "n \<le> length mm"
  shows "fold (assign_topk S D) [0..<n] mm =
    map (\<lambda>i. if i < n then index_fill (mm ! i) (take (nat (D ! i)) (S ! i)) 1 else mm ! i)
      [0..<length mm]"
  using assms
proof (induction n)
  case 0
  then show ?case by (simp add: map_nth)
next
  case (Suc n)
  let ?X = "map (\<lambda>i. if i < n then index_fill (mm ! i) (take (nat (D ! i)) (S ! i)) 1 else mm ! i)
      [0..<length mm]"
  have f: "fold (assign_topk S D) [0..<Suc n] mm = assign_topk S D n ?X"
    using Suc by simp
  have n: "n < length mm" using Suc.prems by simp
  show ?case
    unfolding f
    unfolding assign_topk_def Let_def
    using n by (intro nth_equalityI) (auto simp add: nth_list_update)
qed

lemma is_argsort_perm:
  assumes "is_argsort tsort"
  shows "distinct (tsort xs)" and "set (tsort xs) = {..<length xs}"
    and "length (tsort xs) = length xs"
proof -
  show d: "distinct (tsort xs)" and s: "set (tsort xs) = {..<length xs}"
    using assms by (simp_all add: is_argsort_def)
  show "length (tsort xs) = length xs"
    using distinct_card [OF d] s by simp
qed

lemma dynamic_ks_of_length: "length (dynamic_ks_of k P) = length P"
  by (simp add: dynamic_ks_of_def Let_def)

lemma dynamic_ks_of_ge1: "i < length P \<Longrightarrow> 1 \<le> dynamic_ks_of k P ! i"
  by (simp add: dynamic_ks_of_def Let_def)

lemma initial_matching_length:
  "n \<le> length C \<Longrightarrow> length (initial_matching tsort k C P n) = length C"
  by (simp add: initial_matching_def Let_def fold_assign_topk)

lemma initial_matching_row:
  assumes "n \<le> length C" and "i < n"
  shows "initial_matching tsort k C P n ! i =
    index_fill (map (\<lambda>_. 0) (C ! i)) (take (nat (dynamic_ks_of k P ! i)) (tsort (C ! i))) 1"
  using assms by (simp add: initial_matching_def Let_def fold_assign_topk)

lemma initial_matching_row_length:
  assumes "n \<le> length C" and "i < n"
  shows "length (initial_matching tsort k C P n ! i) = length (C ! i)"
  using assms by (simp add: initial_matching_row index_fill_length)

lemma initial_matching_nth:
  assumes "n \<le> length C" and "i < n" and "j < length (C ! i)"
  shows "initial_matching tsort k C P n ! i ! j =
    (if j \<in> set (take (nat (dynamic_ks_of k P ! i)) (tsort (C ! i))) then 1 else 0)"
  using assms by (simp add: initial_matching_row index_fill_nth)

lemma initial_matching_selects:
  assumes "is_argsort tsort" and "n \<le> length C" and "n \<le> length P" and "i < n"
    and "0 < length (C ! i)"
  shows "\<exists>j < length (C ! i). initial_matching tsort k C P n ! i ! j = 1"
proof -
  let ?ids = "take (nat (dynamic_ks_of k P ! i)) (tsort (C ! i))"
  have "1 \<le> dynamic_ks_of k P ! i" using assms(3,4) by (simp add: dynamic_ks_of_ge1)
  then have "0 < nat (dynamic_ks_of k P ! i)" by simp
  moreover have "length (tsort (C ! i)) = length (C ! i)"
    using is_argsort_perm(3) [OF assms(1)] .
  ultimately have "?ids \<noteq> []" using assms(5) by auto
  then obtain j where j: "j \<in> set ?ids" by (cases ?ids) auto
  then have "j \<in> set (tsort (C ! i))" by (rule in_set_takeD)
  then have "j < length (C ! i)" using is_argsort_perm(2) [OF assms(1), of "C ! i"] by simp
  with j assms(2,4) show ?thesis by (auto simp add: initial_matching_nth)
qed


subsection \<open>column sums\<close>

lemma sum_dim0_nth:
  "j < m \<Longrightarrow> sum_dim0 m rows ! j = sum_list (map (\<lambda>row. row ! j) rows)"
  by (simp add: sum_dim0_def)

lemma sum_dim0_len: "length (sum_dim0 m rows) = m"
  by (simp add: sum_dim0_def)

lemma sum_list_unit:
  fixes a :: nat
  assumes "a < n"
  shows "sum_list (map (\<lambda>i. if i = a then 1 else 0) [0..<n]) = (1::nat)"
proof -
  have "sum_list (map (\<lambda>i. if i = a then 1 else 0) [0..<n]) = (\<Sum>i = 0..<n. if i = a then 1 else (0::nat))"
    by (simp add: sum_list_sum_nth atLeast0LessThan)
  also have "\<dots> = 1" using assms by simp
  finally show ?thesis .
qed

lemma column_eq_map_upt: "column rows j = map (\<lambda>i. rows ! i ! j) [0..<length rows]"
  unfolding column_def by (rule nth_equalityI) simp_all

lemma sum_list_two_le:
  fixes xs :: "nat list"
  assumes "i < length xs" "i' < length xs" "i \<noteq> i'"
  shows "xs ! i + xs ! i' \<le> sum_list xs"
proof -
  have "xs ! i + xs ! i' = (\<Sum>k \<in> {i, i'}. xs ! k)" using assms(3) by simp
  also have "\<dots> \<le> (\<Sum>k = 0..<length xs. xs ! k)"
    using assms(1,2) by (intro sum_mono2) auto
  also have "\<dots> = sum_list xs" by (simp add: sum_list_sum_nth)
  finally show ?thesis .
qed

lemma sum_list_pos_ex:
  fixes xs :: "nat list"
  assumes "0 < sum_list xs"
  shows "\<exists>i < length xs. 0 < xs ! i"
proof (rule ccontr)
  assume "\<not> (\<exists>i < length xs. 0 < xs ! i)"
  then have "\<forall>x \<in> set xs. x = 0" by (auto simp add: in_set_conv_nth)
  then have "sum_list xs = 0" by (simp add: sum_list_eq_0_iff)
  with assms show False by simp
qed

subsection \<open>resolving multiple assignments\<close>

lemma fold_point_length:
  "length (fold (\<lambda>(i, j) mm. mm[i := (mm ! i)[j := v]]) ps mm) = length mm"
  by (induction ps arbitrary: mm) (auto split: prod.splits)

lemma fold_point_row_length:
  "a < length mm \<Longrightarrow>
   length (fold (\<lambda>(i, j) mm. mm[i := (mm ! i)[j := v]]) ps mm ! a) = length (mm ! a)"
proof (induction ps arbitrary: mm)
  case Nil
  then show ?case by simp
next
  case (Cons p ps)
  obtain i j where p: "p = (i, j)" by (cases p) auto
  have "length (mm[i := (mm ! i)[j := v]] ! a) = length (mm ! a)"
    using Cons.prems by (cases "a = i") simp_all
  with Cons.IH [of "mm[i := (mm ! i)[j := v]]"] Cons.prems show ?case
    by (simp add: p)
qed

lemma fold_point_nth:
  assumes "a < length mm" and "b < length (mm ! a)"
  shows "fold (\<lambda>(i, j) mm. mm[i := (mm ! i)[j := v]]) ps mm ! a ! b =
    (if (a, b) \<in> set ps then v else mm ! a ! b)"
  using assms
proof (induction ps arbitrary: mm)
  case Nil
  then show ?case by simp
next
  case (Cons p ps)
  obtain i j where p: "p = (i, j)" by (cases p) auto
  let ?mm = "mm[i := (mm ! i)[j := v]]"
  have l: "a < length ?mm" "b < length (?mm ! a)"
    using Cons.prems by (cases "a = i"; simp)+
  have e: "?mm ! a ! b = (if (a, b) = (i, j) then v else mm ! a ! b)"
    using Cons.prems by (cases "a = i"; cases "b = j"; simp)
  show ?case
    using Cons.IH [OF l] e by (auto simp add: p)
qed

lemma size1_rows:
  assumes "C \<noteq> []" and "\<forall>row \<in> set C. length row = m"
  shows "size1 C = m"
  using assms by (cases C) (simp_all add: size1_def)

lemma resolve_multiple_eq:
  assumes "C \<noteq> []" and "length mm = length C"
    and "\<forall>row \<in> set mm. length row = m" and "\<forall>row \<in> set C. length row = m"
  shows "resolve_multiple C mm =
    map (\<lambda>i. map (\<lambda>j. if 1 < sum_dim0 m mm ! j
                        then (if i = argmin (column C j) then 1 else 0)
                        else mm ! i ! j) [0..<m]) [0..<length C]"
proof -
  define msk where "msk = map (\<lambda>s. 1 < s) (sum_dim0 m mm)"
  define cols where "cols = filter (\<lambda>j. msk ! j) [0..<m]"
  define z where "z = map (\<lambda>row. map2 (\<lambda>p v. if p then v * 0 else v) msk row) mm"
  define ps where "ps = zip (map (\<lambda>j. argmin (column C j)) cols) cols"
  have M: "size1 C = m" using assms(1,4) by (rule size1_rows)
  have R: "resolve_multiple C mm =
      (if 0 < length (filter id msk)
       then fold (\<lambda>(i, j) mm. mm[i := (mm ! i)[j := 1]]) ps z else mm)"
    unfolding resolve_multiple_def Let_def M msk_def cols_def z_def ps_def ..
  have ml: "length msk = m" by (simp add: msk_def sum_dim0_len)
  have mn: "msk ! j \<longleftrightarrow> 1 < sum_dim0 m mm ! j" if "j < m" for j
    using that by (simp add: msk_def sum_dim0_len)
  have rl: "length (mm ! i) = m" if "i < length C" for i
    using that assms(2,3) by simp
  have zl: "length z = length C" by (simp add: z_def assms(2))
  have zr: "length (z ! i) = m" if "i < length C" for i
    using that assms(2) rl ml by (simp add: z_def)
  have zn: "z ! i ! j = (if msk ! j then 0 else mm ! i ! j)" if "i < length C" "j < m" for i j
    using that assms(2) rl ml by (simp add: z_def)
  have pss: "(a, b) \<in> set ps \<longleftrightarrow> b < m \<and> msk ! b \<and> a = argmin (column C b)" for a b
  proof -
    have "ps = map (\<lambda>j. (argmin (column C j), j)) cols"
      unfolding ps_def by (simp add: zip_map1 zip_same_conv_map)
    then show ?thesis by (auto simp add: cols_def)
  qed
  show ?thesis
  proof (rule nth_equalityI)
    show "length (resolve_multiple C mm) =
        length (map (\<lambda>i. map (\<lambda>j. if 1 < sum_dim0 m mm ! j
                        then (if i = argmin (column C j) then 1 else 0)
                        else mm ! i ! j) [0..<m]) [0..<length C])"
      unfolding R using zl assms(2) by (simp add: fold_point_length)
  next
    fix i assume "i < length (resolve_multiple C mm)"
    then have i: "i < length C"
      unfolding R using zl assms(2) by (simp add: fold_point_length split: if_splits)
    have e: "map (\<lambda>i. map (\<lambda>j. if 1 < sum_dim0 m mm ! j
                        then (if i = argmin (column C j) then 1 else 0)
                        else mm ! i ! j) [0..<m]) [0..<length C] ! i =
        map (\<lambda>j. if 1 < sum_dim0 m mm ! j
                        then (if i = argmin (column C j) then 1 else 0)
                        else mm ! i ! j) [0..<m]"
      using i by simp
    have main: "resolve_multiple C mm ! i =
        map (\<lambda>j. if 1 < sum_dim0 m mm ! j
                        then (if i = argmin (column C j) then 1 else 0)
                        else mm ! i ! j) [0..<m]"
    proof (cases "0 < length (filter id msk)")
      case True
      have "fold (\<lambda>(i, j) mm. mm[i := (mm ! i)[j := 1]]) ps z ! i =
          map (\<lambda>j. if 1 < sum_dim0 m mm ! j
                    then (if i = argmin (column C j) then 1 else 0)
                    else mm ! i ! j) [0..<m]"
      proof (rule nth_equalityI)
        show "length (fold (\<lambda>(i, j) mm. mm[i := (mm ! i)[j := 1]]) ps z ! i) =
            length (map (\<lambda>j. if 1 < sum_dim0 m mm ! j
                    then (if i = argmin (column C j) then 1 else 0)
                    else mm ! i ! j) [0..<m])"
          using i zl zr by (simp add: fold_point_row_length)
      next
        fix j assume "j < length (fold (\<lambda>(i, j) mm. mm[i := (mm ! i)[j := 1]]) ps z ! i)"
        then have j: "j < m" using i zl zr by (simp add: fold_point_row_length)
        have "fold (\<lambda>(i, j) mm. mm[i := (mm ! i)[j := 1]]) ps z ! i ! j =
            (if (i, j) \<in> set ps then 1 else z ! i ! j)"
          using i j zl zr by (intro fold_point_nth) simp_all
        also have "\<dots> = (if 1 < sum_dim0 m mm ! j
                    then (if i = argmin (column C j) then 1 else 0)
                    else mm ! i ! j)"
          using i j by (simp add: pss zn mn)
        finally show "fold (\<lambda>(i, j) mm. mm[i := (mm ! i)[j := 1]]) ps z ! i ! j =
            map (\<lambda>j. if 1 < sum_dim0 m mm ! j
                    then (if i = argmin (column C j) then 1 else 0)
                    else mm ! i ! j) [0..<m] ! j"
          using j by simp
      qed
      with True show ?thesis unfolding R by simp
    next
      case False
      then have "\<forall>x \<in> set msk. \<not> x" by (simp add: filter_empty_conv)
      then have none: "\<not> 1 < sum_dim0 m mm ! j" if "j < m" for j
        using that mn [of j] ml by (auto simp add: in_set_conv_nth)
      have "mm ! i = map (\<lambda>j. if 1 < sum_dim0 m mm ! j
                    then (if i = argmin (column C j) then 1 else 0)
                    else mm ! i ! j) [0..<m]"
        using rl [OF i] none by (intro nth_equalityI) simp_all
      with False show ?thesis unfolding R by (simp only: if_False)
    qed
    show "resolve_multiple C mm ! i =
        map (\<lambda>i. map (\<lambda>j. if 1 < sum_dim0 m mm ! j
                        then (if i = argmin (column C j) then 1 else 0)
                        else mm ! i ! j) [0..<m]) [0..<length C] ! i"
      unfolding e by (rule main)
  qed
qed


subsection \<open>the unique assignment of a foreground column\<close>

lemma argmax_unique_one:
  fixes xs :: "nat list"
  assumes "\<forall>x \<in> set xs. x \<le> 1" and "sum_list xs = 1"
  shows "argmax xs < length xs" and "xs ! argmax xs = 1"
    and "\<forall>i < length xs. xs ! i = 1 \<longrightarrow> i = argmax xs"
proof -
  obtain i where i: "i < length xs" "0 < xs ! i"
    using sum_list_pos_ex [of xs] assms(2) by auto
  moreover have "xs ! i \<le> 1" using assms(1) i(1) by (metis nth_mem)
  ultimately have one: "xs ! i = 1" by simp
  then have mem: "1 \<in> set xs" using i(1) by (metis nth_mem)
  have mx: "Max (set xs) = 1"
    using assms(1) mem by (intro Max_eqI) auto
  have ex: "\<exists>x \<in> set xs. x = Max (set xs)" using mem mx by auto
  show l: "argmax xs < length xs"
    unfolding argmax_def by (rule first_index_less [OF ex])
  show v: "xs ! argmax xs = 1"
    using first_index_holds [OF ex] mx by (simp add: argmax_def)
  show "\<forall>i < length xs. xs ! i = 1 \<longrightarrow> i = argmax xs"
  proof (intro allI impI, rule ccontr)
    fix k assume k: "k < length xs" "xs ! k = 1" "k \<noteq> argmax xs"
    from sum_list_two_le [OF k(1) l k(3)] k(2) v assms(2) show False by simp
  qed
qed

lemma is_argsort_stable_argsort: "is_argsort stable_argsort"
  by (auto simp add: is_argsort_def stable_argsort_def)

subsection \<open>the result of dynamic\_k\_matching\<close>

lemma dynamic_k_matching_returns:
  assumes "length C = n" and "length P = n" and "1 \<le> n"
    and "\<forall>row \<in> set C. length row = m"
  shows "dynamic_k_matching tsort k C P n =
    Inr (masked_select
           (sum_dim0 m (map2 (map2 (\<lambda>a v. real a * v))
              (resolve_multiple C (initial_matching tsort k C P n)) P))
           (map (\<lambda>s. 0 < s) (sum_dim0 m (resolve_multiple C (initial_matching tsort k C P n)))),
         map (\<lambda>j. argmax (column (resolve_multiple C (initial_matching tsort k C P n)) j))
           (filter (\<lambda>j. map (\<lambda>s. 0 < s)
              (sum_dim0 m (resolve_multiple C (initial_matching tsort k C P n))) ! j) [0..<m]),
         map (\<lambda>s. 0 < s) (sum_dim0 m (resolve_multiple C (initial_matching tsort k C P n))))"
proof -
  have "C \<noteq> []" using assms(1,3) by auto
  then have M: "size1 C = m" using assms(4) by (rule size1_rows)
  show ?thesis
    unfolding dynamic_k_matching_def Let_def M using assms(1-3) by simp
qed

lemma column_length: "length (column rows j) = length rows"
  by (simp add: column_def)

lemma column_nth: "i < length rows \<Longrightarrow> column rows j ! i = rows ! i ! j"
  by (simp add: column_def)

lemma sum_dim0_column: "j < m \<Longrightarrow> sum_dim0 m rows ! j = sum_list (column rows j)"
  by (simp add: sum_dim0_nth column_def)

text \<open>
  Claim C4, amended. For a cost matrix and a pairwise-IoU matrix of shape \<open>[N, M]\<close> with
  \<open>N = num_gt \<ge> 1\<close> and at least one column (\<open>M \<ge> 1\<close>), \<open>dynamic_k_matching\<close> returns,
  and with \<open>initial\<close> the matching matrix after the loop and \<open>final\<close> the one after the
  multiple assignments are resolved: every column of \<open>final\<close> sums to at most \<open>1\<close>; a
  column that summed to more than \<open>1\<close> in \<open>initial\<close> holds its single \<open>1\<close> at the ground
  truth of least cost in that column, and the other columns are unchanged;
  \<open>fg_mask_inboxes\<close> is true exactly on the columns that sum to \<open>1\<close>; every dynamic \<open>k\<close>
  is at least \<open>1\<close> and every ground truth has a \<open>1\<close> in its row of \<open>initial\<close>; and
  \<open>matched_gt_inds\<close> lists, for the foreground columns in order, the one row that holds
  a \<open>1\<close>. The sort may break ties in any way (\<open>is_argsort\<close>).
\<close>

theorem dynamic_k_matching_assignment:
  assumes "is_argsort tsort"
    and "length cost_matrix = num_gt" and "length pairwise_ious = num_gt"
    and "\<forall>row \<in> set cost_matrix. length row = m"
    and "\<forall>row \<in> set pairwise_ious. length row = m"
    and "1 \<le> num_gt" and "1 \<le> m"
    and "initial = initial_matching tsort topk_candidate cost_matrix pairwise_ious num_gt"
    and "final = resolve_multiple cost_matrix initial"
  shows "\<exists>matched_pred_ious matched_gt_inds fg_mask_inboxes.
      dynamic_k_matching tsort topk_candidate cost_matrix pairwise_ious num_gt =
        Inr (matched_pred_ious, matched_gt_inds, fg_mask_inboxes)
    \<and> length fg_mask_inboxes = m
    \<and> (\<forall>j < m. sum_dim0 m final ! j \<le> 1)
    \<and> (\<forall>j < m. 1 < sum_dim0 m initial ! j \<longrightarrow>
          argmin (column cost_matrix j) < num_gt
          \<and> cost_matrix ! argmin (column cost_matrix j) ! j = Min (set (column cost_matrix j))
          \<and> (\<forall>i < num_gt. final ! i ! j = (if i = argmin (column cost_matrix j) then 1 else 0)))
    \<and> (\<forall>j < m. \<not> 1 < sum_dim0 m initial ! j \<longrightarrow> (\<forall>i < num_gt. final ! i ! j = initial ! i ! j))
    \<and> (\<forall>j < m. fg_mask_inboxes ! j \<longleftrightarrow> sum_dim0 m final ! j = 1)
    \<and> (\<forall>i < num_gt. 1 \<le> dynamic_ks_of topk_candidate pairwise_ious ! i
          \<and> (\<exists>j < m. initial ! i ! j = 1))
    \<and> matched_gt_inds =
        map (\<lambda>j. argmax (column final j)) (filter (\<lambda>j. fg_mask_inboxes ! j) [0..<m])
    \<and> (\<forall>j < m. fg_mask_inboxes ! j \<longrightarrow>
          argmax (column final j) < num_gt
          \<and> final ! argmax (column final j) ! j = 1
          \<and> (\<forall>i < num_gt. final ! i ! j = 1 \<longrightarrow> i = argmax (column final j)))"
proof -
  let ?C = cost_matrix and ?P = pairwise_ious and ?n = num_gt
  define fg where "fg = map (\<lambda>s. 0 < s) (sum_dim0 m final)"
  define inds where "inds = map (\<lambda>j. argmax (column final j)) (filter (\<lambda>j. fg ! j) [0..<m])"
  define mpi where "mpi =
    masked_select (sum_dim0 m (map2 (map2 (\<lambda>a v. real a * v)) final ?P)) fg"
  have Cne: "?C \<noteq> []" using assms(2,6) by auto
  have Crow: "length (?C ! i) = m" if "i < ?n" for i
    using that assms(2,4) by simp
  have ret: "dynamic_k_matching tsort topk_candidate ?C ?P ?n = Inr (mpi, inds, fg)"
    unfolding mpi_def inds_def fg_def assms(8,9)
    by (rule dynamic_k_matching_returns [OF assms(2,3,6,4)])
  have Il: "length initial = ?n"
    unfolding assms(8) using assms(2) by (simp add: initial_matching_length)
  have Irl: "length (initial ! i) = m" if "i < ?n" for i
    unfolding assms(8) using that assms(2) Crow by (simp add: initial_matching_row_length)
  have Irows: "\<forall>row \<in> set initial. length row = m"
    using Il Irl by (auto simp add: in_set_conv_nth)
  have In: "initial ! i ! j \<le> 1" if "i < ?n" "j < m" for i j
    unfolding assms(8) using that assms(2) Crow by (simp add: initial_matching_nth)
  have R: "final = map (\<lambda>i. map (\<lambda>j. if 1 < sum_dim0 m initial ! j
                        then (if i = argmin (column ?C j) then 1 else 0)
                        else initial ! i ! j) [0..<m]) [0..<length ?C]"
    unfolding assms(9) using Cne Il assms(2) Irows assms(4) by (intro resolve_multiple_eq) simp_all
  have Rl: "length final = ?n" unfolding R using assms(2) by simp
  have Rn: "final ! i ! j = (if 1 < sum_dim0 m initial ! j
                        then (if i = argmin (column ?C j) then 1 else 0)
                        else initial ! i ! j)" if "i < ?n" "j < m" for i j
    unfolding R using that assms(2) by simp
  have a_lt: "argmin (column ?C j) < ?n" for j
  proof -
    have "column ?C j \<noteq> []" using Cne by (simp add: column_def)
    from argmin_props(1) [OF this] show ?thesis by (simp add: column_length assms(2))
  qed
  have a_min: "?C ! argmin (column ?C j) ! j = Min (set (column ?C j))" for j
  proof -
    have "column ?C j \<noteq> []" using Cne by (simp add: column_def)
    from argmin_props(2) [OF this] a_lt [of j] show ?thesis
      by (simp add: column_nth assms(2))
  qed
  have colR: "column final j = map (\<lambda>i. final ! i ! j) [0..<?n]" for j
    using column_eq_map_upt [of final j] Rl by simp
  have sumR: "sum_dim0 m final ! j =
      (if 1 < sum_dim0 m initial ! j then 1 else sum_dim0 m initial ! j)" if "j < m" for j
  proof (cases "1 < sum_dim0 m initial ! j")
    case True
    have "column final j = map (\<lambda>i. if i = argmin (column ?C j) then 1 else 0) [0..<?n]"
      unfolding colR using True that by (simp add: Rn)
    then have "sum_list (column final j) = 1"
      using sum_list_unit [OF a_lt [of j]] by simp
    with True that show ?thesis by (simp add: sum_dim0_column)
  next
    case False
    have "column final j = map (\<lambda>i. initial ! i ! j) [0..<?n]"
      unfolding colR using False that by (simp add: Rn)
    also have "\<dots> = column initial j"
      using column_eq_map_upt [of initial j] Il by simp
    finally show ?thesis using False that by (simp add: sum_dim0_column)
  qed
  have c_le: "\<forall>j < m. sum_dim0 m final ! j \<le> 1"
    using sumR by auto
  have c_multi: "\<forall>j < m. 1 < sum_dim0 m initial ! j \<longrightarrow>
          argmin (column ?C j) < ?n
          \<and> ?C ! argmin (column ?C j) ! j = Min (set (column ?C j))
          \<and> (\<forall>i < ?n. final ! i ! j = (if i = argmin (column ?C j) then 1 else 0))"
    using a_lt a_min Rn by simp
  have c_keep: "\<forall>j < m. \<not> 1 < sum_dim0 m initial ! j \<longrightarrow> (\<forall>i < ?n. final ! i ! j = initial ! i ! j)"
    using Rn by simp
  have fgl: "length fg = m" by (simp add: fg_def sum_dim0_len)
  have fgn: "fg ! j \<longleftrightarrow> sum_dim0 m final ! j = 1" if "j < m" for j
  proof -
    have "fg ! j \<longleftrightarrow> 0 < sum_dim0 m final ! j"
      using that by (simp add: fg_def sum_dim0_len)
    with c_le that show ?thesis by (auto simp add: le_Suc_eq)
  qed
  have c_sel: "\<forall>i < ?n. 1 \<le> dynamic_ks_of topk_candidate ?P ! i \<and> (\<exists>j < m. initial ! i ! j = 1)"
  proof (intro allI impI conjI)
    fix i assume i: "i < ?n"
    show "1 \<le> dynamic_ks_of topk_candidate ?P ! i"
      using i assms(3) by (simp add: dynamic_ks_of_ge1)
    have "\<exists>j < length (?C ! i). initial ! i ! j = 1"
      unfolding assms(8) using assms(1,2,3,7) i Crow [OF i]
      by (intro initial_matching_selects) simp_all
    then show "\<exists>j < m. initial ! i ! j = 1" using Crow [OF i] by simp
  qed
  have c_uniq: "\<forall>j < m. fg ! j \<longrightarrow>
          argmax (column final j) < ?n
          \<and> final ! argmax (column final j) ! j = 1
          \<and> (\<forall>i < ?n. final ! i ! j = 1 \<longrightarrow> i = argmax (column final j))"
  proof (intro allI impI)
    fix j assume j: "j < m" and f: "fg ! j"
    have s: "sum_list (column final j) = 1"
      using fgn [OF j] f j by (simp add: sum_dim0_column)
    have b: "\<forall>x \<in> set (column final j). x \<le> 1"
      unfolding colR using j In by (auto simp add: Rn)
    note u = argmax_unique_one [OF b s]
    have l: "argmax (column final j) < ?n"
      using u(1) by (simp add: column_length Rl)
    have v: "final ! argmax (column final j) ! j = 1"
      using u(2) l by (simp add: column_nth Rl)
    have q: "\<forall>i < ?n. final ! i ! j = 1 \<longrightarrow> i = argmax (column final j)"
      using u(3) by (simp add: column_length column_nth Rl)
    from l v q show "argmax (column final j) < ?n
          \<and> final ! argmax (column final j) ! j = 1
          \<and> (\<forall>i < ?n. final ! i ! j = 1 \<longrightarrow> i = argmax (column final j))"
      by blast
  qed
  have c_fg: "\<forall>j < m. fg ! j \<longleftrightarrow> sum_dim0 m final ! j = 1" using fgn by simp
  from ret fgl c_le c_multi c_keep c_fg c_sel inds_def c_uniq show ?thesis
    by blast
qed

text \<open>
  An instance with two ground truths and three anchors: the first ground truth selects
  two anchors, the second one, and both select the anchor \<open>1\<close>, which goes to the second
  (cost \<open>1/2\<close> against \<open>2\<close>).
\<close>

lemma dynamic_k_example_initial:
  "initial_matching stable_argsort 10 [[1, 2, 3], [3 / 2, 1 / 2, 4]]
     [[9 / 10, 8 / 10, 5 / 10], [7 / 10, 9 / 10, 1 / 10]] 2 = [[1, 1, 0], [0, 1, 0]]"
  by code_simp

lemma dynamic_k_example_final:
  "resolve_multiple [[1, 2, 3], [3 / 2, 1 / 2, 4]] [[1, 1, 0], [0, 1, 0]] = [[1, 0, 0], [0, 1, 0]]"
  by code_simp

lemma dynamic_k_example_result:
  "dynamic_k_matching stable_argsort 10 [[1, 2, 3], [3 / 2, 1 / 2, 4]]
     [[9 / 10, 8 / 10, 5 / 10], [7 / 10, 9 / 10, 1 / 10]] 2 =
   Inr ([9 / 10, 9 / 10], [0, 1], [True, True, False])"
  by code_simp


lemma ex3_conjD: "\<exists>a b c. P a b c \<and> Q a b c \<Longrightarrow> \<exists>a b c. P a b c"
  by blast

theorem dynamic_k_matching_assignment_witness:
  "is_argsort stable_argsort
   \<and> length [[1, 2, 3], [3 / 2, 1 / 2, 4 :: real]] = 2
   \<and> length [[9 / 10, 8 / 10, 5 / 10], [7 / 10, 9 / 10, 1 / 10 :: real]] = 2
   \<and> (1::nat) \<le> 2 \<and> (1::nat) \<le> 3
   \<and> initial_matching stable_argsort 10 [[1, 2, 3], [3 / 2, 1 / 2, 4]]
         [[9 / 10, 8 / 10, 5 / 10], [7 / 10, 9 / 10, 1 / 10]] 2 = [[1, 1, 0], [0, 1, 0]]
   \<and> resolve_multiple [[1, 2, 3], [3 / 2, 1 / 2, 4]] [[1, 1, 0], [0, 1, 0]]
       = [[1, 0, 0], [0, 1, 0]]
   \<and> dynamic_k_matching stable_argsort 10 [[1, 2, 3], [3 / 2, 1 / 2, 4]]
         [[9 / 10, 8 / 10, 5 / 10], [7 / 10, 9 / 10, 1 / 10]] 2
       = Inr ([9 / 10, 9 / 10], [0, 1], [True, True, False])
   \<and> sum_dim0 3 [[1, 0, 0], [0, 1, 0 :: nat]] = [1, 1, 0]"
proof -
  have s: "sum_dim0 3 [[1, 0, 0], [0, 1, 0 :: nat]] = [1, 1, 0]"
    by code_simp
  have rows: "\<forall>row \<in> set [[1, 2, 3], [3 / 2, 1 / 2, 4 :: real]]. length row = 3"
    "\<forall>row \<in> set [[9 / 10, 8 / 10, 5 / 10], [7 / 10, 9 / 10, 1 / 10 :: real]]. length row = 3"
    by simp_all
  have len: "length [[1, 2, 3], [3 / 2, 1 / 2, 4 :: real]] = 2"
    "length [[9 / 10, 8 / 10, 5 / 10], [7 / 10, 9 / 10, 1 / 10 :: real]] = 2"
    "(1::nat) \<le> 2" "(1::nat) \<le> 3"
    by simp_all
  note t = dynamic_k_matching_assignment [OF is_argsort_stable_argsort len(1,2) rows len(3,4)
      dynamic_k_example_initial [symmetric] dynamic_k_example_final [symmetric]]
  have r: "\<exists>matched_pred_ious matched_gt_inds fg_mask_inboxes.
      dynamic_k_matching stable_argsort 10 [[1, 2, 3], [3 / 2, 1 / 2, 4]]
         [[9 / 10, 8 / 10, 5 / 10], [7 / 10, 9 / 10, 1 / 10]] 2
       = Inr (matched_pred_ious, matched_gt_inds, fg_mask_inboxes)"
    by (rule ex3_conjD [OF t])
  show ?thesis
    using r by (simp only: is_argsort_stable_argsort len dynamic_k_example_initial dynamic_k_example_final dynamic_k_example_result s simp_thms)
qed

text \<open>
  Claim C4 as it is stated fails on a cost matrix of shape \<open>[1, 0]\<close>: \<open>num_gt = 1\<close>, the
  dynamic \<open>k\<close> of the ground truth is clamped to \<open>1\<close>, and its row of the matching
  matrix is empty, so it selects no candidate.
\<close>

theorem dynamic_k_matching_assignment_counterexample:
  "(1::nat) \<le> 1
   \<and> dynamic_ks_of 10 [[]] = [1]
   \<and> initial_matching stable_argsort 10 [[]] [[]] 1 = [[]]
   \<and> dynamic_k_matching stable_argsort 10 [[]] [[]] 1 = Inr ([], [], [])"
  by code_simp

section \<open>The targets of HungarianMatcher\<close>

lemma fold_zip_update_length:
  "length (fold (\<lambda>(i, v) r. r[i := v]) ps t) = length t"
  by (induction ps arbitrary: t) (auto split: prod.splits)

lemma fold_zip_update_other:
  "a \<notin> fst ` set ps \<Longrightarrow> fold (\<lambda>(i, v) r. r[i := v]) ps t ! a = t ! a"
  by (induction ps arbitrary: t) (auto split: prod.splits)

lemma fold_zip_update_nth:
  assumes "distinct ids" and "length vals = length ids" and "\<forall>i \<in> set ids. i < length t"
    and "k < length ids"
  shows "fold (\<lambda>(i, v) r. r[i := v]) (zip ids vals) t ! (ids ! k) = vals ! k"
  using assms
proof (induction ids arbitrary: vals t k)
  case Nil
  then show ?case by simp
next
  case (Cons i ids)
  then obtain v vs where vals: "vals = v # vs" by (cases vals) auto
  show ?case
  proof (cases k)
    case 0
    have "i \<notin> fst ` set (zip ids vs)"
      using Cons.prems(1) by (auto dest: set_zip_leftD)
    then have "fold (\<lambda>(i, v) r. r[i := v]) (zip ids vs) (t[i := v]) ! i = t[i := v] ! i"
      by (rule fold_zip_update_other)
    with 0 Cons.prems(3) show ?thesis by (simp add: vals)
  next
    case (Suc k')
    with Cons.prems vals have "fold (\<lambda>(i, v) r. r[i := v]) (zip ids vs) (t[i := v]) ! (ids ! k') = vs ! k'"
      by (intro Cons.IH) auto
    with Suc show ?thesis by (simp add: vals)
  qed
qed

lemma index_put_ok:
  assumes "distinct ids" and "length vals = length ids" and "\<forall>i \<in> set ids. i < length t"
  shows "\<exists>r. index_put t ids vals = Inr r \<and> length r = length t
      \<and> (\<forall>k < length ids. r ! (ids ! k) = vals ! k)
      \<and> (\<forall>a. a \<notin> set ids \<longrightarrow> r ! a = t ! a)"
proof -
  let ?r = "fold (\<lambda>(i, v) r. r[i := v]) (zip ids vals) t"
  have "\<not> (\<exists>i \<in> set ids. length t \<le> i)" using assms(3) by auto
  then have "index_put t ids vals = Inr ?r" using assms(2) by (simp add: index_put_def)
  moreover have "length ?r = length t" by (rule fold_zip_update_length)
  moreover have "\<forall>k < length ids. ?r ! (ids ! k) = vals ! k"
    using fold_zip_update_nth [OF assms] by simp
  moreover have "\<forall>a. a \<notin> set ids \<longrightarrow> ?r ! a = t ! a"
  proof (intro allI impI)
    fix a assume "a \<notin> set ids"
    then have "a \<notin> fst ` set (zip ids vals)" by (auto dest: set_zip_leftD)
    then show "?r ! a = t ! a" by (rule fold_zip_update_other)
  qed
  ultimately show ?thesis by blast
qed

lemma pairwise_pred_scores_of_length:
  "pairwise_pred_scores_of pred_cls gt_labels = Inr scores \<Longrightarrow> length scores = length gt_labels"
  by (auto simp add: pairwise_pred_scores_of_def split: if_splits)

lemma those_length: "those xs = Some ys \<Longrightarrow> length ys = length xs"
  by (induction xs arbitrary: ys) (auto split: option.splits)

lemma finite_matrix_length: "finite_matrix t = Some c \<Longrightarrow> length c = length t"
  using those_length [of "map those t" c] by (simp add: finite_matrix_def)

lemma matching_cost_length:
  assumes "length scores = n" and "length ious = n"
  shows "length (matching_cost valid scores ious n) = n"
  using assms by (simp add: matching_cost_def Let_def)


lemma min_cost_assignment_indices:
  assumes "min_cost_assignment cost m ind"
  shows "fst ind = [0..<length cost]" and "length (snd ind) = length cost"
    and "distinct (snd ind)" and "\<forall>j \<in> set (snd ind). j < m"
  using assms by (simp_all add: min_cost_assignment_def)

text \<open>
  Claim C3. For a call with \<open>num_gts \<le> num_anchors\<close> on tensors of the documented shapes,
  with labels that index \<open>pred_cls\<close> and a cost matrix without \<open>nan\<close>, and for
  \<open>pred_indices\<close> the columns of the minimum-cost one-to-one assignment that
  \<open>linear_sum_assignment\<close> returns for the cost matrix, \<open>HungarianMatcher.__call__\<close>
  returns targets of one entry per anchor: the assigned anchors are \<open>num_gts\<close> distinct
  anchors; the anchor assigned to the ground truth \<open>g\<close> has the label of \<open>g\<close> as
  \<open>cls_target\<close>, the box of \<open>g\<close> as \<open>box_target\<close> and the IoU of that box with the predicted
  box of the anchor as \<open>iou_target\<close>; every other anchor has \<open>num_classes\<close>, the zero box
  and \<open>0\<close>.
\<close>

theorem HungarianMatcher_call_targets:
  assumes "length gt_bboxes = length gt_labels"
    and "length pred_cls = length anchors" and "length pred_box = length anchors"
    and "length gt_labels \<le> length anchors"
    and "pairwise_pred_scores_of pred_cls gt_labels = Inr pairwise_pred_scores"
    and "finite_matrix
           (matching_cost
              (valid_mask_of (length anchors)
                 (HungarianMatcher_find_inside_points gt_bboxes anchors))
              pairwise_pred_scores (fst (box_iou gt_bboxes pred_box)) (length gt_labels))
         = Some cost_matrix"
    and "min_cost_assignment cost_matrix (length anchors) (lsa cost_matrix)"
    and "pred_indices = snd (lsa cost_matrix)"
  shows "\<exists>cls_target box_target iou_target.
      HungarianMatcher_call lsa n_classes anchors pred_cls pred_box gt_labels gt_bboxes =
        Inr (cls_target, box_target, iou_target)
    \<and> length cls_target = length anchors \<and> length box_target = length anchors
    \<and> length iou_target = length anchors
    \<and> length pred_indices = length gt_labels \<and> distinct pred_indices
    \<and> (\<forall>a \<in> set pred_indices. a < length anchors)
    \<and> (\<forall>g < length gt_labels.
          cls_target ! (pred_indices ! g) = gt_labels ! g
          \<and> box_target ! (pred_indices ! g) = gt_bboxes ! g
          \<and> iou_target ! (pred_indices ! g) =
              fst (box_iou gt_bboxes pred_box) ! g ! (pred_indices ! g))
    \<and> (\<forall>a < length anchors. a \<notin> set pred_indices \<longrightarrow>
          cls_target ! a = n_classes \<and> box_target ! a = (0, 0, 0, 0) \<and> iou_target ! a = Some 0)
    \<and> length (filter (\<lambda>a. a \<in> set pred_indices) [0..<length anchors]) = length gt_labels"
proof -
  let ?N = "length gt_labels" and ?M = "length anchors"
  let ?ious = "fst (box_iou gt_bboxes pred_box)"
  define gi where "gi = fst (lsa cost_matrix)"
  let ?pi = pred_indices
  define vals where "vals = map2 (\<lambda>g p. ?ious ! g ! p) gi ?pi"
  have sl: "length pairwise_pred_scores = ?N"
    using assms(5) by (rule pairwise_pred_scores_of_length)
  have il: "length ?ious = ?N" using assms(1) by (simp add: box_iou_shape)
  have irl: "length (?ious ! g) = ?M" if "g < ?N" for g
    using that assms(1,3) by (simp add: box_iou_shape)
  have cl: "length cost_matrix = ?N"
    using finite_matrix_length [OF assms(6)] matching_cost_length [OF sl il] by simp
  note m = min_cost_assignment_indices [OF assms(7)]
  have gi: "gi = [0..<?N]" using m(1) cl by (simp add: gi_def)
  have pl: "length ?pi = ?N" using m(2) cl by (simp add: assms(8))
  have pd: "distinct ?pi" using m(3) by (simp add: assms(8))
  have pb: "\<forall>a \<in> set ?pi. a < ?M" using m(4) by (simp add: assms(8))
  have g1: "\<not> (\<exists>j \<in> set ?pi. ?M \<le> j)" using pb by auto
  have g2: "\<not> (\<exists>(g, p) \<in> set (zip gi ?pi). length ?ious \<le> g \<or> length (?ious ! g) \<le> p)"
  proof
    assume "\<exists>(g, p) \<in> set (zip gi ?pi). length ?ious \<le> g \<or> length (?ious ! g) \<le> p"
    then obtain g p where gp: "(g, p) \<in> set (zip gi ?pi)"
      and bad: "length ?ious \<le> g \<or> length (?ious ! g) \<le> p" by auto
    from gp have "g \<in> set gi" "p \<in> set ?pi" by (auto dest: set_zip_leftD set_zip_rightD)
    then have "g < ?N" "p < ?M" using gi pb by auto
    with bad il irl show False by auto
  qed
  have vl: "length vals = ?N" using gi pl by (simp add: vals_def)
  have vn: "vals ! g = ?ious ! g ! (?pi ! g)" if "g < ?N" for g
    using that gi pl by (simp add: vals_def)
  obtain cls where cls: "index_put (replicate (length pred_cls) n_classes) ?pi gt_labels = Inr cls"
    "length cls = ?M" "\<forall>k < ?N. cls ! (?pi ! k) = gt_labels ! k"
    "\<forall>a. a \<notin> set ?pi \<longrightarrow> cls ! a = replicate (length pred_cls) n_classes ! a"
    using index_put_ok [of ?pi gt_labels "replicate (length pred_cls) n_classes"] pd pl pb assms(2)
    by auto
  obtain box where box: "index_put (replicate (length pred_box) (0, 0, 0, 0)) ?pi gt_bboxes = Inr box"
    "length box = ?M" "\<forall>k < ?N. box ! (?pi ! k) = gt_bboxes ! k"
    "\<forall>a. a \<notin> set ?pi \<longrightarrow> box ! a = replicate (length pred_box) (0, 0, 0, 0) ! a"
    using index_put_ok [of ?pi gt_bboxes "replicate (length pred_box) (0, 0, 0, 0)"] pd pl pb
      assms(1,3)
    by auto
  obtain iou where iou: "index_put (replicate (length pred_box) (Some 0)) ?pi vals = Inr iou"
    "length iou = ?M" "\<forall>k < ?N. iou ! (?pi ! k) = vals ! k"
    "\<forall>a. a \<notin> set ?pi \<longrightarrow> iou ! a = replicate (length pred_box) (Some 0) ! a"
    using index_put_ok [of ?pi vals "replicate (length pred_box) (Some 0)"] pd pl pb vl assms(3)
    by auto
  have ret: "HungarianMatcher_call lsa n_classes anchors pred_cls pred_box gt_labels gt_bboxes =
      Inr (cls, box, iou)"
    unfolding HungarianMatcher_call_def Let_def
    using g1 g2 cls(1) box(1) iou(1)
    by (simp add: assms(5,6) assms(8) [symmetric] gi_def [symmetric] vals_def [symmetric])
  have c_fg: "\<forall>g < ?N. cls ! (?pi ! g) = gt_labels ! g \<and> box ! (?pi ! g) = gt_bboxes ! g
      \<and> iou ! (?pi ! g) = ?ious ! g ! (?pi ! g)"
    using cls(3) box(3) iou(3) vn by simp
  have c_bg: "\<forall>a < ?M. a \<notin> set ?pi \<longrightarrow>
      cls ! a = n_classes \<and> box ! a = (0, 0, 0, 0) \<and> iou ! a = Some 0"
    using cls(4) box(4) iou(4) assms(2,3) by simp
  have "length (filter (\<lambda>a. a \<in> set ?pi) [0..<?M]) = card ({a. a \<in> set ?pi} \<inter> set [0..<?M])"
    by (simp add: distinct_length_filter)
  also have "{a. a \<in> set ?pi} \<inter> set [0..<?M] = set ?pi" using pb by auto
  also have "card (set ?pi) = ?N" using pd pl by (simp add: distinct_card)
  finally have c_n: "length (filter (\<lambda>a. a \<in> set ?pi) [0..<?M]) = ?N" .
  from ret cls(2) box(2) iou(2) pl pd pb c_fg c_bg c_n show ?thesis by blast
qed

text \<open>
  An instance with one ground truth and two anchors, the first inside the box and
  predicting it exactly, the second outside (its column costs \<open>10^9\<close>).
\<close>

lemma Hungarian_example_ious:
  "fst (box_iou [(0, 0, 2, 2)] [(0, 0, 2, 2), (2, 0, 4, 2)]) = [[Some 1, Some 0]]"
  by (simp add: box_iou_def box_area_def box_inter_def box_lt_def box_rb_def tdiv_def Let_def)

lemma Hungarian_example_valid:
  "valid_mask_of (length ([(1, 1), (3, 1)] :: point list))
     (HungarianMatcher_find_inside_points [(0, 0, 2, 2)] [(1, 1), (3, 1)]) = [True, False]"
  by (simp add: HungarianMatcher_find_inside_points_def valid_mask_of_def sum_dim0_def Let_def
      upt_rec)

lemma Hungarian_example_scores: "pairwise_pred_scores_of [[0], [0]] [0] = Inr [[0, 0]]"
  by (simp add: pairwise_pred_scores_of_def py_index_def)

lemma Hungarian_example_cost:
  "finite_matrix (matching_cost [True, False] [[0, 0]] [[Some 1, Some 0]] (length [0 :: int]))
   = Some [[ln 2 * (1 / 4) + 3 * - ln (1 + 1 / 10 ^ 8), 10 ^ 9]]"
  by (simp add: matching_cost_def finite_matrix_def Let_def tlift2_def tlog_def sigmoid_def
      binary_cross_entropy_with_logits_def power2_eq_square)

lemma Hungarian_example_assignment:
  "min_cost_assignment [[ln 2 * (1 / 4) + 3 * - ln (1 + 1 / 10 ^ 8), 10 ^ 9]] 2 ([0], [0])"
proof -
  define c :: real where "c = ln 2 * (1 / 4) + 3 * - ln (1 + 1 / 10 ^ 8)"
  have l2: "ln (2::real) \<le> 1" using ln_le_minus_one [of "2::real"] by simp
  have l0: "0 \<le> ln (1 + 1 / 10 ^ 8 :: real)" by (rule ln_ge_zero) simp
  have "c \<le> 1 / 4" unfolding c_def using l2 l0 by linarith
  then have c: "c \<le> 10 ^ 9" by simp
  have m: "assignment_cost [[c, 10 ^ 9]] [0] [0] \<le> assignment_cost [[c, 10 ^ 9]] [0] cols"
    if "length cols = 1" "\<forall>j \<in> set cols. j < 2" for cols
  proof -
    from that(1) obtain j where cols: "cols = [j]" by (cases cols) auto
    with that(2) have "j = 0 \<or> j = 1" by auto
    then show ?thesis using c by (auto simp add: cols assignment_cost_def)
  qed
  have "min_cost_assignment [[c, 10 ^ 9]] 2 ([0], [0])"
    unfolding min_cost_assignment_def using m by simp
  then show ?thesis unfolding c_def .
qed

lemma Hungarian_example_call:
  "HungarianMatcher_call (\<lambda>cost. ([0], [0])) 1 [(1, 1), (3, 1)] [[0], [0]]
     [(0, 0, 2, 2), (2, 0, 4, 2)] [0] [(0, 0, 2, 2)]
   = Inr ([0, 1], [(0, 0, 2, 2), (0, 0, 0, 0)], [Some 1, Some 0])"
  unfolding HungarianMatcher_call_def Let_def Hungarian_example_ious Hungarian_example_valid
    Hungarian_example_scores sum.case Hungarian_example_cost
  by (simp add: index_put_def)

theorem HungarianMatcher_call_targets_witness:
  "length ([(0, 0, 2, 2)] :: box list) = length [0 :: int]
   \<and> length [[0], [0 :: real]] = length ([(1, 1), (3, 1)] :: point list)
   \<and> length ([(0, 0, 2, 2), (2, 0, 4, 2)] :: box list) = length ([(1, 1), (3, 1)] :: point list)
   \<and> length [0 :: int] \<le> length ([(1, 1), (3, 1)] :: point list)
   \<and> pairwise_pred_scores_of [[0], [0]] [0] = Inr [[0, 0]]
   \<and> min_cost_assignment [[ln 2 * (1 / 4) + 3 * - ln (1 + 1 / 10 ^ 8), 10 ^ 9]] 2 ([0], [0])
   \<and> HungarianMatcher_call (\<lambda>cost. ([0], [0])) 1 [(1, 1), (3, 1)] [[0], [0]]
        [(0, 0, 2, 2), (2, 0, 4, 2)] [0] [(0, 0, 2, 2)]
      = Inr ([0, 1], [(0, 0, 2, 2), (0, 0, 0, 0)], [Some 1, Some 0])"
proof -
  have len: "length ([(0, 0, 2, 2)] :: box list) = length [0 :: int]"
    "length [[0], [0 :: real]] = length ([(1, 1), (3, 1)] :: point list)"
    "length ([(0, 0, 2, 2), (2, 0, 4, 2)] :: box list) = length ([(1, 1), (3, 1)] :: point list)"
    "length [0 :: int] \<le> length ([(1, 1), (3, 1)] :: point list)"
    by simp_all
  have cost: "finite_matrix
      (matching_cost
         (valid_mask_of (length ([(1, 1), (3, 1)] :: point list))
            (HungarianMatcher_find_inside_points [(0, 0, 2, 2)] [(1, 1), (3, 1)]))
         [[0, 0]] (fst (box_iou [(0, 0, 2, 2)] [(0, 0, 2, 2), (2, 0, 4, 2)])) (length [0 :: int]))
    = Some [[ln 2 * (1 / 4) + 3 * - ln (1 + 1 / 10 ^ 8), 10 ^ 9]]"
    unfolding Hungarian_example_ious Hungarian_example_valid by (rule Hungarian_example_cost)
  have asg: "min_cost_assignment [[ln 2 * (1 / 4) + 3 * - ln (1 + 1 / 10 ^ 8), 10 ^ 9]]
      (length ([(1, 1), (3, 1)] :: point list)) ((\<lambda>cost. ([0], [0])) [[ln 2 * (1 / 4) + 3 * - ln (1 + 1 / 10 ^ 8), 10 ^ 9]])"
    using Hungarian_example_assignment by (simp add: numeral_2_eq_2)
  note t = HungarianMatcher_call_targets [OF len Hungarian_example_scores cost asg refl, of 1]
  have r: "\<exists>cls_target box_target iou_target.
      HungarianMatcher_call (\<lambda>cost. ([0], [0])) 1 [(1, 1), (3, 1)] [[0], [0]]
        [(0, 0, 2, 2), (2, 0, 4, 2)] [0] [(0, 0, 2, 2)]
      = Inr (cls_target, box_target, iou_target)"
    by (rule ex3_conjD [OF t])
  show ?thesis
    using r
    by (simp only: len Hungarian_example_scores Hungarian_example_assignment
        Hungarian_example_call simp_thms)
qed

section \<open>The positional embedding\<close>

lemma broadcast_rev_Nil2: "broadcast_rev xs [] = Inr xs"
  by (cases xs) simp_all

lemma broadcast_one: "broadcast (bl @ [1]) [n] = Inr (bl @ [n])"
  by (simp add: broadcast_def ebind_def broadcast_rev_Nil2)

lemma broadcast_Suc0: "broadcast (bl @ [Suc 0]) [n] = Inr (bl @ [n])"
  using broadcast_one [of bl n] by simp

lemma index_last_keep_ok:
  "pos \<noteq> [] \<Longrightarrow> k < last pos \<Longrightarrow> index_last_keep pos k = Inr (butlast pos @ [1])"
  by (simp add: index_last_keep_def)

lemma sin_cos_last_even:
  assumes "even n"
  shows "sin_cos_last (bl @ [n]) = Inr (bl @ [n])"
proof -
  obtain m where n: "n = 2 * m" using assms by (auto elim: evenE)
  have a: "(n + 1) div 2 = m" "(n - 1 + 1) div 2 = m" unfolding n by (cases m; simp)+
  show ?thesis
    by (simp add: sin_cos_last_def slice_step2_def ebind_def stack_pair_def flatten_from_def a n
        nth_append)
qed

lemma sin_cos_axis2_even:
  assumes "even n"
  shows "sin_cos_axis2 [a, b, n] = Inr [a, b, n]"
proof -
  obtain m where n: "n = 2 * m" using assms by (auto elim: evenE)
  have e: "(n + 1) div 2 = m" "(n - 1 + 1) div 2 = m" unfolding n by (cases m; simp)+
  show ?thesis
    by (simp add: sin_cos_axis2_def slice_step2_def ebind_def stack_pair_def flatten_from_def e n)
qed


lemma pos2posembed_prefix:
  assumes "pos \<noteq> []" and "2 \<le> last pos" and "even (d div 2)"
  shows "pos2posembed d pos =
    (if last pos = 2 then cat_last [butlast pos @ [d div 2], butlast pos @ [d div 2]]
     else if last pos = 4 then
       ebind (select_axis2 pos 2) (\<lambda>w_embed.
       ebind (unsqueeze_at w_embed 2) (\<lambda>t.
       ebind (broadcast t [d div 2]) (\<lambda>pos_w.
       ebind (sin_cos_axis2 pos_w) (\<lambda>pos_w.
       ebind (select_axis2 pos 3) (\<lambda>h_embed.
       ebind (unsqueeze_at h_embed 2) (\<lambda>t.
       ebind (broadcast t [d div 2]) (\<lambda>pos_h.
       ebind (sin_cos_axis2 pos_h) (\<lambda>pos_h.
         cat_last [butlast pos @ [d div 2], butlast pos @ [d div 2], pos_w, pos_h]))))))))
     else Inl ValueError)"
proof -
  have i: "index_last_keep pos 0 = Inr (butlast pos @ [1])"
    "index_last_keep pos 1 = Inr (butlast pos @ [1])"
    using assms(1,2) by (simp_all add: index_last_keep_ok)
  have e: "ebind (Inr v) f = f v" for v :: shape and f :: "shape \<Rightarrow> error + shape"
    by (simp add: ebind_def)
  show ?thesis
    unfolding pos2posembed_def Let_def i e broadcast_one sin_cos_last_even [OF assms(3)] ..
qed

lemma pos2posembed_two:
  assumes "pos \<noteq> []" and "last pos = 2" and "even (d div 2)"
  shows "pos2posembed d pos = Inr (butlast pos @ [2 * (d div 2)])"
  using assms by (simp add: pos2posembed_prefix cat_last_def)

lemma pos2posembed_four:
  assumes "even (d div 2)"
  shows "pos2posembed d [a, b, 4] = Inr [a, b, 4 * (d div 2)]"
proof -
  have bc: "broadcast [a, b, Suc 0] [d div 2] = Inr [a, b, d div 2]"
    using broadcast_one [of "[a, b]" "d div 2"] by simp
  show ?thesis
    using assms
    by (simp add: pos2posembed_prefix select_axis2_def unsqueeze_at_def ebind_def bc
        sin_cos_axis2_even cat_last_def)
qed

lemma pos2posembed_other:
  assumes "pos \<noteq> []" and "2 < last pos" and "last pos \<noteq> 4" and "even (d div 2)"
  shows "pos2posembed d pos = Inl ValueError"
  using assms by (simp add: pos2posembed_prefix)

lemma pos2posembed_short:
  assumes "pos = [] \<or> last pos < 2"
  shows "pos2posembed d pos = Inl IndexError"
proof (cases "pos = [] \<or> last pos = 0")
  case True
  then have "index_last_keep pos 0 = Inl IndexError"
    by (auto simp add: index_last_keep_def)
  then show ?thesis by (simp add: pos2posembed_def Let_def ebind_def)
next
  case False
  with assms have p: "pos \<noteq> []" "last pos = 1" by auto
  have "index_last_keep pos 0 = Inr (butlast pos @ [1])"
    "index_last_keep pos 1 = Inl IndexError"
    using p by (simp_all add: index_last_keep_def)
  then show ?thesis
    by (simp add: pos2posembed_def Let_def ebind_def broadcast_Suc0)
qed

lemma pos2posembed_four_not_ValueError:
  assumes "pos \<noteq> []" and "last pos = 4" and "even (d div 2)"
  shows "pos2posembed d pos \<noteq> Inl ValueError"
proof -
  have s: "select_axis2 pos k \<noteq> Inl ValueError" for k
    by (simp add: select_axis2_def)
  have u: "unsqueeze_at t 2 \<noteq> Inl ValueError" for t
    by (simp add: unsqueeze_at_def)
  have br: "broadcast_rev xs ys \<noteq> Inl ValueError" for xs ys
    by (induction xs ys rule: broadcast_rev.induct) (auto simp add: ebind_def split: sum.splits)
  have b: "broadcast t u \<noteq> Inl ValueError" for t u
    using br [of "rev t" "rev u"] by (auto simp add: broadcast_def ebind_def split: sum.splits)
  have sc: "sin_cos_axis2 t \<noteq> Inl ValueError" for t
    by (auto simp add: sin_cos_axis2_def slice_step2_def stack_pair_def flatten_from_def ebind_def
        split: sum.splits if_splits)
  have c: "cat_last ts \<noteq> Inl ValueError" for ts
    by (auto simp add: cat_last_def split: list.splits)
  show ?thesis
    unfolding pos2posembed_prefix [OF assms(1) _ assms(3), unfolded assms(2), simplified]
    using s u b sc c
    by (auto simp add: ebind_def split: sum.splits)
qed

text \<open>
  Claim C9, amended. For \<open>d_model\<close> a multiple of \<open>4\<close>, \<open>pos2posembed\<close> raises
  \<open>ValueError\<close> exactly when \<open>pos\<close> has a last dimension of \<open>3\<close> or of more than \<open>4\<close>;
  a \<open>pos\<close> without axes or with a last dimension of \<open>0\<close> or \<open>1\<close> raises \<open>IndexError\<close>,
  since \<open>pos[..., 0, None]\<close> and \<open>pos[..., 1, None]\<close> are read before the size is
  compared. With a last dimension of \<open>2\<close> the embedding has the leading axes of \<open>pos\<close>
  and a last dimension of \<open>d_model\<close>; for a \<open>pos\<close> of three axes with a last dimension of
  \<open>4\<close> the last dimension is \<open>2 * d_model\<close>.
\<close>

theorem pos2posembed_raises:
  assumes "4 dvd d_model'"
  shows "(pos2posembed d_model' pos = Inl ValueError
            \<longleftrightarrow> pos \<noteq> [] \<and> 2 < last pos \<and> last pos \<noteq> 4)
    \<and> (pos = [] \<or> last pos < 2 \<longrightarrow> pos2posembed d_model' pos = Inl IndexError)
    \<and> (pos \<noteq> [] \<and> last pos = 2 \<longrightarrow>
          pos2posembed d_model' pos = Inr (butlast pos @ [d_model']))
    \<and> (length pos = 3 \<and> last pos = 4 \<longrightarrow>
          pos2posembed d_model' pos = Inr (butlast pos @ [2 * d_model']))"
proof -
  obtain m where m: "d_model' = 4 * m" using assms by (auto elim: dvdE)
  have ev: "even (d_model' div 2)" and d: "2 * (d_model' div 2) = d_model'"
    "4 * (d_model' div 2) = 2 * d_model'"
    unfolding m by simp_all
  have c3: "pos \<noteq> [] \<and> last pos = 2 \<longrightarrow>
      pos2posembed d_model' pos = Inr (butlast pos @ [d_model'])"
    using pos2posembed_two [of pos d_model'] ev d by simp
  have c4: "length pos = 3 \<and> last pos = 4 \<longrightarrow>
      pos2posembed d_model' pos = Inr (butlast pos @ [2 * d_model'])"
  proof
    assume a: "length pos = 3 \<and> last pos = 4"
    then obtain a' b' where "pos = [a', b', 4]"
      by (cases pos; cases "tl pos"; cases "tl (tl pos)") auto
    then show "pos2posembed d_model' pos = Inr (butlast pos @ [2 * d_model'])"
      using pos2posembed_four [OF ev, of a' b'] d by simp
  qed
  have c2: "pos = [] \<or> last pos < 2 \<longrightarrow> pos2posembed d_model' pos = Inl IndexError"
    using pos2posembed_short [of pos d_model'] by blast
  have c1: "pos2posembed d_model' pos = Inl ValueError
      \<longleftrightarrow> pos \<noteq> [] \<and> 2 < last pos \<and> last pos \<noteq> 4"
  proof
    assume v: "pos2posembed d_model' pos = Inl ValueError"
    have n: "pos \<noteq> []" "\<not> last pos < 2" using c2 v by auto
    have "last pos \<noteq> 2" using c3 v n(1) by auto
    moreover have "last pos \<noteq> 4"
      using pos2posembed_four_not_ValueError [of pos d_model'] ev v n(1) by auto
    ultimately show "pos \<noteq> [] \<and> 2 < last pos \<and> last pos \<noteq> 4" using n by auto
  next
    assume "pos \<noteq> [] \<and> 2 < last pos \<and> last pos \<noteq> 4"
    then show "pos2posembed d_model' pos = Inl ValueError"
      using pos2posembed_other [of pos d_model'] ev by simp
  qed
  from c1 c2 c3 c4 show ?thesis by blast
qed

text \<open>
  The theorem at \<open>d_model = 256\<close>: the positions of a \<open>20 \<times> 20\<close> map, the reference
  boxes of \<open>300\<close> queries, and two shapes that raise.
\<close>

theorem pos2posembed_raises_witness:
  "(4::nat) dvd 256
   \<and> pos2posembed 256 [2, 20, 20, 2] = Inr [2, 20, 20, 256]
   \<and> pos2posembed 256 [300, 2, 4] = Inr [300, 2, 512]
   \<and> pos2posembed 256 [300, 2, 3] = Inl ValueError
   \<and> pos2posembed 256 [300, 2, 1] = Inl IndexError"
  using pos2posembed_raises [of 256 "[2, 20, 20, 2]"] pos2posembed_raises [of 256 "[300, 2, 4]"]
    pos2posembed_raises [of 256 "[300, 2, 3]"] pos2posembed_raises [of 256 "[300, 2, 1]"]
  by simp

text \<open>
  Claim C9 as it is stated fails: a last dimension of \<open>1\<close> is neither \<open>2\<close> nor \<open>4\<close>, and
  the method raises \<open>IndexError\<close>, not \<open>ValueError\<close>. With \<open>d_model = 6\<close> a last dimension
  of \<open>2\<close> ends in the \<open>RuntimeError\<close> of \<open>torch.stack\<close> (the slices \<open>0::2\<close> and \<open>1::2\<close> of
  \<open>3\<close> features differ in size), and a \<open>pos\<close> of two axes with a last dimension of \<open>4\<close>
  ends in the \<open>IndexError\<close> of \<open>pos[:, :, 2]\<close>.
\<close>

theorem pos2posembed_raises_counterexample:
  "last [300, 2, 1 :: nat] \<noteq> 2 \<and> last [300, 2, 1 :: nat] \<noteq> 4
   \<and> pos2posembed 256 [300, 2, 1] = Inl IndexError
   \<and> pos2posembed 256 [300, 2, 1] \<noteq> Inl ValueError
   \<and> last [300, 2 :: nat] = 2 \<and> pos2posembed 6 [300, 2] = Inl RuntimeError
   \<and> last [300, 4 :: nat] = 4 \<and> pos2posembed 256 [300, 4] = Inl IndexError"
  by (simp add: pos2posembed_def index_last_keep_def broadcast_def ebind_def sin_cos_last_def
      slice_step2_def stack_pair_def flatten_from_def select_axis2_def Let_def)

section \<open>The two forward\_pre\_upsample methods\<close>

text \<open>
  The two methods on the default arguments of the constructor with \<open>is_train = True\<close>
  (\<open>d_model = 512\<close>, six encoder and six decoder layers, \<open>80\<close> classes, \<open>300\<close> one-to-one
  and \<open>1500\<close> one-to-many queries), on a feature map of shape \<open>[2, 512, 20, 20]\<close> without
  mask. The layers keep the shape of their first argument, and \<open>MLP\<close> maps the last axis
  as \<open>nn.Linear\<close> does.
\<close>

lemma PlainDETRTransformer_default_eval:
  "map_sum id (\<lambda>out. map out [''pred_logits'', ''pred_boxes'', ''aux_outputs'',
        ''pred_logits_one2many'', ''pred_boxes_one2many'', ''aux_outputs_one2many''])
     (PlainDETRTransformer_forward_pre_upsample
        (PlainDETRTransformer_init
           (\<lambda>src key_padding_mask pos_embed. Inr src)
           (\<lambda>tgt memory tgt_mask memory_key_padding_mask pos query_pos. Inr tgt)
           (\<lambda>input_dim hidden_dim output_dim num_layers. Linear input_dim output_dim)
           (\<lambda>t size. Inr (take 2 t @ size))
           (\<lambda>t. Inr t)
           True 512 6 False 6 80 300 1500 False)
        [2, 512, 20, 20] None)
   = Inr [Some (Tensor [2, 300, 80]), Some (Tensor [2, 300, 4]), None,
          Some (Tensor [2, 300, 80]), Some (Tensor [2, 300, 4]), None]"
  by code_simp

lemma BackupPlainDETRTransformer_default_eval:
  "map_sum id (\<lambda>out. map out [''pred_logits'', ''pred_boxes'', ''aux_outputs'',
        ''pred_logits_one2many'', ''pred_boxes_one2many'', ''aux_outputs_one2many''])
     (BackupPlainDETRTransformer_forward_pre_upsample
        (PlainDETRTransformer_init
           (\<lambda>src key_padding_mask pos_embed. Inr src)
           (\<lambda>tgt memory tgt_mask memory_key_padding_mask pos query_pos. Inr tgt)
           (\<lambda>input_dim hidden_dim output_dim num_layers. Linear input_dim output_dim)
           (\<lambda>t size. Inr (take 2 t @ size))
           (\<lambda>t. Inr t)
           True 512 6 False 6 80 300 1500 False)
        [2, 512, 20, 20] None)
   = Inr [Some (Tensor [2, 300, 80]), Some (Tensor [2, 300, 4]), None,
          Some (Tensor [2, 1500, 80]), Some (Tensor [2, 1500, 4]), None]"
  by code_simp

text \<open>
  Claim C1 fails on the code. On the default training configuration
  \<open>PlainDETRTransformer.forward_pre_upsample\<close> returns \<open>pred_logits_one2many\<close> and
  \<open>pred_boxes_one2many\<close> for \<open>300\<close> queries (the slice from \<open>num_queries_one2many = 1500\<close> of
  \<open>1800\<close> queries), \<open>BackupPlainDETRTransformer.forward_pre_upsample\<close> for the \<open>1500\<close>
  one-to-many queries (the slice from \<open>num_queries_one2one = 300\<close>): the two dictionaries
  differ.
\<close>

theorem forward_pre_upsample_one2many_differ:
  "map_sum id (\<lambda>out. map out [''pred_logits'', ''pred_boxes'', ''aux_outputs'',
        ''pred_logits_one2many'', ''pred_boxes_one2many'', ''aux_outputs_one2many''])
     (PlainDETRTransformer_forward_pre_upsample
        (PlainDETRTransformer_init
           (\<lambda>src key_padding_mask pos_embed. Inr src)
           (\<lambda>tgt memory tgt_mask memory_key_padding_mask pos query_pos. Inr tgt)
           (\<lambda>input_dim hidden_dim output_dim num_layers. Linear input_dim output_dim)
           (\<lambda>t size. Inr (take 2 t @ size))
           (\<lambda>t. Inr t)
           True 512 6 False 6 80 300 1500 False)
        [2, 512, 20, 20] None)
   = Inr [Some (Tensor [2, 300, 80]), Some (Tensor [2, 300, 4]), None,
          Some (Tensor [2, 300, 80]), Some (Tensor [2, 300, 4]), None]
   \<and> map_sum id (\<lambda>out. map out [''pred_logits'', ''pred_boxes'', ''aux_outputs'',
        ''pred_logits_one2many'', ''pred_boxes_one2many'', ''aux_outputs_one2many''])
     (BackupPlainDETRTransformer_forward_pre_upsample
        (PlainDETRTransformer_init
           (\<lambda>src key_padding_mask pos_embed. Inr src)
           (\<lambda>tgt memory tgt_mask memory_key_padding_mask pos query_pos. Inr tgt)
           (\<lambda>input_dim hidden_dim output_dim num_layers. Linear input_dim output_dim)
           (\<lambda>t size. Inr (take 2 t @ size))
           (\<lambda>t. Inr t)
           True 512 6 False 6 80 300 1500 False)
        [2, 512, 20, 20] None)
   = Inr [Some (Tensor [2, 300, 80]), Some (Tensor [2, 300, 4]), None,
          Some (Tensor [2, 1500, 80]), Some (Tensor [2, 1500, 4]), None]
   \<and> PlainDETRTransformer_forward_pre_upsample
        (PlainDETRTransformer_init
           (\<lambda>src key_padding_mask pos_embed. Inr src)
           (\<lambda>tgt memory tgt_mask memory_key_padding_mask pos query_pos. Inr tgt)
           (\<lambda>input_dim hidden_dim output_dim num_layers. Linear input_dim output_dim)
           (\<lambda>t size. Inr (take 2 t @ size))
           (\<lambda>t. Inr t)
           True 512 6 False 6 80 300 1500 False)
        [2, 512, 20, 20] None
     \<noteq> BackupPlainDETRTransformer_forward_pre_upsample
        (PlainDETRTransformer_init
           (\<lambda>src key_padding_mask pos_embed. Inr src)
           (\<lambda>tgt memory tgt_mask memory_key_padding_mask pos query_pos. Inr tgt)
           (\<lambda>input_dim hidden_dim output_dim num_layers. Linear input_dim output_dim)
           (\<lambda>t size. Inr (take 2 t @ size))
           (\<lambda>t. Inr t)
           True 512 6 False 6 80 300 1500 False)
        [2, 512, 20, 20] None"
proof (intro conjI)
  let ?self = "PlainDETRTransformer_init
           (\<lambda>src key_padding_mask pos_embed. Inr src)
           (\<lambda>tgt memory tgt_mask memory_key_padding_mask pos query_pos. Inr tgt)
           (\<lambda>input_dim hidden_dim output_dim num_layers. Linear input_dim output_dim)
           (\<lambda>t size. Inr (take 2 t @ size))
           (\<lambda>t. Inr t)
           True 512 6 False 6 80 300 1500 False"
  let ?keys = "[''pred_logits'', ''pred_boxes'', ''aux_outputs'',
        ''pred_logits_one2many'', ''pred_boxes_one2many'', ''aux_outputs_one2many'']"
  show p: "map_sum id (\<lambda>out. map out ?keys)
      (PlainDETRTransformer_forward_pre_upsample ?self [2, 512, 20, 20] None)
    = Inr [Some (Tensor [2, 300, 80]), Some (Tensor [2, 300, 4]), None,
           Some (Tensor [2, 300, 80]), Some (Tensor [2, 300, 4]), None]"
    by (rule PlainDETRTransformer_default_eval)
  show b: "map_sum id (\<lambda>out. map out ?keys)
      (BackupPlainDETRTransformer_forward_pre_upsample ?self [2, 512, 20, 20] None)
    = Inr [Some (Tensor [2, 300, 80]), Some (Tensor [2, 300, 4]), None,
           Some (Tensor [2, 1500, 80]), Some (Tensor [2, 1500, 4]), None]"
    by (rule BackupPlainDETRTransformer_default_eval)
  show "PlainDETRTransformer_forward_pre_upsample ?self [2, 512, 20, 20] None
      \<noteq> BackupPlainDETRTransformer_forward_pre_upsample ?self [2, 512, 20, 20] None"
  proof
    assume "PlainDETRTransformer_forward_pre_upsample ?self [2, 512, 20, 20] None
      = BackupPlainDETRTransformer_forward_pre_upsample ?self [2, 512, 20, 20] None"
    with p b show False by simp
  qed
qed

end
